theory Spec2Isabelle
  imports Main "HOL-Library.AList"
begin

section \<open>Python strings\<close>

text \<open>
  Strings are lists of characters. The functions below are the pieces of Python's
  \<^verbatim>\<open>str\<close> that \<^verbatim>\<open>build_run.py\<close> uses: \<^verbatim>\<open>replace\<close> with one-character
  arguments, \<^verbatim>\<open>in\<close> (substring test), \<^verbatim>\<open>lower\<close> (on ASCII letters),
  \<^verbatim>\<open>split(':')\<close> and the decimal rendering of an integer inside an f-string.
\<close>

definition replace :: "char \<Rightarrow> char \<Rightarrow> string \<Rightarrow> string" where
  "replace old new s = map (\<lambda>c. if c = old then new else c) s"

fun in_str :: "string \<Rightarrow> string \<Rightarrow> bool" where
  "in_str p [] = (p = [])"
| "in_str p (c # cs) = (take (length p) (c # cs) = p \<or> in_str p cs)"

definition lower_char :: "char \<Rightarrow> char" where
  "lower_char c =
     (if (65::nat) \<le> of_char c \<and> of_char c \<le> (90::nat)
      then char_of (of_char c + (32::nat)) else c)"

definition lower :: "string \<Rightarrow> string" where
  "lower s = map lower_char s"

fun split_on :: "char \<Rightarrow> string \<Rightarrow> string list" where
  "split_on sep [] = [[]]"
| "split_on sep (c # cs) =
     (if c = sep then [] # split_on sep cs
      else (case split_on sep cs of
              [] \<Rightarrow> [[c]]
            | x # xs \<Rightarrow> (c # x) # xs))"

definition digit_char :: "nat \<Rightarrow> char" where
  "digit_char n = char_of (48 + n)"

fun str_nat :: "nat \<Rightarrow> string" where
  "str_nat n = (if n < 10 then [digit_char n] else str_nat (n div 10) @ [digit_char (n mod 10)])"

definition str_int :: "int \<Rightarrow> string" where
  "str_int i = (if i < 0 then CHR ''-'' # str_nat (nat (- i)) else str_nat (nat i))"

section \<open>Exceptions\<close>

text \<open>
  \<^verbatim>\<open>BuildRunError(code, message)\<close> is the tool's own exception (lines 12-18). Every other
  exception comes from a library: \<^verbatim>\<open>docker.errors.APIError\<close> (with its subclasses),
  \<^verbatim>\<open>IndexError\<close> from indexing the result of \<^verbatim>\<open>split\<close>,
  \<^verbatim>\<open>AttributeError\<close> from reading \<^verbatim>\<open>.id\<close> of what \<^verbatim>\<open>containers.run\<close>
  returned when that is not a container, or anything else the Docker client lets through
  (a connection error of the HTTP layer, for instance).
\<close>

datatype lib_error = APIError string | IndexError | AttributeError | OtherError string

datatype exn = BuildRunError int string | Lib lib_error

definition str_BuildRunError :: "int \<Rightarrow> string \<Rightarrow> string" where
  "str_BuildRunError code message = ''BuildRunError: '' @ str_int code @ '' - '' @ message"

section \<open>The Docker Engine as the tool sees it\<close>

text \<open>
  The daemon is an external collaborator. Of each container the tool reads the fields
  \<^verbatim>\<open>Id\<close>, \<^verbatim>\<open>State\<close> and \<^verbatim>\<open>Created\<close>; the daemon filters by name. The
  daemon's container table is a list of such records.

  The tool never asks for a name as such: at lines 77, 91 and 113 it sends the filter
  \<^verbatim>\<open>'^' + n + '$'\<close>, a regular expression made from the name \<^verbatim>\<open>n\<close> without
  escaping, and the daemon lists the containers whose name the expression matches. A
  container name is made of letters, digits, \<^verbatim>\<open>_\<close>, \<^verbatim>\<open>-\<close> and \<^verbatim>\<open>.\<close>; of
  these only the dot is special in an expression, where it stands for any one character.
  So \<^verbatim>\<open>^a.b_dev$\<close> lists \<^verbatim>\<open>a.b_dev\<close> and \<^verbatim>\<open>axb_dev\<close> alike.
  \<^verbatim>\<open>matches n x\<close> is: the expression \<^verbatim>\<open>^n$\<close>, for \<^verbatim>\<open>n\<close> made of such
  characters, matches the name \<^verbatim>\<open>x\<close>.
\<close>

record container =
  c_Id :: string
  c_Name :: string
  c_State :: string
  c_Created :: int

type_synonym daemon = "container list"

fun matches :: "string \<Rightarrow> string \<Rightarrow> bool" where
  "matches [] [] = True"
| "matches (p # ps) (x # xs) = ((p = CHR ''.'' \<or> p = x) \<and> matches ps xs)"
| "matches _ _ = False"

text \<open>
  \<^verbatim>\<open>name_chars s\<close>: the string \<^verbatim>\<open>s\<close> is made of the characters of container names.
  For such \<^verbatim>\<open>n\<close> the daemon's answer to \<^verbatim>\<open>^n$\<close> is the one \<^verbatim>\<open>matches n\<close> gives.
\<close>

definition name_chars :: "string \<Rightarrow> bool" where
  "name_chars s =
     (set s \<subseteq> set ''abcdefghijklmnopqrstuvwxyzABCDEFGHIJKLMNOPQRSTUVWXYZ0123456789_.-'')"

text \<open>
  \<^verbatim>\<open>containers(all=..., filters={'name': '^n$'})\<close> lists the containers that the
  expression matches, only the running ones unless \<^verbatim>\<open>all=True\<close>. \<^verbatim>\<open>stop(id)\<close>
  leaves the container with that id in state \<^verbatim>\<open>exited\<close>, and \<^verbatim>\<open>rename(id, n)\<close>
  gives it the name \<^verbatim>\<open>n\<close>. The daemon performs whatever rename it is asked for: that
  the new name is free is for the tool to ensure. The listing, stop and rename requests
  are taken to be answered: an exception of the client can come out of \<^verbatim>\<open>build\<close>,
  \<^verbatim>\<open>run\<close>, \<^verbatim>\<open>tag\<close> and \<^verbatim>\<open>push\<close> only.
\<close>

definition api_containers :: "bool \<Rightarrow> string \<Rightarrow> daemon \<Rightarrow> container list" where
  "api_containers all nm d =
     filter (\<lambda>c. matches nm (c_Name c) \<and> (all \<or> c_State c = ''running'')) d"

definition api_stop :: "string \<Rightarrow> daemon \<Rightarrow> daemon" where
  "api_stop i d = map (\<lambda>c. if c_Id c = i then c\<lparr>c_State := ''exited''\<rparr> else c) d"

definition api_rename :: "string \<Rightarrow> string \<Rightarrow> daemon \<Rightarrow> daemon" where
  "api_rename i nm d = map (\<lambda>c. if c_Id c = i then c\<lparr>c_Name := nm\<rparr> else c) d"

text \<open>
  What one invocation does to the outside world, in order: the requests it sends to the
  daemon, the calls of \<^verbatim>\<open>sleep\<close>, and the lines it prints in the liveness loop and in
  the top-level handler. The other prints of the program are progress messages guarded by
  \<^verbatim>\<open>verbose\<close>; they are not recorded.
\<close>

datatype effect =
    ApiBuild string string string string bool bool bool
  | ApiContainers bool string
  | ApiStop string
  | ApiRename string string
  | ApiRun string string string "(string \<times> string) list" "(string \<times> string) list" bool
  | ApiTag string string string
  | ApiPush string string
  | Sleep nat
  | Print string

text \<open>
  The daemon's table after it has served a sequence of requests: only \<^verbatim>\<open>stop\<close> and
  \<^verbatim>\<open>rename\<close> change it. This is how a moment during reconciliation is named: by the
  requests sent before it.
\<close>

fun serve :: "effect \<Rightarrow> daemon \<Rightarrow> daemon" where
  "serve (ApiStop i) d = api_stop i d"
| "serve (ApiRename i nm) d = api_rename i nm d"
| "serve _ d = d"

definition after :: "effect list \<Rightarrow> daemon \<Rightarrow> daemon" where
  "after tr d = fold serve tr d"

text \<open>
  A stream returned by the client (\<^verbatim>\<open>build\<close>, \<^verbatim>\<open>push\<close>) is consumed item by item;
  reading the next item may raise instead of yielding. A decoded stream item is a JSON
  object, read here as a map from field names to the text of their values.
\<close>

datatype 'a item = Yield 'a | Raise lib_error

type_synonym json_line = "string \<rightharpoonup> string"

section \<open>Reconciliation: lines 74-100\<close>

text \<open>Lines 89 and 92: the rename candidates, \<^verbatim>\<open>fromtimestamp\<close> being
  \<^verbatim>\<open>str(datetime.fromtimestamp(_))\<close>, which depends on the local time zone of the
  process and is a parameter here.\<close>

definition candidate :: "(int \<Rightarrow> string) \<Rightarrow> string \<Rightarrow> int \<Rightarrow> string" where
  "candidate fromtimestamp name created =
     replace CHR '':'' CHR ''_'' (replace CHR '' '' CHR ''_''
       (name @ ''_'' @ fromtimestamp created))"

definition candidate_n :: "(int \<Rightarrow> string) \<Rightarrow> string \<Rightarrow> int \<Rightarrow> nat \<Rightarrow> string" where
  "candidate_n fromtimestamp name created count =
     replace CHR '':'' CHR ''_'' (replace CHR '' '' CHR ''_''
       (name @ ''_'' @ fromtimestamp created @ ''_'' @ str_nat count))"

text \<open>Lines 90-93: the loop that looks for a free name. Its result is the name and the
  listing requests it sent.\<close>

function rename_loop ::
  "daemon \<Rightarrow> (int \<Rightarrow> string) \<Rightarrow> string \<Rightarrow> int \<Rightarrow> string \<Rightarrow> nat \<Rightarrow> string \<times> effect list" where
  "rename_loop d fromtimestamp name created rename count =
     (if api_containers True rename d \<noteq> []
      then (case rename_loop d fromtimestamp name created
                   (candidate_n fromtimestamp name created count) (count + 1) of
              (r, tr) \<Rightarrow> (r, ApiContainers True rename # tr))
      else (rename, [ApiContainers True rename]))"
  by pat_completeness auto

text \<open>Lines 84-97: the body of the loop over the containers listed at line 74. The
  record \<^verbatim>\<open>container\<close> is the one of that listing, so its state is the state at
  listing time; the daemon's table \<^verbatim>\<open>d\<close> changes as containers are stopped and
  renamed.\<close>

definition reconcile_one ::
  "(int \<Rightarrow> string) \<Rightarrow> string \<Rightarrow> container \<Rightarrow> daemon \<Rightarrow> daemon \<times> effect list" where
  "reconcile_one fromtimestamp name container d =
     (let container_id = c_Id container;
          running = (lower (c_State container) = ''running'');
          d1 = (if running then api_stop container_id d else d);
          t1 = (if running then [ApiStop container_id] else []);
          (rename, t2) = rename_loop d1 fromtimestamp name (c_Created container)
                           (candidate fromtimestamp name (c_Created container)) 1
      in (api_rename container_id rename d1, t1 @ t2 @ [ApiRename container_id rename]))"

text \<open>Line 83: the loop itself.\<close>

fun reconcile_loop ::
  "(int \<Rightarrow> string) \<Rightarrow> string \<Rightarrow> container list \<Rightarrow> daemon \<Rightarrow> daemon \<times> effect list" where
  "reconcile_loop fromtimestamp name [] d = (d, [])"
| "reconcile_loop fromtimestamp name (container # rest) d =
     (let (d2, t) = reconcile_one fromtimestamp name container d;
          (d3, t3) = reconcile_loop fromtimestamp name rest d2
      in (d3, t @ t3))"

text \<open>Lines 74-100: the listing, then the loop when the listing is not empty.\<close>

definition reconcile :: "(int \<Rightarrow> string) \<Rightarrow> string \<Rightarrow> daemon \<Rightarrow> daemon \<times> effect list" where
  "reconcile fromtimestamp name d =
     (let all_containers = api_containers True name d;
          (d', tr) = (if all_containers \<noteq> []
                      then reconcile_loop fromtimestamp name all_containers d
                      else (d, []))
      in (d', ApiContainers True name # tr))"

section \<open>The three steps\<close>

text \<open>A step ends with the requests it sent and, when it raised, the exception.\<close>

type_synonym outcome = "effect list \<times> exn option"

subsection \<open>Build: lines 28-58\<close>

text \<open>Lines 51-54: the loop over the build stream. It is entered only under
  \<^verbatim>\<open>verbose >= 1\<close> (line 49).\<close>

fun build_log :: "json_line item list \<Rightarrow> bool \<Rightarrow> bool \<times> lib_error option" where
  "build_log [] build_success = (build_success, None)"
| "build_log (Raise e # rest) build_success = (build_success, Some e)"
| "build_log (Yield i # rest) build_success =
     build_log rest
       (case i ''stream'' of
          None \<Rightarrow> build_success
        | Some s \<Rightarrow> if in_str ''Successfully built'' s then True else build_success)"

definition build_step ::
  "lib_error + json_line item list \<Rightarrow> string \<Rightarrow> string \<Rightarrow> bool \<Rightarrow> bool \<Rightarrow> bool \<Rightarrow>
   string \<Rightarrow> string \<Rightarrow> string option \<Rightarrow> nat \<Rightarrow> outcome" where
  "build_step build_result user dir cache pull rm env tag dockerfile verbose =
     (let dockerfile' = (case dockerfile of None \<Rightarrow> ''Dockerfile.'' @ env | Some f \<Rightarrow> f);
          t = [ApiBuild dir tag dockerfile' user (\<not> cache) pull rm]
      in case build_result of
           Inl e \<Rightarrow> (t, Some (Lib e))
         | Inr image_stream \<Rightarrow>
             (case (if verbose \<ge> 1 then build_log image_stream False else (False, None)) of
                (build_success, Some e) \<Rightarrow> (t, Some (Lib e))
              | (build_success, None) \<Rightarrow>
                  if \<not> build_success then (t, Some (BuildRunError 101 ''Build Failed''))
                  else (t, None)))"

subsection \<open>Run: lines 60-122\<close>

text \<open>
  \<^verbatim>\<open>containers.run\<close> answers with a container when \<^verbatim>\<open>detach\<close> is true; when it
  is false it waits for the container to end and answers with its output, which has no
  \<^verbatim>\<open>id\<close>. Line 104 reads \<^verbatim>\<open>container.id\<close> under \<^verbatim>\<open>verbose >= 1\<close>, so with
  \<^verbatim>\<open>--no-detach\<close> the block of lines 103-122 ends there with
  \<^verbatim>\<open>AttributeError\<close>. The answer is a text in both cases: the id, or the output.
\<close>

text \<open>Lines 65-66: the dictionaries of ports and volumes. Indexing the split string at 1
  raises \<^verbatim>\<open>IndexError\<close> when the option has no colon; a repeated key keeps its
  place and takes the later value.\<close>

definition key_value :: "string \<Rightarrow> lib_error + (string \<times> string)" where
  "key_value p =
     (case split_on CHR '':'' p of
        a # b # _ \<Rightarrow> Inr (a, b)
      | _ \<Rightarrow> Inl IndexError)"

fun dict_of :: "string list \<Rightarrow> (string \<times> string) list \<Rightarrow> lib_error + (string \<times> string) list" where
  "dict_of [] acc = Inr acc"
| "dict_of (p # ps) acc =
     (case key_value p of
        Inl e \<Rightarrow> Inl e
      | Inr (k, v) \<Rightarrow> dict_of ps (AList.update k v acc))"

definition msg_running :: "int \<Rightarrow> string" where
  "msg_running wait = [CHR 0x0D, CHR 0x09] @ str_int wait @ '': Running''"

definition msg_died :: "int \<Rightarrow> string" where
  "msg_died wait = [CHR 0x0D, CHR 0x09] @ str_int wait @ '': Died    '' @ [CHR 0x0A]"

definition msg_success :: string where
  "msg_success = [CHR 0x0D, CHR 0x09] @ ''Success!     '' @ [CHR 0x0A]"

function wait_loop :: "(nat \<Rightarrow> daemon) \<Rightarrow> string \<Rightarrow> int \<Rightarrow> nat \<Rightarrow> bool \<times> effect list" where
  "wait_loop world name wait k =
     (if wait \<ge> 0 then
        (if api_containers False name (world k) \<noteq> []
         then (case wait_loop world name (wait - 1) (Suc k) of
                 (run_success, tr) \<Rightarrow>
                   (run_success,
                    [ApiContainers False name, Print (msg_running wait), Sleep 1] @ tr))
         else (False, [ApiContainers False name, Print (msg_died wait)]))
      else (True, []))"
  by pat_completeness auto
termination
  by (relation "measure (\<lambda>(world, name, wait, k). nat (wait + 1))") auto

definition run_step ::
  "(int \<Rightarrow> string) \<Rightarrow> daemon \<Rightarrow> lib_error + string \<Rightarrow> (nat \<Rightarrow> daemon) \<Rightarrow>
   string \<Rightarrow> string \<Rightarrow> string \<Rightarrow> string list \<Rightarrow> string list \<Rightarrow> bool \<Rightarrow> int \<Rightarrow> nat \<Rightarrow> outcome" where
  "run_step fromtimestamp d run_result world user name tag port volume detach wait verbose =
     (case dict_of port [] of
        Inl e \<Rightarrow> ([], Some (Lib e))
      | Inr ports \<Rightarrow>
     (case dict_of volume [] of
        Inl e \<Rightarrow> ([], Some (Lib e))
      | Inr volumes \<Rightarrow>
     (let t1 = snd (reconcile fromtimestamp name d);
          t2 = [ApiRun tag name user ports volumes detach]
      in case run_result of
           Inl e \<Rightarrow> (t1 @ t2, Some (Lib e))
         | Inr container \<Rightarrow>
             (if verbose \<ge> 1
              then (if detach
                    then (case wait_loop world name wait 0 of
                            (run_success, t3) \<Rightarrow>
                              (t1 @ t2 @ t3 @ (if run_success then [Print msg_success] else []),
                               None))
                    else (t1 @ t2, Some (Lib AttributeError)))
              else (t1 @ t2, None)))))"

subsection \<open>Push: lines 124-135\<close>

fun push_log :: "json_line item list \<Rightarrow> lib_error option" where
  "push_log [] = None"
| "push_log (Raise e # rest) = Some e"
| "push_log (Yield line # rest) = push_log rest"

definition push_step ::
  "lib_error + bool \<Rightarrow> lib_error + json_line item list \<Rightarrow> string \<Rightarrow> string \<Rightarrow> string \<Rightarrow>
   string \<Rightarrow> outcome" where
  "push_step tag_result push_result repo_name user env tag =
     (let target = repo_name @ ''/'' @ user;
          t1 = [ApiTag tag target env];
          t2 = [ApiPush target env]
      in case tag_result of
           Inl e \<Rightarrow> (t1, Some (Lib e))
         | Inr tagged \<Rightarrow>
             if tagged then
               (case (case push_result of Inl e \<Rightarrow> Some e | Inr lines \<Rightarrow> push_log lines) of
                  Some (APIError m) \<Rightarrow>
                    (t1 @ t2, Some (BuildRunError 103 (''Failed to push '' @ target @ '':'' @ env)))
                | Some e \<Rightarrow> (t1 @ t2, Some (Lib e))
                | None \<Rightarrow> (t1 @ t2, None))
             else (t1, Some (BuildRunError 102 (''Failed to tag image as '' @ target @ '':'' @ env))))"

section \<open>The program\<close>

text \<open>The command-line options (lines 139-154) and what the Docker Engine answers during
  one invocation: its container table at the start, the build stream, the result of
  \<^verbatim>\<open>containers.run\<close>, its container table at each liveness poll, the result of
  \<^verbatim>\<open>tag\<close> and the push stream.\<close>

record options =
  opt_user :: string
  opt_dir :: string
  opt_cache :: bool
  opt_pull :: bool
  opt_rm :: bool
  opt_detach :: bool
  opt_env :: string
  opt_wait :: int
  opt_push :: bool
  opt_run :: bool
  opt_build :: bool
  opt_repo_name :: string
  opt_port :: "string list"
  opt_volume :: "string list"
  opt_dockerfile :: "string option"
  opt_verbose :: nat

record engine =
  e_containers :: daemon
  e_build :: "lib_error + json_line item list"
  e_run :: "lib_error + string"
  e_world :: "nat \<Rightarrow> daemon"
  e_tag :: "lib_error + bool"
  e_push :: "lib_error + json_line item list"

definition and_then :: "outcome \<Rightarrow> outcome \<Rightarrow> outcome" where
  "and_then a b =
     (case a of
        (t, Some x) \<Rightarrow> (t, Some x)
      | (t, None) \<Rightarrow> (case b of (t', r) \<Rightarrow> (t @ t', r)))"

definition BuildRun_main :: "(int \<Rightarrow> string) \<Rightarrow> options \<Rightarrow> engine \<Rightarrow> outcome" where
  "BuildRun_main fromtimestamp opts eng =
     (let user = opt_user opts; env = opt_env opts;
          name = user @ ''_'' @ env;
          tag = user @ '':'' @ env
      in and_then
           (if opt_build opts
            then build_step (e_build eng) user (opt_dir opts) (opt_cache opts) (opt_pull opts)
                   (opt_rm opts) env tag (opt_dockerfile opts) (opt_verbose opts)
            else ([], None))
        (and_then
           (if opt_run opts
            then run_step fromtimestamp (e_containers eng) (e_run eng) (e_world eng) user name tag
                   (opt_port opts) (opt_volume opts) (opt_detach opts) (opt_wait opts)
                   (opt_verbose opts)
            else ([], None))
           (if opt_push opts
            then push_step (e_tag eng) (e_push eng) (opt_repo_name opts) user env tag
            else ([], None))))"

definition main :: "(int \<Rightarrow> string) \<Rightarrow> options \<Rightarrow> engine \<Rightarrow> outcome" where
  "main fromtimestamp opts eng =
     (case BuildRun_main fromtimestamp opts eng of
        (t, Some (BuildRunError code message)) \<Rightarrow>
          (t @ [Print (str_BuildRunError code message @ [CHR 0x0A])], None)
      | (t, r) \<Rightarrow> (t, r))"

section \<open>Decimal numerals and candidate names\<close>

text \<open>The defining equation of \<^const>\<open>str_nat\<close> would rewrite for ever; it is unfolded by hand.\<close>

declare str_nat.simps [simp del]

lemma str_nat_nonempty: "str_nat n \<noteq> []"
  by (subst str_nat.simps) simp

lemma of_char_digit: "n < 10 \<Longrightarrow> (of_char (digit_char n) :: nat) = 48 + n"
  by (simp add: digit_char_def)

lemma digit_char_inj:
  assumes "a < 10" and "b < 10" and "digit_char a = digit_char b"
  shows "a = b"
proof -
  have "(of_char (digit_char a) :: nat) = 48 + a" using assms(1) by (rule of_char_digit)
  moreover have "(of_char (digit_char b) :: nat) = 48 + b" using assms(2) by (rule of_char_digit)
  ultimately have "48 + a = 48 + b" using assms(3) by metis
  then show ?thesis by arith
qed

lemma str_nat_digits: "set (str_nat n) \<subseteq> digit_char ` {..<10}"
proof (induction n rule: str_nat.induct)
  case (1 n)
  show ?case
  proof (cases "n < 10")
    case True
    then show ?thesis by (subst str_nat.simps) simp
  next
    case False
    have "n mod 10 < 10" by simp
    then have "digit_char (n mod 10) \<in> digit_char ` {..<10}" by blast
    with False 1 show ?thesis by (subst str_nat.simps) simp
  qed
qed

lemma replace_id: "old \<notin> set s \<Longrightarrow> replace old new s = s"
  by (induction s) (auto simp: replace_def)

lemma replace_append: "replace old new (a @ b) = replace old new a @ replace old new b"
  by (simp add: replace_def)

lemma length_replace: "length (replace old new s) = length s"
  by (simp add: replace_def)


lemma str_nat_inj: "str_nat n = str_nat m \<Longrightarrow> n = m"
proof (induction n arbitrary: m rule: str_nat.induct)
  case (1 n)
  show ?case
  proof (cases "n < 10")
    case n: True
    show ?thesis
    proof (cases "m < 10")
      case True
      with n "1.prems" have "[digit_char n] = [digit_char m]"
        by (metis str_nat.simps)
      with n True show ?thesis using digit_char_inj by blast
    next
      case False
      then have "str_nat m = str_nat (m div 10) @ [digit_char (m mod 10)]"
        by (subst str_nat.simps) simp
      moreover have "str_nat n = [digit_char n]" using n by (subst str_nat.simps) simp
      ultimately show ?thesis using "1.prems" str_nat_nonempty [of "m div 10"] by simp
    qed
  next
    case n: False
    then have en: "str_nat n = str_nat (n div 10) @ [digit_char (n mod 10)]"
      by (subst str_nat.simps) simp
    show ?thesis
    proof (cases "m < 10")
      case True
      then have "str_nat m = [digit_char m]" by (subst str_nat.simps) simp
      with en show ?thesis using "1.prems" str_nat_nonempty [of "n div 10"] by simp
    next
      case False
      then have em: "str_nat m = str_nat (m div 10) @ [digit_char (m mod 10)]"
        by (subst str_nat.simps) simp
      from en em "1.prems" have a: "str_nat (n div 10) = str_nat (m div 10)"
        and b: "digit_char (n mod 10) = digit_char (m mod 10)" by simp_all
      from a n have "n div 10 = m div 10" by (rule "1.IH" [rotated])
      moreover have "n mod 10 = m mod 10"
        by (rule digit_char_inj [OF _ _ b]) simp_all
      ultimately show ?thesis by (metis div_mult_mod_eq)
    qed
  qed
qed

lemma digit_char_not_sep: "n < 10 \<Longrightarrow> digit_char n \<noteq> CHR '' '' \<and> digit_char n \<noteq> CHR '':''"
proof -
  assume n: "n < 10"
  have a: "(of_char (digit_char n) :: nat) = 48 + n" using n by (rule of_char_digit)
  have b: "(of_char CHR '' '' :: nat) = 32" by simp
  have c: "(of_char CHR '':'' :: nat) = 58" by simp
  have "digit_char n \<noteq> CHR '' ''"
  proof
    assume "digit_char n = CHR '' ''"
    with a b have "48 + n = (32::nat)" by simp
    then show False by arith
  qed
  moreover have "digit_char n \<noteq> CHR '':''"
  proof
    assume "digit_char n = CHR '':''"
    with a c have "48 + n = (58::nat)" by simp
    with n show False by arith
  qed
  ultimately show ?thesis by simp
qed

lemma str_nat_no_sep: "CHR '' '' \<notin> set (str_nat n) \<and> CHR '':'' \<notin> set (str_nat n)"
proof -
  have "c \<noteq> CHR '' '' \<and> c \<noteq> CHR '':''" if "c \<in> set (str_nat n)" for c
  proof -
    from that str_nat_digits [of n] obtain k where k: "k < 10" "c = digit_char k" by blast
    from digit_char_not_sep [OF k(1)] k(2) show ?thesis by simp
  qed
  then show ?thesis by blast
qed

section \<open>Names and the expressions made from them\<close>

lemma matches_refl: "matches n n"
  by (induction n) simp_all

lemma matches_length: "matches p x \<Longrightarrow> length p = length x"
  by (induction p x rule: matches.induct) simp_all

lemma matches_unequal: "length p \<noteq> length x \<Longrightarrow> matches p x = False"
  using matches_length [of p x] by blast

lemma matches_append:
  "length p1 = length x1 \<Longrightarrow> matches (p1 @ p2) (x1 @ x2) = (matches p1 x1 \<and> matches p2 x2)"
  by (induction p1 x1 rule: matches.induct) auto

lemma matches_plain: "CHR ''.'' \<notin> set p \<Longrightarrow> matches p x \<longleftrightarrow> x = p"
  by (induction p x rule: matches.induct) auto

lemma matches_split:
  assumes "matches (p1 @ p2) x"
  shows "matches p2 (drop (length p1) x)"
proof -
  from assms have "length (p1 @ p2) = length x" by (rule matches_length)
  then have l: "length p1 = length (take (length p1) x)" by simp
  have "matches (p1 @ p2) (take (length p1) x @ drop (length p1) x)"
    using assms by simp
  with l show ?thesis by (simp only: matches_append)
qed

lemma digit_char_not_dot: "n < 10 \<Longrightarrow> digit_char n \<noteq> CHR ''.''"
proof
  assume n: "n < 10" and e: "digit_char n = CHR ''.''"
  have "(of_char (digit_char n) :: nat) = 48 + n" using n by (rule of_char_digit)
  moreover have "(of_char CHR ''.'' :: nat) = 46" by simp
  ultimately have "48 + n = (46::nat)" using e by simp
  then show False by arith
qed

lemma str_nat_no_dot: "CHR ''.'' \<notin> set (str_nat n)"
proof
  assume "CHR ''.'' \<in> set (str_nat n)"
  with str_nat_digits [of n] obtain k where k: "k < 10" "CHR ''.'' = digit_char k" by blast
  from digit_char_not_dot [OF k(1)] k(2) show False by simp
qed

lemma listed_iff:
  "api_containers True nm d \<noteq> [] \<longleftrightarrow> (\<exists>x \<in> set (map c_Name d). matches nm x)"
  by (auto simp: api_containers_def filter_empty_conv)

lemma listing_empty:
  "api_containers True nm d = [] \<longleftrightarrow> (\<forall>x \<in> set (map c_Name d). \<not> matches nm x)"
  using listed_iff [of nm d] by blast

lemma empty_listing_free: "api_containers True nm d = [] \<Longrightarrow> nm \<notin> c_Name ` set d"
  using listing_empty [of nm d] matches_refl [of nm] by auto

lemma plain_listing:
  "CHR ''.'' \<notin> set nm \<Longrightarrow> api_containers True nm d = [] \<longleftrightarrow> nm \<notin> c_Name ` set d"
  using listing_empty [of nm d] by (auto simp: matches_plain)

lemma candidate_n_split:
  "candidate_n fts name created n =
     replace CHR '':'' CHR ''_'' (replace CHR '' '' CHR ''_'' (name @ ''_'' @ fts created @ ''_''))
       @ str_nat n"
proof -
  have "replace CHR '':'' CHR ''_'' (replace CHR '' '' CHR ''_'' (str_nat n)) = str_nat n"
    using str_nat_no_sep [of n] by (simp add: replace_id)
  moreover have "name @ ''_'' @ fts created @ ''_'' @ str_nat n
      = (name @ ''_'' @ fts created @ ''_'') @ str_nat n" by simp
  ultimately show ?thesis
    unfolding candidate_n_def by (simp only: replace_append)
qed

lemma candidate_n_inj: "candidate_n fts name created n = candidate_n fts name created m \<Longrightarrow> n = m"
  by (simp add: candidate_n_split str_nat_inj)

lemma candidate_n_suffix:
  assumes "matches (candidate_n fts name created n) x"
  shows "str_nat n = drop (length (name @ ''_'' @ fts created @ ''_'')) x"
proof -
  let ?P = "replace CHR '':'' CHR ''_'' (replace CHR '' '' CHR ''_''
              (name @ ''_'' @ fts created @ ''_''))"
  from assms have "matches (?P @ str_nat n) x" by (simp only: candidate_n_split)
  then have "matches (str_nat n) (drop (length ?P) x)" by (rule matches_split)
  then have "drop (length ?P) x = str_nat n"
    using str_nat_no_dot [of n] by (simp add: matches_plain)
  then show ?thesis by (simp only: length_replace)
qed

lemma candidate_n_apart:
  "matches (candidate_n fts name created n) x \<Longrightarrow>
   matches (candidate_n fts name created m) x \<Longrightarrow> n = m"
  using candidate_n_suffix [of fts name created n x] candidate_n_suffix [of fts name created m x]
    str_nat_inj [of n m] by simp

lemma finite_if_at_most_one:
  assumes "\<And>a b. a \<in> S \<Longrightarrow> b \<in> S \<Longrightarrow> a = b"
  shows "finite S"
proof (cases "S = {}")
  case True
  then show ?thesis by simp
next
  case False
  then obtain a where "a \<in> S" by blast
  with assms have "S \<subseteq> {a}" by blast
  then show ?thesis by (rule finite_subset) simp
qed

lemma finite_taken:
  "finite {n. count \<le> n \<and> api_containers True (candidate_n fts name created n) d \<noteq> []}"
proof -
  have one: "finite {n. matches (candidate_n fts name created n) x}" for x
    by (rule finite_if_at_most_one) (auto dest: candidate_n_apart)
  have "finite (\<Union>x \<in> set (map c_Name d). {n. matches (candidate_n fts name created n) x})"
    using one by blast
  then show ?thesis
    by (rule rev_finite_subset) (auto simp: listed_iff)
qed

section \<open>The search for a free name ends\<close>

text \<open>A container name is listed for at most one of the candidates \<^verbatim>\<open>..._1\<close>,
  \<^verbatim>\<open>..._2\<close>, ...: the digits at its end say which. The daemon has finitely many
  containers, so finitely many candidates have a listing. Each round either meets such a
  candidate, of which fewer remain from then on, or is the last one.\<close>

termination rename_loop
proof (relation "measure (\<lambda>(d, fts, name, created, rename, count).
          2 * card {n. count \<le> n \<and> api_containers True (candidate_n fts name created n) d \<noteq> []}
          + (if api_containers True rename d \<noteq> [] then 1 else 0))", goal_cases)
  case 1
  show ?case by simp
next
  case (2 d fts name created rename count)
  let ?A = "\<lambda>k. {n. k \<le> n \<and> api_containers True (candidate_n fts name created n) d \<noteq> []}"
  have fin: "finite (?A count)" by (rule finite_taken)
  show ?case
  proof (cases "api_containers True (candidate_n fts name created count) d \<noteq> []")
    case True
    then have mem: "count \<in> ?A count" by simp
    have eq: "?A (count + 1) = ?A count - {count}" by auto
    have "card (?A count - {count}) < card (?A count)"
      using fin mem by (rule card_Diff1_less)
    then have "card (?A (count + 1)) < card (?A count)"
      by (simp only: eq)
    with 2 True show ?thesis by simp
  next
    case False
    then have "?A (count + 1) = ?A count"
      by (auto simp: Suc_le_eq) (metis le_neq_implies_less)
    with 2 False show ?thesis by simp
  qed
qed

declare rename_loop.simps [simp del]

declare wait_loop.simps [simp del]

section \<open>The build request\<close>

lemma fst_and_then_build:
  "\<exists>rest. fst (and_then (t, r) b) = t @ rest"
  by (cases r; cases b) (simp_all add: and_then_def)

lemma fst_build_step:
  "fst (build_step build_result user dir cache pull rm env tag dockerfile verbose) =
     [ApiBuild dir tag (case dockerfile of None \<Rightarrow> ''Dockerfile.'' @ env | Some f \<Rightarrow> f)
        user (\<not> cache) pull rm]"
  by (simp add: build_step_def Let_def split: sum.splits option.splits prod.splits)

text \<open>
  Claim C10. When the build step runs, the first request of the program is the build
  request, and its dockerfile argument is \<^verbatim>\<open>Dockerfile.<env>\<close> when the option
  \<^verbatim>\<open>--dockerfile\<close> was not given, and the given name, unchanged, when it was. With the
  default environment \<^verbatim>\<open>dev\<close> that is \<^verbatim>\<open>Dockerfile.dev\<close>.
\<close>

theorem dockerfile_default:
  "opt_build opts \<longrightarrow>
     (\<exists>rest. fst (BuildRun_main fromtimestamp opts eng) =
        ApiBuild (opt_dir opts) (opt_user opts @ '':'' @ opt_env opts)
          (case opt_dockerfile opts of
             None \<Rightarrow> ''Dockerfile.'' @ opt_env opts
           | Some f \<Rightarrow> f)
          (opt_user opts) (\<not> opt_cache opts) (opt_pull opts) (opt_rm opts) # rest)"
proof
  assume b: "opt_build opts"
  let ?b = "build_step (e_build eng) (opt_user opts) (opt_dir opts) (opt_cache opts)
     (opt_pull opts) (opt_rm opts) (opt_env opts) (opt_user opts @ '':'' @ opt_env opts)
     (opt_dockerfile opts) (opt_verbose opts)"
  obtain t r where tr: "?b = (t, r)" by (cases ?b)
  have t: "t = [ApiBuild (opt_dir opts) (opt_user opts @ '':'' @ opt_env opts)
          (case opt_dockerfile opts of
             None \<Rightarrow> ''Dockerfile.'' @ opt_env opts
           | Some f \<Rightarrow> f)
          (opt_user opts) (\<not> opt_cache opts) (opt_pull opts) (opt_rm opts)]"
    using fst_build_step [of "e_build eng" "opt_user opts" "opt_dir opts" "opt_cache opts"
      "opt_pull opts" "opt_rm opts" "opt_env opts" "opt_user opts @ '':'' @ opt_env opts"
      "opt_dockerfile opts" "opt_verbose opts"] tr by simp
  have "\<exists>rest. fst (and_then (t, r) b) = t @ rest" for b
    by (rule fst_and_then_build)
  then show "\<exists>rest. fst (BuildRun_main fromtimestamp opts eng) =
        ApiBuild (opt_dir opts) (opt_user opts @ '':'' @ opt_env opts)
          (case opt_dockerfile opts of
             None \<Rightarrow> ''Dockerfile.'' @ opt_env opts
           | Some f \<Rightarrow> f)
          (opt_user opts) (\<not> opt_cache opts) (opt_pull opts) (opt_rm opts) # rest"
    using b tr t by (simp add: BuildRun_main_def Let_def)
qed

theorem dockerfile_default_witness:
  "opt_build
     \<lparr>opt_user = ''alice'', opt_dir = ''.'', opt_cache = True, opt_pull = True, opt_rm = False,
      opt_detach = True, opt_env = ''dev'', opt_wait = 5, opt_push = False, opt_run = False,
      opt_build = True, opt_repo_name = ''benjilev08'', opt_port = [], opt_volume = [],
      opt_dockerfile = None, opt_verbose = 1\<rparr>
   \<and> (\<exists>rest. fst (BuildRun_main (\<lambda>t. ''2020-01-01 12:00:00'')
       \<lparr>opt_user = ''alice'', opt_dir = ''.'', opt_cache = True, opt_pull = True, opt_rm = False,
        opt_detach = True, opt_env = ''dev'', opt_wait = 5, opt_push = False, opt_run = False,
        opt_build = True, opt_repo_name = ''benjilev08'', opt_port = [], opt_volume = [],
        opt_dockerfile = None, opt_verbose = 1\<rparr>
       \<lparr>e_containers = [], e_build = Inr [], e_run = Inr ''c0ffee'', e_world = (\<lambda>k. []),
        e_tag = Inr True, e_push = Inr []\<rparr>) =
      ApiBuild ''.'' ''alice:dev'' ''Dockerfile.dev'' ''alice'' False True False # rest)"
  using dockerfile_default [of
       "\<lparr>opt_user = ''alice'', opt_dir = ''.'', opt_cache = True, opt_pull = True, opt_rm = False,
        opt_detach = True, opt_env = ''dev'', opt_wait = 5, opt_push = False, opt_run = False,
        opt_build = True, opt_repo_name = ''benjilev08'', opt_port = [], opt_volume = [],
        opt_dockerfile = None, opt_verbose = 1\<rparr>"
       "\<lambda>t. ''2020-01-01 12:00:00''"
       "\<lparr>e_containers = [], e_build = Inr [], e_run = Inr ''c0ffee'', e_world = (\<lambda>k. []),
        e_tag = Inr True, e_push = Inr []\<rparr>"]
  by simp

section \<open>Which requests a step sends\<close>

lemma rename_loop_taken:
  "api_containers True rename d \<noteq> [] \<Longrightarrow>
     rename_loop d fts name created rename count =
       (fst (rename_loop d fts name created (candidate_n fts name created count) (Suc count)),
        ApiContainers True rename
          # snd (rename_loop d fts name created (candidate_n fts name created count) (Suc count)))"
  by (subst rename_loop.simps) (simp add: case_prod_beta)

lemma rename_loop_free:
  "api_containers True rename d = [] \<Longrightarrow>
     rename_loop d fts name created rename count = (rename, [ApiContainers True rename])"
  by (subst rename_loop.simps) simp

lemma wait_loop_listed:
  "0 \<le> wait \<Longrightarrow> api_containers False name (world k) \<noteq> [] \<Longrightarrow>
     wait_loop world name wait k =
       (fst (wait_loop world name (wait - 1) (Suc k)),
        [ApiContainers False name, Print (msg_running wait), Sleep 1]
          @ snd (wait_loop world name (wait - 1) (Suc k)))"
  by (subst wait_loop.simps) (simp add: case_prod_beta)

lemma wait_loop_died:
  "0 \<le> wait \<Longrightarrow> api_containers False name (world k) = [] \<Longrightarrow>
     wait_loop world name wait k = (False, [ApiContainers False name, Print (msg_died wait)])"
  by (subst wait_loop.simps) simp

lemma wait_loop_over:
  "wait < 0 \<Longrightarrow> wait_loop world name wait k = (True, [])"
  by (subst wait_loop.simps) simp

lemma rename_loop_trace:
  "\<exists>ns. snd (rename_loop d fts name created rename count) = map (ApiContainers True) ns"
proof (induction d fts name created rename count rule: rename_loop.induct)
  case (1 d fts name created rename count)
  show ?case
  proof (cases "api_containers True rename d \<noteq> []")
    case True
    from 1 [OF True] obtain ns where
      ns: "snd (rename_loop d fts name created (candidate_n fts name created count) (count + 1))
             = map (ApiContainers True) ns" by blast
    have "snd (rename_loop d fts name created rename count) = map (ApiContainers True) (rename # ns)"
      using True ns by (simp add: rename_loop_taken)
    then show ?thesis by blast
  next
    case False
    then have "snd (rename_loop d fts name created rename count) = map (ApiContainers True) [rename]"
      by (simp add: rename_loop_free)
    then show ?thesis by blast
  qed
qed

lemma rename_loop_no_push: "ApiPush r t \<notin> set (snd (rename_loop d fts name created rename count))"
proof -
  from rename_loop_trace [of d fts name created rename count] obtain ns where
    "snd (rename_loop d fts name created rename count) = map (ApiContainers True) ns" by blast
  then show ?thesis by auto
qed

lemma reconcile_one_eq:
  "reconcile_one fts name c d =
     (api_rename (c_Id c)
        (fst (rename_loop (if lower (c_State c) = ''running'' then api_stop (c_Id c) d else d)
                fts name (c_Created c) (candidate fts name (c_Created c)) 1))
        (if lower (c_State c) = ''running'' then api_stop (c_Id c) d else d),
      (if lower (c_State c) = ''running'' then [ApiStop (c_Id c)] else [])
        @ snd (rename_loop (if lower (c_State c) = ''running'' then api_stop (c_Id c) d else d)
                fts name (c_Created c) (candidate fts name (c_Created c)) 1)
        @ [ApiRename (c_Id c)
             (fst (rename_loop (if lower (c_State c) = ''running'' then api_stop (c_Id c) d else d)
                fts name (c_Created c) (candidate fts name (c_Created c)) 1))])"
  by (simp add: reconcile_one_def Let_def case_prod_beta)

lemma reconcile_loop_Cons:
  "reconcile_loop fts name (c # cs) d =
     (fst (reconcile_loop fts name cs (fst (reconcile_one fts name c d))),
      snd (reconcile_one fts name c d)
        @ snd (reconcile_loop fts name cs (fst (reconcile_one fts name c d))))"
  by (simp add: case_prod_beta)

lemma reconcile_eq:
  "reconcile fts name d =
     (fst (reconcile_loop fts name (api_containers True name d) d),
      ApiContainers True name # snd (reconcile_loop fts name (api_containers True name d) d))"
  by (simp add: reconcile_def Let_def case_prod_beta)

lemma reconcile_one_no_push: "ApiPush r t \<notin> set (snd (reconcile_one fts name c d))"
  using rename_loop_no_push by (simp add: reconcile_one_eq)

lemma reconcile_loop_no_push: "ApiPush r t \<notin> set (snd (reconcile_loop fts name cs d))"
proof (induction cs arbitrary: d)
  case Nil
  show ?case by simp
next
  case (Cons c cs)
  show ?case
    using Cons.IH reconcile_one_no_push by (simp add: reconcile_loop_Cons del: reconcile_loop.simps)
qed

lemma reconcile_no_push: "ApiPush r t \<notin> set (snd (reconcile fts name d))"
  using reconcile_loop_no_push by (simp add: reconcile_eq)

lemma wait_loop_no_push: "ApiPush r t \<notin> set (snd (wait_loop world name wait k))"
proof (induction world name wait k rule: wait_loop.induct)
  case (1 world name wait k)
  show ?case
  proof (cases "wait \<ge> 0 \<and> api_containers False name (world k) \<noteq> []")
    case True
    with 1 have "ApiPush r t \<notin> set (snd (wait_loop world name (wait - 1) (Suc k)))" by simp
    with True show ?thesis by (simp add: wait_loop_listed)
  next
    case False
    then show ?thesis
      by (cases "wait < 0") (simp_all add: wait_loop_over wait_loop_died)
  qed
qed

lemma run_step_no_push:
  "ApiPush r t \<notin> set (fst (run_step fts d run_result world user name tag port volume detach wait verbose))"
  using reconcile_no_push [of r t fts name d] wait_loop_no_push [of r t world name wait 0]
  by (auto simp: run_step_def Let_def split: sum.splits prod.splits)

lemma build_step_no_push:
  "ApiPush r t \<notin> set (fst (build_step build_result user dir cache pull rm env tag dockerfile verbose))"
  by (simp add: fst_build_step)

section \<open>Tagging and pushing\<close>

lemma push_log_raise: "push_log (map Yield pre @ Raise e # rest) = Some e"
  by (induction pre) simp_all

lemma fst_and_then:
  "fst (and_then a b) = (case snd a of Some x \<Rightarrow> fst a | None \<Rightarrow> fst a @ fst b)"
  by (cases a; cases b) (simp add: and_then_def split: option.splits)

lemma snd_and_then:
  "snd (and_then a b) = (case snd a of Some x \<Rightarrow> Some x | None \<Rightarrow> snd b)"
  by (cases a; cases b) (simp add: and_then_def split: option.splits)

lemma set_fst_and_then: "set (fst (and_then a b)) \<subseteq> set (fst a) \<union> set (fst b)"
  by (auto simp: fst_and_then split: option.splits)

lemma push_step_no_tag:
  "push_step (Inr False) push_result repo_name user env tag =
     ([ApiTag tag (repo_name @ ''/'' @ user) env],
      Some (BuildRunError 102
              (''Failed to tag image as '' @ repo_name @ ''/'' @ user @ '':'' @ env)))"
  by (simp add: push_step_def Let_def)

lemma push_step_pushes:
  "ApiPush r t \<in> set (fst (push_step tag_result push_result repo_name user env tag)) \<Longrightarrow>
     tag_result = Inr True \<and>
     fst (push_step tag_result push_result repo_name user env tag) =
       [ApiTag tag (repo_name @ ''/'' @ user) env, ApiPush (repo_name @ ''/'' @ user) env]"
  by (auto simp: push_step_def Let_def split: sum.splits option.splits lib_error.splits if_splits)

lemma main_trace:
  "set (fst (main fts opts eng)) \<subseteq> set (fst (BuildRun_main fts opts eng)) \<union> range Print"
  by (auto simp: main_def split: prod.splits option.splits exn.splits)

text \<open>
  Claim C5. When the daemon's tag operation returns false, the push step sends the tag
  request and nothing else and raises \<^verbatim>\<open>BuildRunError(102, 'Failed to tag image as
  <repo>/<user>:<env>')\<close>. Whenever the push step sends a push request, the tag operation
  had returned true and the tag request was sent just before it. In a whole invocation with
  \<^verbatim>\<open>--push\<close> whose tag operation returns false, no push request appears anywhere.
\<close>

theorem tag_failure_prevents_push:
  "push_step (Inr False) push_result repo_name user env tag =
     ([ApiTag tag (repo_name @ ''/'' @ user) env],
      Some (BuildRunError 102
              (''Failed to tag image as '' @ repo_name @ ''/'' @ user @ '':'' @ env)))
   \<and> (ApiPush r t \<in> set (fst (push_step tag_result push_result repo_name user env tag)) \<longrightarrow>
        tag_result = Inr True \<and>
        fst (push_step tag_result push_result repo_name user env tag) =
          [ApiTag tag (repo_name @ ''/'' @ user) env, ApiPush (repo_name @ ''/'' @ user) env])
   \<and> (opt_push opts \<and> e_tag eng = Inr False \<longrightarrow>
        ApiPush r t \<notin> set (fst (main fromtimestamp opts eng)))"
proof (intro conjI impI)
  show "push_step (Inr False) push_result repo_name user env tag =
     ([ApiTag tag (repo_name @ ''/'' @ user) env],
      Some (BuildRunError 102
              (''Failed to tag image as '' @ repo_name @ ''/'' @ user @ '':'' @ env)))"
    by (rule push_step_no_tag)
next
  assume "ApiPush r t \<in> set (fst (push_step tag_result push_result repo_name user env tag))"
  then show "tag_result = Inr True"
    and "fst (push_step tag_result push_result repo_name user env tag) =
          [ApiTag tag (repo_name @ ''/'' @ user) env, ApiPush (repo_name @ ''/'' @ user) env]"
    using push_step_pushes by blast+
next
  assume a: "opt_push opts \<and> e_tag eng = Inr False"
  let ?b = "if opt_build opts
            then build_step (e_build eng) (opt_user opts) (opt_dir opts) (opt_cache opts)
                   (opt_pull opts) (opt_rm opts) (opt_env opts)
                   (opt_user opts @ '':'' @ opt_env opts) (opt_dockerfile opts) (opt_verbose opts)
            else ([], None)"
  let ?r = "if opt_run opts
            then run_step fromtimestamp (e_containers eng) (e_run eng) (e_world eng)
                   (opt_user opts) (opt_user opts @ ''_'' @ opt_env opts)
                   (opt_user opts @ '':'' @ opt_env opts)
                   (opt_port opts) (opt_volume opts) (opt_detach opts) (opt_wait opts)
                   (opt_verbose opts)
            else ([], None)"
  let ?p = "push_step (Inr False) (e_push eng) (opt_repo_name opts) (opt_user opts) (opt_env opts)
              (opt_user opts @ '':'' @ opt_env opts)"
  have m: "BuildRun_main fromtimestamp opts eng = and_then ?b (and_then ?r ?p)"
    using a by (simp add: BuildRun_main_def Let_def)
  have b: "ApiPush r t \<notin> set (fst ?b)" using build_step_no_push by simp
  have r: "ApiPush r t \<notin> set (fst ?r)" using run_step_no_push by simp
  have p: "ApiPush r t \<notin> set (fst ?p)" by (simp add: push_step_no_tag)
  have "ApiPush r t \<notin> set (fst (and_then ?r ?p))"
    using r p set_fst_and_then [of ?r ?p] by blast
  then have "ApiPush r t \<notin> set (fst (and_then ?b (and_then ?r ?p)))"
    using b set_fst_and_then [of ?b "and_then ?r ?p"] by blast
  with m have "ApiPush r t \<notin> set (fst (BuildRun_main fromtimestamp opts eng))" by simp
  then show "ApiPush r t \<notin> set (fst (main fromtimestamp opts eng))"
    using main_trace [of fromtimestamp opts eng] by blast
qed

theorem tag_failure_prevents_push_witness:
  "ApiPush ''benjilev08/alice'' ''dev''
     \<in> set (fst (push_step (Inr True) (Inr []) ''benjilev08'' ''alice'' ''dev'' ''alice:dev''))
   \<and> fst (push_step (Inr True) (Inr []) ''benjilev08'' ''alice'' ''dev'' ''alice:dev'') =
       [ApiTag ''alice:dev'' ''benjilev08/alice'' ''dev'', ApiPush ''benjilev08/alice'' ''dev'']
   \<and> push_step (Inr False) (Inr []) ''benjilev08'' ''alice'' ''dev'' ''alice:dev'' =
       ([ApiTag ''alice:dev'' ''benjilev08/alice'' ''dev''],
        Some (BuildRunError 102 ''Failed to tag image as benjilev08/alice:dev''))
   \<and> opt_push
       \<lparr>opt_user = ''alice'', opt_dir = ''.'', opt_cache = True, opt_pull = True, opt_rm = False,
        opt_detach = True, opt_env = ''dev'', opt_wait = 5, opt_push = True, opt_run = False,
        opt_build = False, opt_repo_name = ''benjilev08'', opt_port = [], opt_volume = [],
        opt_dockerfile = None, opt_verbose = 0\<rparr>
   \<and> e_tag
       \<lparr>e_containers = [], e_build = Inr [], e_run = Inr ''c0ffee'', e_world = (\<lambda>k. []),
        e_tag = Inr False, e_push = Inr []\<rparr> = Inr False
   \<and> ApiPush ''benjilev08/alice'' ''dev'' \<notin> set (fst (main (\<lambda>t. ''2020-01-01 12:00:00'')
       \<lparr>opt_user = ''alice'', opt_dir = ''.'', opt_cache = True, opt_pull = True, opt_rm = False,
        opt_detach = True, opt_env = ''dev'', opt_wait = 5, opt_push = True, opt_run = False,
        opt_build = False, opt_repo_name = ''benjilev08'', opt_port = [], opt_volume = [],
        opt_dockerfile = None, opt_verbose = 0\<rparr>
       \<lparr>e_containers = [], e_build = Inr [], e_run = Inr ''c0ffee'', e_world = (\<lambda>k. []),
        e_tag = Inr False, e_push = Inr []\<rparr>))"
  using tag_failure_prevents_push [of "Inr []" "''benjilev08''" "''alice''" "''dev''" "''alice:dev''"
      "''benjilev08/alice''" "''dev''" "Inr True"
      "\<lparr>opt_user = ''alice'', opt_dir = ''.'', opt_cache = True, opt_pull = True, opt_rm = False,
        opt_detach = True, opt_env = ''dev'', opt_wait = 5, opt_push = True, opt_run = False,
        opt_build = False, opt_repo_name = ''benjilev08'', opt_port = [], opt_volume = [],
        opt_dockerfile = None, opt_verbose = 0\<rparr>"
      "\<lparr>e_containers = [], e_build = Inr [], e_run = Inr ''c0ffee'', e_world = (\<lambda>k. []),
        e_tag = Inr False, e_push = Inr []\<rparr>"
      "\<lambda>t. ''2020-01-01 12:00:00''"]
  by (simp add: push_step_def Let_def)

lemma push_step_wraps:
  "push_result = Inl (APIError m) \<or> push_result = Inr (map Yield pre @ Raise (APIError m) # rest) \<Longrightarrow>
     push_step (Inr True) push_result repo_name user env tag =
       ([ApiTag tag (repo_name @ ''/'' @ user) env, ApiPush (repo_name @ ''/'' @ user) env],
        Some (BuildRunError 103 (''Failed to push '' @ repo_name @ ''/'' @ user @ '':'' @ env)))"
  by (auto simp: push_step_def Let_def push_log_raise)

lemma push_step_never_raw:
  "snd (push_step (Inr tagged) push_result repo_name user env tag) \<noteq> Some (Lib (APIError m))"
  by (simp add: push_step_def Let_def split: sum.splits option.splits lib_error.splits)

text \<open>
  Claim C6. After a successful tag, an \<^verbatim>\<open>APIError\<close> raised by the push call itself or
  while the push stream is read, after any number of lines, leaves the push step as
  \<^verbatim>\<open>BuildRunError(103, 'Failed to push <repo>/<user>:<env>')\<close>. Whatever the push
  stream does, once the tag call has returned the step never ends with a raw
  \<^verbatim>\<open>APIError\<close>.
\<close>

theorem push_api_error_wrapped:
  "(push_result = Inl (APIError m) \<or>
    push_result = Inr (map Yield pre @ Raise (APIError m) # rest) \<longrightarrow>
      push_step (Inr True) push_result repo_name user env tag =
        ([ApiTag tag (repo_name @ ''/'' @ user) env, ApiPush (repo_name @ ''/'' @ user) env],
         Some (BuildRunError 103 (''Failed to push '' @ repo_name @ ''/'' @ user @ '':'' @ env))))
   \<and> snd (push_step (Inr tagged) push_result' repo_name user env tag) \<noteq> Some (Lib (APIError m'))"
  using push_step_wraps [of push_result m pre rest repo_name user env tag]
    push_step_never_raw [of tagged push_result' repo_name user env tag m']
  by blast

theorem push_api_error_wrapped_witness:
  "push_step (Inr True)
     (Inr (map Yield [[''status'' \<mapsto> ''Preparing'', ''progressDetail'' \<mapsto> ''{}'']]
           @ Raise (APIError ''unauthorized'') # []))
     ''benjilev08'' ''alice'' ''dev'' ''alice:dev'' =
       ([ApiTag ''alice:dev'' ''benjilev08/alice'' ''dev'', ApiPush ''benjilev08/alice'' ''dev''],
        Some (BuildRunError 103 ''Failed to push benjilev08/alice:dev''))
   \<and> push_step (Inr True) (Inl (APIError ''no route to registry''))
     ''benjilev08'' ''alice'' ''dev'' ''alice:dev'' =
       ([ApiTag ''alice:dev'' ''benjilev08/alice'' ''dev'', ApiPush ''benjilev08/alice'' ''dev''],
        Some (BuildRunError 103 ''Failed to push benjilev08/alice:dev''))"
  using push_api_error_wrapped [of
      "Inr (map Yield [[''status'' \<mapsto> ''Preparing'', ''progressDetail'' \<mapsto> ''{}'']]
           @ Raise (APIError ''unauthorized'') # [])"
      "''unauthorized''" "[[''status'' \<mapsto> ''Preparing'', ''progressDetail'' \<mapsto> ''{}'']]" "[]"
      "''benjilev08''" "''alice''" "''dev''" "''alice:dev''"]
    push_api_error_wrapped [of "Inl (APIError ''no route to registry'')" "''no route to registry''"
      "[]" "[]" "''benjilev08''" "''alice''" "''dev''" "''alice:dev''"]
  by simp

section \<open>Errors of the tool and errors of the libraries\<close>

lemma digit_char_values:
  "digit_char 0 = CHR ''0''" "digit_char 1 = CHR ''1''" "digit_char 2 = CHR ''2''"
  "digit_char 3 = CHR ''3''" "digit_char 4 = CHR ''4''" "digit_char 5 = CHR ''5''"
  "digit_char 6 = CHR ''6''" "digit_char 7 = CHR ''7''" "digit_char 8 = CHR ''8''"
  "digit_char 9 = CHR ''9''" "digit_char (Suc 0) = CHR ''1''"
  by code_simp+

lemma build_step_errors:
  "snd (build_step build_result user dir cache pull rm env tag dockerfile verbose)
     = Some (BuildRunError code message) \<Longrightarrow> code = 101 \<and> message = ''Build Failed''"
  by (simp add: build_step_def Let_def split: sum.splits option.splits prod.splits if_splits)

lemma run_step_errors:
  "snd (run_step fts d run_result world user name tag port volume detach wait verbose)
     \<noteq> Some (BuildRunError code message)"
  by (simp add: run_step_def Let_def split: sum.splits option.splits prod.splits)

lemma push_step_errors:
  "snd (push_step tag_result push_result repo_name user env tag)
     = Some (BuildRunError code message) \<Longrightarrow>
   code = 102 \<and> message = ''Failed to tag image as '' @ repo_name @ ''/'' @ user @ '':'' @ env
   \<or> code = 103 \<and> message = ''Failed to push '' @ repo_name @ ''/'' @ user @ '':'' @ env"
  by (simp add: push_step_def Let_def split: sum.splits option.splits lib_error.splits if_splits)

lemma and_then_error:
  "snd (and_then a b) = Some x \<Longrightarrow> snd a = Some x \<or> snd b = Some x"
  by (simp add: snd_and_then split: option.splits)

lemma BuildRun_main_errors:
  assumes "snd (BuildRun_main fts opts eng) = Some (BuildRunError code message)"
  shows "code = 101 \<and> message = ''Build Failed''
   \<or> code = 102 \<and> message = ''Failed to tag image as '' @ opt_repo_name opts @ ''/''
                                  @ opt_user opts @ '':'' @ opt_env opts
   \<or> code = 103 \<and> message = ''Failed to push '' @ opt_repo_name opts @ ''/''
                                  @ opt_user opts @ '':'' @ opt_env opts"
proof -
  define b where "b = (if opt_build opts
            then build_step (e_build eng) (opt_user opts) (opt_dir opts) (opt_cache opts)
                   (opt_pull opts) (opt_rm opts) (opt_env opts)
                   (opt_user opts @ '':'' @ opt_env opts) (opt_dockerfile opts) (opt_verbose opts)
            else ([], None))"
  define r where "r = (if opt_run opts
            then run_step fts (e_containers eng) (e_run eng) (e_world eng)
                   (opt_user opts) (opt_user opts @ ''_'' @ opt_env opts)
                   (opt_user opts @ '':'' @ opt_env opts)
                   (opt_port opts) (opt_volume opts) (opt_detach opts) (opt_wait opts)
                   (opt_verbose opts)
            else ([], None))"
  define p where "p = (if opt_push opts
            then push_step (e_tag eng) (e_push eng) (opt_repo_name opts) (opt_user opts)
                   (opt_env opts) (opt_user opts @ '':'' @ opt_env opts)
            else ([], None))"
  have m: "BuildRun_main fts opts eng = and_then b (and_then r p)"
    by (simp add: BuildRun_main_def Let_def b_def r_def p_def)
  from assms m have "snd b = Some (BuildRunError code message)
      \<or> snd (and_then r p) = Some (BuildRunError code message)"
    using and_then_error [of b "and_then r p"] by simp
  then have "snd b = Some (BuildRunError code message)
     \<or> snd r = Some (BuildRunError code message)
     \<or> snd p = Some (BuildRunError code message)"
    using and_then_error [of r p] by blast
  then show ?thesis
  proof (elim disjE)
    assume "snd b = Some (BuildRunError code message)"
    then show ?thesis using build_step_errors by (simp add: b_def split: if_splits)
  next
    assume "snd r = Some (BuildRunError code message)"
    then show ?thesis using run_step_errors by (simp add: r_def split: if_splits)
  next
    assume "snd p = Some (BuildRunError code message)"
    then show ?thesis using push_step_errors by (simp add: p_def split: if_splits)
  qed
qed

text \<open>
  Claim C9. When \<^verbatim>\<open>BuildRun.main\<close> raises a \<^verbatim>\<open>BuildRunError\<close>, the entry point
  prints the line \<^verbatim>\<open>BuildRunError: <code> - <message>\<close> after everything done so far
  and returns normally; the error is then one of the build, tag and push failures, with
  codes 101, 102 and 103. An exception of a library (a daemon error that the tool did not
  wrap) leaves the entry point as it entered it, and a run without exception is unchanged.
\<close>

theorem tool_errors_printed_at_top_level:
  "(BuildRun_main fromtimestamp opts eng = (t, Some (BuildRunError code message)) \<longrightarrow>
      main fromtimestamp opts eng =
        (t @ [Print (''BuildRunError: '' @ str_int code @ '' - '' @ message @ [CHR 0x0A])], None)
      \<and> (code = 101 \<and> message = ''Build Failed''
         \<or> code = 102 \<and> message = ''Failed to tag image as '' @ opt_repo_name opts @ ''/''
                                        @ opt_user opts @ '':'' @ opt_env opts
         \<or> code = 103 \<and> message = ''Failed to push '' @ opt_repo_name opts @ ''/''
                                        @ opt_user opts @ '':'' @ opt_env opts))
   \<and> (BuildRun_main fromtimestamp opts eng = (t, Some (Lib e)) \<longrightarrow>
        main fromtimestamp opts eng = (t, Some (Lib e)))
   \<and> (BuildRun_main fromtimestamp opts eng = (t, None) \<longrightarrow>
        main fromtimestamp opts eng = (t, None))"
proof (intro conjI impI)
  assume a: "BuildRun_main fromtimestamp opts eng = (t, Some (BuildRunError code message))"
  then show "main fromtimestamp opts eng =
        (t @ [Print (''BuildRunError: '' @ str_int code @ '' - '' @ message @ [CHR 0x0A])], None)"
    by (simp add: main_def str_BuildRunError_def)
  from a have "snd (BuildRun_main fromtimestamp opts eng) = Some (BuildRunError code message)"
    by simp
  then show "code = 101 \<and> message = ''Build Failed''
         \<or> code = 102 \<and> message = ''Failed to tag image as '' @ opt_repo_name opts @ ''/''
                                        @ opt_user opts @ '':'' @ opt_env opts
         \<or> code = 103 \<and> message = ''Failed to push '' @ opt_repo_name opts @ ''/''
                                        @ opt_user opts @ '':'' @ opt_env opts"
    by (rule BuildRun_main_errors)
next
  assume "BuildRun_main fromtimestamp opts eng = (t, Some (Lib e))"
  then show "main fromtimestamp opts eng = (t, Some (Lib e))"
    by (simp add: main_def)
next
  assume "BuildRun_main fromtimestamp opts eng = (t, None)"
  then show "main fromtimestamp opts eng = (t, None)"
    by (simp add: main_def)
qed

theorem tool_errors_printed_at_top_level_witness:
  "BuildRun_main (\<lambda>t. ''2020-01-01 12:00:00'')
       \<lparr>opt_user = ''alice'', opt_dir = ''.'', opt_cache = True, opt_pull = True, opt_rm = False,
        opt_detach = True, opt_env = ''dev'', opt_wait = 5, opt_push = False, opt_run = False,
        opt_build = True, opt_repo_name = ''benjilev08'', opt_port = [], opt_volume = [],
        opt_dockerfile = None, opt_verbose = 1\<rparr>
       \<lparr>e_containers = [], e_build = Inr [], e_run = Inr ''c0ffee'',
        e_world = (\<lambda>k. []), e_tag = Inr True, e_push = Inr []\<rparr>
     = ([ApiBuild ''.'' ''alice:dev'' ''Dockerfile.dev'' ''alice'' False True False], Some (BuildRunError 101 ''Build Failed''))
   \<and> main (\<lambda>t. ''2020-01-01 12:00:00'')
       \<lparr>opt_user = ''alice'', opt_dir = ''.'', opt_cache = True, opt_pull = True, opt_rm = False,
        opt_detach = True, opt_env = ''dev'', opt_wait = 5, opt_push = False, opt_run = False,
        opt_build = True, opt_repo_name = ''benjilev08'', opt_port = [], opt_volume = [],
        opt_dockerfile = None, opt_verbose = 1\<rparr>
       \<lparr>e_containers = [], e_build = Inr [], e_run = Inr ''c0ffee'',
        e_world = (\<lambda>k. []), e_tag = Inr True, e_push = Inr []\<rparr>
     = ([ApiBuild ''.'' ''alice:dev'' ''Dockerfile.dev'' ''alice'' False True False,
         Print (''BuildRunError: 101 - Build Failed'' @ [CHR 0x0A])], None)
   \<and> BuildRun_main (\<lambda>t. ''2020-01-01 12:00:00'')
       \<lparr>opt_user = ''alice'', opt_dir = ''.'', opt_cache = True, opt_pull = True, opt_rm = False,
        opt_detach = True, opt_env = ''dev'', opt_wait = 5, opt_push = False, opt_run = True,
        opt_build = False, opt_repo_name = ''benjilev08'', opt_port = [], opt_volume = [],
        opt_dockerfile = None, opt_verbose = 0\<rparr>
       \<lparr>e_containers = [], e_build = Inr [], e_run = Inl (APIError ''No such image: alice:dev''),
        e_world = (\<lambda>k. []), e_tag = Inr True, e_push = Inr []\<rparr>
     = ([ApiContainers True ''alice_dev'', ApiRun ''alice:dev'' ''alice_dev'' ''alice'' [] [] True], Some (Lib (APIError ''No such image: alice:dev'')))
   \<and> main (\<lambda>t. ''2020-01-01 12:00:00'')
       \<lparr>opt_user = ''alice'', opt_dir = ''.'', opt_cache = True, opt_pull = True, opt_rm = False,
        opt_detach = True, opt_env = ''dev'', opt_wait = 5, opt_push = False, opt_run = True,
        opt_build = False, opt_repo_name = ''benjilev08'', opt_port = [], opt_volume = [],
        opt_dockerfile = None, opt_verbose = 0\<rparr>
       \<lparr>e_containers = [], e_build = Inr [], e_run = Inl (APIError ''No such image: alice:dev''),
        e_world = (\<lambda>k. []), e_tag = Inr True, e_push = Inr []\<rparr>
     = ([ApiContainers True ''alice_dev'', ApiRun ''alice:dev'' ''alice_dev'' ''alice'' [] [] True], Some (Lib (APIError ''No such image: alice:dev'')))
   \<and> BuildRun_main (\<lambda>t. ''2020-01-01 12:00:00'')
       \<lparr>opt_user = ''alice'', opt_dir = ''.'', opt_cache = True, opt_pull = True, opt_rm = False,
        opt_detach = True, opt_env = ''dev'', opt_wait = 5, opt_push = False, opt_run = False,
        opt_build = False, opt_repo_name = ''benjilev08'', opt_port = [], opt_volume = [],
        opt_dockerfile = None, opt_verbose = 0\<rparr>
       \<lparr>e_containers = [], e_build = Inr [], e_run = Inr ''c0ffee'',
        e_world = (\<lambda>k. []), e_tag = Inr True, e_push = Inr []\<rparr>
     = ([], None)
   \<and> main (\<lambda>t. ''2020-01-01 12:00:00'')
       \<lparr>opt_user = ''alice'', opt_dir = ''.'', opt_cache = True, opt_pull = True, opt_rm = False,
        opt_detach = True, opt_env = ''dev'', opt_wait = 5, opt_push = False, opt_run = False,
        opt_build = False, opt_repo_name = ''benjilev08'', opt_port = [], opt_volume = [],
        opt_dockerfile = None, opt_verbose = 0\<rparr>
       \<lparr>e_containers = [], e_build = Inr [], e_run = Inr ''c0ffee'',
        e_world = (\<lambda>k. []), e_tag = Inr True, e_push = Inr []\<rparr>
     = ([], None)"
proof -
  have h1: "BuildRun_main (\<lambda>t. ''2020-01-01 12:00:00'')
       \<lparr>opt_user = ''alice'', opt_dir = ''.'', opt_cache = True, opt_pull = True, opt_rm = False,
        opt_detach = True, opt_env = ''dev'', opt_wait = 5, opt_push = False, opt_run = False,
        opt_build = True, opt_repo_name = ''benjilev08'', opt_port = [], opt_volume = [],
        opt_dockerfile = None, opt_verbose = 1\<rparr>
       \<lparr>e_containers = [], e_build = Inr [], e_run = Inr ''c0ffee'',
        e_world = (\<lambda>k. []), e_tag = Inr True, e_push = Inr []\<rparr>
     = ([ApiBuild ''.'' ''alice:dev'' ''Dockerfile.dev'' ''alice'' False True False], Some (BuildRunError 101 ''Build Failed''))"
    by (simp add: BuildRun_main_def build_step_def and_then_def Let_def)
  have h2: "BuildRun_main (\<lambda>t. ''2020-01-01 12:00:00'')
       \<lparr>opt_user = ''alice'', opt_dir = ''.'', opt_cache = True, opt_pull = True, opt_rm = False,
        opt_detach = True, opt_env = ''dev'', opt_wait = 5, opt_push = False, opt_run = True,
        opt_build = False, opt_repo_name = ''benjilev08'', opt_port = [], opt_volume = [],
        opt_dockerfile = None, opt_verbose = 0\<rparr>
       \<lparr>e_containers = [], e_build = Inr [], e_run = Inl (APIError ''No such image: alice:dev''),
        e_world = (\<lambda>k. []), e_tag = Inr True, e_push = Inr []\<rparr>
     = ([ApiContainers True ''alice_dev'', ApiRun ''alice:dev'' ''alice_dev'' ''alice'' [] [] True], Some (Lib (APIError ''No such image: alice:dev'')))"
    by (simp add: BuildRun_main_def run_step_def reconcile_def api_containers_def
          and_then_def Let_def)
  have h3: "BuildRun_main (\<lambda>t. ''2020-01-01 12:00:00'')
       \<lparr>opt_user = ''alice'', opt_dir = ''.'', opt_cache = True, opt_pull = True, opt_rm = False,
        opt_detach = True, opt_env = ''dev'', opt_wait = 5, opt_push = False, opt_run = False,
        opt_build = False, opt_repo_name = ''benjilev08'', opt_port = [], opt_volume = [],
        opt_dockerfile = None, opt_verbose = 0\<rparr>
       \<lparr>e_containers = [], e_build = Inr [], e_run = Inr ''c0ffee'',
        e_world = (\<lambda>k. []), e_tag = Inr True, e_push = Inr []\<rparr>
     = ([], None)"
    by (simp add: BuildRun_main_def and_then_def Let_def)
  have n: "str_int 101 = ''101''"
    by (simp add: str_int_def str_nat.simps digit_char_values)
  from h1 h2 h3 n
    tool_errors_printed_at_top_level [of "(\<lambda>t. ''2020-01-01 12:00:00'')"
       "\<lparr>opt_user = ''alice'', opt_dir = ''.'', opt_cache = True, opt_pull = True, opt_rm = False,
        opt_detach = True, opt_env = ''dev'', opt_wait = 5, opt_push = False, opt_run = False,
        opt_build = True, opt_repo_name = ''benjilev08'', opt_port = [], opt_volume = [],
        opt_dockerfile = None, opt_verbose = 1\<rparr>"
       "\<lparr>e_containers = [], e_build = Inr [], e_run = Inr ''c0ffee'',
        e_world = (\<lambda>k. []), e_tag = Inr True, e_push = Inr []\<rparr>"
       "[ApiBuild ''.'' ''alice:dev'' ''Dockerfile.dev'' ''alice'' False True False]" 101 "''Build Failed''"]
    tool_errors_printed_at_top_level [of "(\<lambda>t. ''2020-01-01 12:00:00'')"
       "\<lparr>opt_user = ''alice'', opt_dir = ''.'', opt_cache = True, opt_pull = True, opt_rm = False,
        opt_detach = True, opt_env = ''dev'', opt_wait = 5, opt_push = False, opt_run = True,
        opt_build = False, opt_repo_name = ''benjilev08'', opt_port = [], opt_volume = [],
        opt_dockerfile = None, opt_verbose = 0\<rparr>"
       "\<lparr>e_containers = [], e_build = Inr [], e_run = Inl (APIError ''No such image: alice:dev''),
        e_world = (\<lambda>k. []), e_tag = Inr True, e_push = Inr []\<rparr>"
       "[ApiContainers True ''alice_dev'', ApiRun ''alice:dev'' ''alice_dev'' ''alice'' [] [] True]" _ _ "APIError ''No such image: alice:dev''"]
    tool_errors_printed_at_top_level [of "(\<lambda>t. ''2020-01-01 12:00:00'')"
       "\<lparr>opt_user = ''alice'', opt_dir = ''.'', opt_cache = True, opt_pull = True, opt_rm = False,
        opt_detach = True, opt_env = ''dev'', opt_wait = 5, opt_push = False, opt_run = False,
        opt_build = False, opt_repo_name = ''benjilev08'', opt_port = [], opt_volume = [],
        opt_dockerfile = None, opt_verbose = 0\<rparr>"
       "\<lparr>e_containers = [], e_build = Inr [], e_run = Inr ''c0ffee'',
        e_world = (\<lambda>k. []), e_tag = Inr True, e_push = Inr []\<rparr>"
       "[]"]
  show ?thesis by simp
qed

section \<open>The build step and the success marker\<close>

lemma in_str_iff: "in_str p s \<longleftrightarrow> (\<exists>a b. s = a @ p @ b)"
proof (induction s)
  case Nil
  show ?case by auto
next
  case (Cons c cs)
  have "take (length p) (c # cs) = p \<longleftrightarrow> (\<exists>b. c # cs = p @ b)"
    by (metis append_eq_conv_conj append_take_drop_id)
  moreover have "(\<exists>a b. c # cs = a @ p @ b)
      \<longleftrightarrow> (\<exists>b. c # cs = p @ b) \<or> (\<exists>a b. cs = a @ p @ b)"
  proof
    assume "\<exists>a b. c # cs = a @ p @ b"
    then obtain a b where ab: "c # cs = a @ p @ b" by blast
    show "(\<exists>b. c # cs = p @ b) \<or> (\<exists>a b. cs = a @ p @ b)"
    proof (cases a)
      case Nil
      with ab show ?thesis by auto
    next
      case (Cons x a')
      with ab have "cs = a' @ p @ b" by simp
      then show ?thesis by blast
    qed
  next
    assume "(\<exists>b. c # cs = p @ b) \<or> (\<exists>a b. cs = a @ p @ b)"
    then show "\<exists>a b. c # cs = a @ p @ b"
    proof
      assume "\<exists>b. c # cs = p @ b"
      then obtain b where "c # cs = [] @ p @ b" by auto
      then show ?thesis by blast
    next
      assume "\<exists>a b. cs = a @ p @ b"
      then obtain a b where "c # cs = (c # a) @ p @ b" by auto
      then show ?thesis by blast
    qed
  qed
  ultimately show ?case using Cons.IH by simp
qed

lemma build_log_marker:
  "build_log (map Yield events) found =
     (found \<or> (\<exists>i \<in> set events. \<exists>s. i ''stream'' = Some s \<and> in_str ''Successfully built'' s),
      None)"
  by (induction events arbitrary: found) (auto split: option.splits)

lemma build_step_verbose:
  "1 \<le> verbose \<Longrightarrow>
     (snd (build_step (Inr (map Yield events)) user dir cache pull rm env tag dockerfile verbose)
        = Some (BuildRunError 101 ''Build Failed''))
     \<longleftrightarrow> \<not> (\<exists>i \<in> set events. \<exists>s. i ''stream'' = Some s \<and> in_str ''Successfully built'' s)"
  by (simp add: build_step_def Let_def build_log_marker)

lemma build_step_quiet:
  "snd (build_step (Inr events) user dir cache pull rm env tag dockerfile 0)
     = Some (BuildRunError 101 ''Build Failed'')"
  by (simp add: build_step_def Let_def)

text \<open>
  Claim C1, at the default verbosity 0. The build stream holds the line
  \<^verbatim>\<open>Successfully built 0123456789ab\<close>, and the program still ends with
  \<^verbatim>\<open>BuildRunError: 101 - Build Failed\<close>: the loop that looks for the marker is inside
  \<^verbatim>\<open>if verbose >= 1\<close> (line 49), while the flag it sets is tested outside (line 57).
  With \<^verbatim>\<open>verbose >= 1\<close> the step behaves as the claim says, see
  \<open>build_step_verbose\<close>.
\<close>

theorem build_fails_at_default_verbosity:
  "main (\<lambda>t. ''2020-01-01 12:00:00'')
       \<lparr>opt_user = ''alice'', opt_dir = ''.'', opt_cache = True, opt_pull = True, opt_rm = False,
        opt_detach = True, opt_env = ''dev'', opt_wait = 5, opt_push = False, opt_run = False,
        opt_build = True, opt_repo_name = ''benjilev08'', opt_port = [], opt_volume = [],
        opt_dockerfile = None, opt_verbose = 0\<rparr>
       \<lparr>e_containers = [],
        e_build = Inr [Yield [''stream'' \<mapsto> ''Step 1/1 : FROM alpine''],
                       Yield [''stream'' \<mapsto> ''Successfully built 0123456789ab'']],
        e_run = Inr ''c0ffee'', e_world = (\<lambda>k. []), e_tag = Inr True, e_push = Inr []\<rparr>
     = ([ApiBuild ''.'' ''alice:dev'' ''Dockerfile.dev'' ''alice'' False True False,
         Print (''BuildRunError: 101 - Build Failed'' @ [CHR 0x0A])], None)
   \<and> in_str ''Successfully built'' ''Successfully built 0123456789ab''"
  by (simp add: main_def BuildRun_main_def build_step_def and_then_def Let_def
        str_BuildRunError_def str_int_def str_nat.simps digit_char_values)

section \<open>The liveness loop\<close>

lemma rounds_Suc:
  "concat (map (\<lambda>i. [ApiContainers False name, Print (msg_running (wait - int i)), Sleep 1])
             [0..<Suc n]) =
   [ApiContainers False name, Print (msg_running wait), Sleep 1]
     @ concat (map (\<lambda>i. [ApiContainers False name, Print (msg_running (wait - 1 - int i)), Sleep 1])
                 [0..<n])"
proof -
  have "[0..<Suc n] = 0 # map Suc [0..<n]"
    by (simp add: upt_conv_Cons map_Suc_upt del: upt_Suc)
  then show ?thesis
    by (simp add: comp_def algebra_simps del: upt_Suc)
qed

lemma wait_loop_dies:
  "0 \<le> wait \<Longrightarrow> j \<le> nat wait \<Longrightarrow>
   (\<forall>i<j. api_containers False name (world (k + i)) \<noteq> []) \<Longrightarrow>
   api_containers False name (world (k + j)) = [] \<Longrightarrow>
   wait_loop world name wait k =
     (False,
      concat (map (\<lambda>i. [ApiContainers False name, Print (msg_running (wait - int i)), Sleep 1])
                [0..<j])
        @ [ApiContainers False name, Print (msg_died (wait - int j))])"
proof (induction j arbitrary: wait k)
  case 0
  then show ?case by (simp add: wait_loop_died)
next
  case (Suc j)
  from Suc.prems have l: "api_containers False name (world k) \<noteq> []" by force
  have w: "0 \<le> wait - 1" and j: "j \<le> nat (wait - 1)" using Suc.prems by auto
  have a: "\<forall>i<j. api_containers False name (world (Suc k + i)) \<noteq> []"
    using Suc.prems(3) by auto
  have b: "api_containers False name (world (Suc k + j)) = []"
    using Suc.prems(4) by simp
  have d: "wait - 1 - int j = wait - int (Suc j)" by simp
  have e: "wait_loop world name wait k =
       (fst (wait_loop world name (wait - 1) (Suc k)),
        [ApiContainers False name, Print (msg_running wait), Sleep 1]
          @ snd (wait_loop world name (wait - 1) (Suc k)))"
    using Suc.prems(1) l by (rule wait_loop_listed)
  show ?case
    using Suc.IH [OF w j a b]
    by (simp only: e rounds_Suc d fst_conv snd_conv append_assoc)
qed

lemma wait_loop_stays:
  "0 \<le> wait \<Longrightarrow> n = nat wait \<Longrightarrow>
   (\<forall>i\<le>n. api_containers False name (world (k + i)) \<noteq> []) \<Longrightarrow>
   wait_loop world name wait k =
     (True,
      concat (map (\<lambda>i. [ApiContainers False name, Print (msg_running (wait - int i)), Sleep 1])
                [0..<Suc n]))"
proof (induction n arbitrary: wait k)
  case 0
  then have l: "api_containers False name (world k) \<noteq> []" and w: "wait = 0" by auto
  have "wait_loop world name (- 1) (Suc k) = (True, [])" by (simp add: wait_loop_over)
  with l w show ?case by (simp add: wait_loop_listed)
next
  case (Suc n)
  from Suc.prems have l: "api_containers False name (world k) \<noteq> []" by force
  have w: "0 \<le> wait - 1" and n: "n = nat (wait - 1)" using Suc.prems by auto
  have a: "\<forall>i\<le>n. api_containers False name (world (Suc k + i)) \<noteq> []"
    using Suc.prems(3) by auto
  have e: "wait_loop world name wait k =
       (fst (wait_loop world name (wait - 1) (Suc k)),
        [ApiContainers False name, Print (msg_running wait), Sleep 1]
          @ snd (wait_loop world name (wait - 1) (Suc k)))"
    using Suc.prems(1) l by (rule wait_loop_listed)
  show ?case
    using Suc.IH [OF w n a]
    by (simp only: e rounds_Suc [of name wait "Suc n"] fst_conv snd_conv)
qed

lemma run_step_started:
  "detach \<Longrightarrow> dict_of port [] = Inr ports \<Longrightarrow> dict_of volume [] = Inr volumes \<Longrightarrow>
   run_step fts d (Inr container) world user name tag port volume detach wait verbose =
     (snd (reconcile fts name d) @ [ApiRun tag name user ports volumes detach]
        @ (if 1 \<le> verbose
           then snd (wait_loop world name wait 0)
                  @ (if fst (wait_loop world name wait 0) then [Print msg_success] else [])
           else []),
      None)"
  by (simp add: run_step_def Let_def case_prod_beta)

lemma run_step_not_detached:
  "\<not> detach \<Longrightarrow> 1 \<le> verbose \<Longrightarrow>
   dict_of port [] = Inr ports \<Longrightarrow> dict_of volume [] = Inr volumes \<Longrightarrow>
   run_step fts d (Inr output) world user name tag port volume detach wait verbose =
     (snd (reconcile fts name d) @ [ApiRun tag name user ports volumes detach],
      Some (Lib AttributeError))"
  by (simp add: run_step_def Let_def)

lemma run_step_quiet:
  "dict_of port [] = Inr ports \<Longrightarrow> dict_of volume [] = Inr volumes \<Longrightarrow>
   run_step fts d (Inr answer) world user name tag port volume detach wait 0 =
     (snd (reconcile fts name d) @ [ApiRun tag name user ports volumes detach], None)"
  by (simp add: run_step_def Let_def)

text \<open>
  Where the liveness loop is reached, it does what is expected of it. That is under
  \<^verbatim>\<open>verbose >= 1\<close>, since the loop belongs to the block of lines 103-122, and for a
  detached container, since line 104 raises otherwise. With a wait window
  \<^verbatim>\<open>wait >= 0\<close> the program then asks the daemon for the running containers listed for
  the canonical name, one poll after the other, each poll that lists one being followed by
  \<^verbatim>\<open>sleep(1)\<close>. If one is listed at each of the \<^verbatim>\<open>wait + 1\<close> polls (the countdown
  runs from \<^verbatim>\<open>wait\<close> down to 0), these polls are all it does and it ends with
  \<^verbatim>\<open>Success!\<close>. If poll \<^verbatim>\<open>j\<close> is the first that lists none, the program prints
  \<^verbatim>\<open>Died\<close> right after that poll and stops: it has polled \<^verbatim>\<open>j + 1\<close> times and
  nothing follows.
\<close>

lemma liveness_poll:
  assumes "1 \<le> verbose"
    and "dict_of port [] = Inr ports"
    and "dict_of volume [] = Inr volumes"
    and "run_result = Inr container"
    and "0 \<le> wait"
    and "detach"
  shows "((\<forall>i\<le>nat wait. api_containers False name (world i) \<noteq> []) \<longrightarrow>
           run_step fromtimestamp d run_result world user name tag port volume detach wait verbose =
             (snd (reconcile fromtimestamp name d) @ [ApiRun tag name user ports volumes detach]
                @ concat (map (\<lambda>i. [ApiContainers False name,
                                       Print (msg_running (wait - int i)), Sleep 1])
                            [0..<Suc (nat wait)])
                @ [Print msg_success],
              None))
       \<and> (j \<le> nat wait \<and> (\<forall>i<j. api_containers False name (world i) \<noteq> [])
            \<and> api_containers False name (world j) = [] \<longrightarrow>
           run_step fromtimestamp d run_result world user name tag port volume detach wait verbose =
             (snd (reconcile fromtimestamp name d) @ [ApiRun tag name user ports volumes detach]
                @ concat (map (\<lambda>i. [ApiContainers False name,
                                       Print (msg_running (wait - int i)), Sleep 1])
                            [0..<j])
                @ [ApiContainers False name, Print (msg_died (wait - int j))],
              None))"
proof (intro conjI impI)
  assume "\<forall>i\<le>nat wait. api_containers False name (world i) \<noteq> []"
  then have "wait_loop world name wait 0 =
     (True,
      concat (map (\<lambda>i. [ApiContainers False name, Print (msg_running (wait - int i)), Sleep 1])
                [0..<Suc (nat wait)]))"
    using wait_loop_stays [of wait "nat wait" name world 0] assms(5) by simp
  then show "run_step fromtimestamp d run_result world user name tag port volume detach wait verbose =
             (snd (reconcile fromtimestamp name d) @ [ApiRun tag name user ports volumes detach]
                @ concat (map (\<lambda>i. [ApiContainers False name,
                                       Print (msg_running (wait - int i)), Sleep 1])
                            [0..<Suc (nat wait)])
                @ [Print msg_success],
              None)"
    using assms(1,4) by (simp add: run_step_started [OF assms(6,2,3)] del: upt_Suc)
next
  assume "j \<le> nat wait \<and> (\<forall>i<j. api_containers False name (world i) \<noteq> [])
            \<and> api_containers False name (world j) = []"
  then have "wait_loop world name wait 0 =
     (False,
      concat (map (\<lambda>i. [ApiContainers False name, Print (msg_running (wait - int i)), Sleep 1])
                [0..<j])
        @ [ApiContainers False name, Print (msg_died (wait - int j))])"
    using wait_loop_dies [of wait j name world 0] assms(5) by simp
  then show "run_step fromtimestamp d run_result world user name tag port volume detach wait verbose =
             (snd (reconcile fromtimestamp name d) @ [ApiRun tag name user ports volumes detach]
                @ concat (map (\<lambda>i. [ApiContainers False name,
                                       Print (msg_running (wait - int i)), Sleep 1])
                            [0..<j])
                @ [ApiContainers False name, Print (msg_died (wait - int j))],
              None)"
    using assms(1,4) by (simp add: run_step_started [OF assms(6,2,3)] del: upt_Suc)
qed

lemma str_int_small:
  "str_int 0 = ''0''" "str_int 1 = ''1''" "str_int 2 = ''2''" "str_int 3 = ''3''"
  "str_int 4 = ''4''" "str_int 5 = ''5''"
  by (simp_all add: str_int_def str_nat.simps digit_char_values)

lemma liveness_poll_example:
  "(1::nat) \<le> 1
   \<and> dict_of [''80/tcp:8080''] [] = Inr [(''80/tcp'', ''8080'')]
   \<and> dict_of [] [] = Inr []
   \<and> (0::int) \<le> 2
   \<and> api_containers False ''alice_dev'' ((\<lambda>k::nat. [\<lparr>c_Id = ''c0ffee'', c_Name = ''alice_dev'', c_State = ''running'', c_Created = 1577880000\<rparr>]) 0) \<noteq> []
   \<and> api_containers False ''alice_dev'' ((\<lambda>k::nat. [\<lparr>c_Id = ''c0ffee'', c_Name = ''alice_dev'', c_State = ''running'', c_Created = 1577880000\<rparr>]) 1) \<noteq> []
   \<and> api_containers False ''alice_dev'' ((\<lambda>k::nat. [\<lparr>c_Id = ''c0ffee'', c_Name = ''alice_dev'', c_State = ''running'', c_Created = 1577880000\<rparr>]) 2) \<noteq> []
   \<and> run_step (\<lambda>t. ''2020-01-01 12:00:00'') [] (Inr ''c0ffee'')
         (\<lambda>k::nat. [\<lparr>c_Id = ''c0ffee'', c_Name = ''alice_dev'', c_State = ''running'', c_Created = 1577880000\<rparr>])
         ''alice'' ''alice_dev'' ''alice:dev'' [''80/tcp:8080''] [] True 2 1 =
       ([ApiContainers True ''alice_dev'', ApiRun ''alice:dev'' ''alice_dev'' ''alice'' [(''80/tcp'', ''8080'')] [] True,
         ApiContainers False ''alice_dev'', Print ([CHR 0x0D, CHR 0x09] @ ''2: Running''), Sleep 1,
         ApiContainers False ''alice_dev'', Print ([CHR 0x0D, CHR 0x09] @ ''1: Running''), Sleep 1,
         ApiContainers False ''alice_dev'', Print ([CHR 0x0D, CHR 0x09] @ ''0: Running''), Sleep 1,
         Print ([CHR 0x0D, CHR 0x09] @ ''Success!     '' @ [CHR 0x0A])], None)
   \<and> (1::nat) \<le> nat 2
   \<and> api_containers False ''alice_dev''
          ((\<lambda>k::nat. if k < 1 then [\<lparr>c_Id = ''c0ffee'', c_Name = ''alice_dev'', c_State = ''running'', c_Created = 1577880000\<rparr>] else []) 0) \<noteq> []
   \<and> api_containers False ''alice_dev''
          ((\<lambda>k::nat. if k < 1 then [\<lparr>c_Id = ''c0ffee'', c_Name = ''alice_dev'', c_State = ''running'', c_Created = 1577880000\<rparr>] else []) 1) = []
   \<and> run_step (\<lambda>t. ''2020-01-01 12:00:00'') [] (Inr ''c0ffee'')
         (\<lambda>k::nat. if k < 1 then [\<lparr>c_Id = ''c0ffee'', c_Name = ''alice_dev'', c_State = ''running'', c_Created = 1577880000\<rparr>] else [])
         ''alice'' ''alice_dev'' ''alice:dev'' [''80/tcp:8080''] [] True 2 1 =
       ([ApiContainers True ''alice_dev'', ApiRun ''alice:dev'' ''alice_dev'' ''alice'' [(''80/tcp'', ''8080'')] [] True,
         ApiContainers False ''alice_dev'', Print ([CHR 0x0D, CHR 0x09] @ ''2: Running''), Sleep 1,
         ApiContainers False ''alice_dev'',
         Print ([CHR 0x0D, CHR 0x09] @ ''1: Died    '' @ [CHR 0x0A])], None)"
proof -
  have p: "dict_of [''80/tcp:8080''] [] = Inr [(''80/tcp'', ''8080'')]"
    by (simp add: key_value_def)
  have v: "dict_of [] [] = Inr []" by simp
  have r: "snd (reconcile (\<lambda>t. ''2020-01-01 12:00:00'') ''alice_dev'' []) = [ApiContainers True ''alice_dev'']"
    by (simp add: reconcile_def api_containers_def)
  have u: "[0..<3] = [0, 1, 2]" "[0..<Suc 0] = [0]"
    by (simp_all add: upt_rec)
  have a: "\<forall>i\<le>nat 2. api_containers False ''alice_dev'' ((\<lambda>k::nat. [\<lparr>c_Id = ''c0ffee'', c_Name = ''alice_dev'', c_State = ''running'', c_Created = 1577880000\<rparr>]) i) \<noteq> []"
    by (simp add: api_containers_def)
  have b: "\<forall>i<1. api_containers False ''alice_dev''
          ((\<lambda>k::nat. if k < 1 then [\<lparr>c_Id = ''c0ffee'', c_Name = ''alice_dev'', c_State = ''running'', c_Created = 1577880000\<rparr>] else []) i) \<noteq> []"
    by (simp add: api_containers_def)
  have c: "api_containers False ''alice_dev''
          ((\<lambda>k::nat. if k < 1 then [\<lparr>c_Id = ''c0ffee'', c_Name = ''alice_dev'', c_State = ''running'', c_Created = 1577880000\<rparr>] else []) 1) = []"
    by (simp add: api_containers_def)
  show ?thesis
    using liveness_poll [of 1 "[''80/tcp:8080'']" "[(''80/tcp'', ''8080'')]" "[]" "[]"
        "Inr ''c0ffee''" "''c0ffee''" 2 True "''alice_dev''"
        "\<lambda>k::nat. [\<lparr>c_Id = ''c0ffee'', c_Name = ''alice_dev'', c_State = ''running'', c_Created = 1577880000\<rparr>]" "(\<lambda>t. ''2020-01-01 12:00:00'')" "[]" "''alice''" "''alice:dev''" 0, OF _ p v]
      liveness_poll [of 1 "[''80/tcp:8080'']" "[(''80/tcp'', ''8080'')]" "[]" "[]"
        "Inr ''c0ffee''" "''c0ffee''" 2 True "''alice_dev''"
        "\<lambda>k::nat. if k < 1 then [\<lparr>c_Id = ''c0ffee'', c_Name = ''alice_dev'', c_State = ''running'', c_Created = 1577880000\<rparr>] else []" "(\<lambda>t. ''2020-01-01 12:00:00'')" "[]" "''alice''" "''alice:dev''" 1,
        OF _ p v]
      p a b c
    by (simp add: r u api_containers_def msg_running_def msg_died_def msg_success_def str_int_small del: upt_Suc)
qed

text \<open>
  Claim C2, at the default verbosity 0 and at \<^verbatim>\<open>--no-detach\<close>. With a wait window of
  5 seconds and a container that stays listed, the program at verbosity 0 starts the
  container and then neither polls nor reports an outcome: the loop is inside
  \<^verbatim>\<open>if verbose >= 1\<close> (line 103), although \<^verbatim>\<open>--wait\<close> is documented as the
  seconds to wait after starting the container to check that it stays up (line 146), with
  no word of verbosity. At verbosity 1 with \<^verbatim>\<open>--no-detach\<close> the program does not poll
  either: line 104 raises \<^verbatim>\<open>AttributeError\<close>. For a detached container under
  \<^verbatim>\<open>verbose >= 1\<close> the loop does what the claim says, see \<open>liveness_poll\<close>.
\<close>

theorem no_poll_at_default_verbosity:
  "run_step (\<lambda>t. ''2020-01-01 12:00:00'') [] (Inr ''c0ffee'')
         (\<lambda>k. [\<lparr>c_Id = ''c0ffee'', c_Name = ''alice_dev'', c_State = ''running'',
            c_Created = 1577880000\<rparr>])
         ''alice'' ''alice_dev'' ''alice:dev'' [''80/tcp:8080''] [] True 5 0 =
       ([ApiContainers True ''alice_dev'',
         ApiRun ''alice:dev'' ''alice_dev'' ''alice'' [(''80/tcp'', ''8080'')] [] True], None)
   \<and> run_step (\<lambda>t. ''2020-01-01 12:00:00'') [] (Inr ''hello'')
         (\<lambda>k. [\<lparr>c_Id = ''c0ffee'', c_Name = ''alice_dev'', c_State = ''running'',
            c_Created = 1577880000\<rparr>])
         ''alice'' ''alice_dev'' ''alice:dev'' [''80/tcp:8080''] [] False 5 1 =
       ([ApiContainers True ''alice_dev'',
         ApiRun ''alice:dev'' ''alice_dev'' ''alice'' [(''80/tcp'', ''8080'')] [] False],
        Some (Lib AttributeError))"
  by (simp add: run_step_def key_value_def reconcile_def api_containers_def Let_def)

section \<open>What stopping and renaming leave alone\<close>

lemma names_api_stop: "map c_Name (api_stop i d) = map c_Name d"
  by (simp add: api_stop_def)

lemma ids_api_stop: "map c_Id (api_stop i d) = map c_Id d"
  by (simp add: api_stop_def)

lemma ids_api_rename: "map c_Id (api_rename i nm d) = map c_Id d"
  by (simp add: api_rename_def)

lemma created_api_stop: "map c_Created (api_stop i d) = map c_Created d"
  by (simp add: api_stop_def)

lemma created_api_rename: "map c_Created (api_rename i nm d) = map c_Created d"
  by (simp add: api_rename_def)

lemma listed_api_stop:
  "api_containers True nm (api_stop i d) = [] \<longleftrightarrow> api_containers True nm d = []"
  by (simp only: listing_empty names_api_stop)

lemma after_append: "after (t1 @ t2) d = after t2 (after t1 d)"
  by (simp add: after_def)

lemma after_queries: "after (map (ApiContainers all) ns) d = d"
  by (induction ns) (simp_all add: after_def)

section \<open>The name the loop settles on\<close>

lemma rename_loop_is_free:
  "api_containers True (fst (rename_loop d fts name created rename count)) d = []"
proof (induction d fts name created rename count rule: rename_loop.induct)
  case (1 d fts name created rename count)
  show ?case
  proof (cases "api_containers True rename d \<noteq> []")
    case True
    with 1 show ?thesis by (simp add: rename_loop_taken)
  next
    case False
    then show ?thesis by (simp add: rename_loop_free)
  qed
qed

lemma length_candidate: "length name < length (candidate fts name created)"
  by (simp add: candidate_def length_replace)

lemma length_candidate_n: "length name < length (candidate_n fts name created n)"
  by (simp add: candidate_n_def length_replace)

lemma rename_loop_longer:
  "length name < length rename \<Longrightarrow>
     length name < length (fst (rename_loop d fts name created rename count))"
proof (induction d fts name created rename count rule: rename_loop.induct)
  case (1 d fts name created rename count)
  show ?case
  proof (cases "api_containers True rename d \<noteq> []")
    case True
    with 1(1) [OF True length_candidate_n] show ?thesis by (simp add: rename_loop_taken)
  next
    case False
    with 1(2) show ?thesis by (simp add: rename_loop_free)
  qed
qed

lemma rename_loop_least:
  "api_containers True rename d \<noteq> [] \<Longrightarrow> count \<le> m \<Longrightarrow>
   (\<forall>k. count \<le> k \<and> k < m \<longrightarrow> api_containers True (candidate_n fts name created k) d \<noteq> []) \<Longrightarrow>
   api_containers True (candidate_n fts name created m) d = [] \<Longrightarrow>
   fst (rename_loop d fts name created rename count) = candidate_n fts name created m"
proof (induction "m - count" arbitrary: rename count)
  case 0
  then have "count = m" by simp
  with 0 show ?case by (simp add: rename_loop_taken rename_loop_free)
next
  case (Suc x)
  then have lt: "count < m" by simp
  with Suc.prems(3) have l: "api_containers True (candidate_n fts name created count) d \<noteq> []"
    by simp
  have x: "x = m - Suc count" using Suc.hyps(2) by simp
  have le: "Suc count \<le> m" using lt by simp
  have a: "\<forall>k. Suc count \<le> k \<and> k < m \<longrightarrow>
             api_containers True (candidate_n fts name created k) d \<noteq> []"
    using Suc.prems(3) by simp
  from Suc.hyps(1) [OF x l le a Suc.prems(4)] Suc.prems(1)
  show ?case by (simp add: rename_loop_taken)
qed

lemma some_candidate_free:
  "\<exists>m\<ge>count. api_containers True (candidate_n fts name created m) d = []"
proof (rule ccontr)
  assume "\<not> (\<exists>m\<ge>count. api_containers True (candidate_n fts name created m) d = [])"
  then have "{n. count \<le> n \<and> api_containers True (candidate_n fts name created n) d \<noteq> []}
      = {n. count \<le> n}"
    by auto
  with finite_taken [of count fts name created d] have "finite {n. count \<le> n}" by simp
  then obtain b where b: "\<forall>n\<in>{n. count \<le> n}. n \<le> b"
    using finite_nat_set_iff_bounded_le by blast
  have "count \<le> Suc (max count b)" by simp
  with b have "Suc (max count b) \<le> b" by blast
  then show False by simp
qed

lemma rename_loop_pick:
  "fst (rename_loop d fts name created (candidate fts name created) 1) =
     (if api_containers True (candidate fts name created) d = []
      then candidate fts name created
      else candidate_n fts name created
             (LEAST n. 1 \<le> n \<and> api_containers True (candidate_n fts name created n) d = []))"
proof (cases "api_containers True (candidate fts name created) d = []")
  case True
  then show ?thesis by (simp add: rename_loop_free)
next
  case False
  let ?P = "\<lambda>n. 1 \<le> n \<and> api_containers True (candidate_n fts name created n) d = []"
  from some_candidate_free [of 1 fts name created d] have ex: "\<exists>n. ?P n" by blast
  have l: "?P (Least ?P)" using ex by (rule LeastI_ex)
  have b: "\<forall>k. 1 \<le> k \<and> k < Least ?P \<longrightarrow>
             api_containers True (candidate_n fts name created k) d \<noteq> []"
    using not_less_Least [of _ ?P] by blast
  have l1: "1 \<le> Least ?P"
    and l2: "api_containers True (candidate_n fts name created (Least ?P)) d = []"
    using l by blast+
  have "fst (rename_loop d fts name created (candidate fts name created) 1)
          = candidate_n fts name created (Least ?P)"
    using False l1 b l2 by (rule rename_loop_least)
  then show ?thesis using False by (simp only: if_False)
qed

lemma rename_requests_queries [simp]:
  "[(i, n). ApiRename i n \<leftarrow> map (ApiContainers all) ns] = []"
  by (induction ns) simp_all

lemma stop_requests_queries [simp]:
  "[i. ApiStop i \<leftarrow> map (ApiContainers all) ns] = []"
  by (induction ns) simp_all

lemma reconcile_one_shape:
  "\<exists>ns. reconcile_one fts name c d =
     (api_rename (c_Id c)
        (if api_containers True (candidate fts name (c_Created c)) d = []
         then candidate fts name (c_Created c)
         else candidate_n fts name (c_Created c)
                (LEAST n. 1 \<le> n
                   \<and> api_containers True (candidate_n fts name (c_Created c) n) d = []))
        (if lower (c_State c) = ''running'' then api_stop (c_Id c) d else d),
      (if lower (c_State c) = ''running'' then [ApiStop (c_Id c)] else [])
        @ map (ApiContainers True) ns
        @ [ApiRename (c_Id c)
            (if api_containers True (candidate fts name (c_Created c)) d = []
             then candidate fts name (c_Created c)
             else candidate_n fts name (c_Created c)
                    (LEAST n. 1 \<le> n
                       \<and> api_containers True (candidate_n fts name (c_Created c) n) d = []))])"
proof -
  let ?d1 = "if lower (c_State c) = ''running'' then api_stop (c_Id c) d else d"
  obtain ns where ns: "snd (rename_loop ?d1 fts name (c_Created c)
      (candidate fts name (c_Created c)) 1) = map (ApiContainers True) ns"
    using rename_loop_trace by blast
  have l: "api_containers True nm ?d1 = [] \<longleftrightarrow> api_containers True nm d = []" for nm
    by (simp add: listed_api_stop)
  have "fst (rename_loop ?d1 fts name (c_Created c) (candidate fts name (c_Created c)) 1) =
        (if api_containers True (candidate fts name (c_Created c)) d = []
         then candidate fts name (c_Created c)
         else candidate_n fts name (c_Created c)
                (LEAST n. 1 \<le> n
                   \<and> api_containers True (candidate_n fts name (c_Created c) n) d = []))"
    by (simp only: rename_loop_pick l)
  with ns show ?thesis
    by (simp only: reconcile_one_eq) blast
qed

lemma lower_running: "lower ''running'' = ''running''"
  by (simp add: lower_def lower_char_def)

lemma str_nat_1: "str_nat 1 = ''1''" "str_nat (Suc 0) = ''1''"
  by (simp_all add: str_nat.simps digit_char_values)

lemma alice_example:
  "reconcile fts ''alice_dev''
         [\<lparr>c_Id = ''1a'', c_Name = ''alice_dev'', c_State = ''running'', c_Created = t1\<rparr>,
          \<lparr>c_Id = ''2b'',
           c_Name = ''alice_dev_'' @ replace CHR '':'' CHR ''_'' (replace CHR '' '' CHR ''_'' (fts t1)),
           c_State = ''exited'', c_Created = t2\<rparr>]
     = ([\<lparr>c_Id = ''1a'',
          c_Name = ''alice_dev_'' @ replace CHR '':'' CHR ''_'' (replace CHR '' '' CHR ''_'' (fts t1))
                     @ ''_1'',
          c_State = ''exited'', c_Created = t1\<rparr>,
         \<lparr>c_Id = ''2b'',
          c_Name = ''alice_dev_'' @ replace CHR '':'' CHR ''_'' (replace CHR '' '' CHR ''_'' (fts t1)),
          c_State = ''exited'', c_Created = t2\<rparr>],
        [ApiContainers True ''alice_dev'', ApiStop ''1a'',
         ApiContainers True
           (''alice_dev_'' @ replace CHR '':'' CHR ''_'' (replace CHR '' '' CHR ''_'' (fts t1))),
         ApiContainers True
           (''alice_dev_'' @ replace CHR '':'' CHR ''_'' (replace CHR '' '' CHR ''_'' (fts t1))
              @ ''_1''),
         ApiRename ''1a''
           (''alice_dev_'' @ replace CHR '':'' CHR ''_'' (replace CHR '' '' CHR ''_'' (fts t1))
              @ ''_1'')])"
proof -
  define T where "T = replace CHR '':'' CHR ''_'' (replace CHR '' '' CHR ''_'' (fts t1))"
  define d1 where "d1 =
     [\<lparr>c_Id = ''1a'', c_Name = ''alice_dev'', c_State = ''exited'', c_Created = t1\<rparr>,
      \<lparr>c_Id = ''2b'', c_Name = ''alice_dev_'' @ T, c_State = ''exited'', c_Created = t2\<rparr>]"
  have c0: "candidate fts ''alice_dev'' t1 = ''alice_dev_'' @ T"
    by (simp add: candidate_def replace_def T_def)
  have c1: "candidate_n fts ''alice_dev'' t1 (Suc 0) = ''alice_dev_'' @ T @ ''_1''"
    by (simp add: candidate_n_def replace_def str_nat_1 T_def)
  have taken: "api_containers True (''alice_dev_'' @ T) d1 \<noteq> []"
    by (simp add: api_containers_def d1_def matches_refl)
  have free: "api_containers True (''alice_dev_'' @ T @ ''_1'') d1 = []"
    by (simp add: api_containers_def d1_def matches_unequal)
  have "rename_loop d1 fts ''alice_dev'' t1 (''alice_dev_'' @ T) (Suc 0)
      = (''alice_dev_'' @ T @ ''_1'',
         [ApiContainers True (''alice_dev_'' @ T), ApiContainers True (''alice_dev_'' @ T @ ''_1'')])"
    by (simp only: rename_loop_taken [OF taken] c1 rename_loop_free [OF free] fst_conv snd_conv)
  then have "rename_loop d1 fts ''alice_dev'' t1 (candidate fts ''alice_dev'' t1) 1
      = (''alice_dev_'' @ T @ ''_1'',
         [ApiContainers True (''alice_dev_'' @ T), ApiContainers True (''alice_dev_'' @ T @ ''_1'')])"
    by (simp only: c0 One_nat_def)
  then show ?thesis
    unfolding T_def [symmetric]
    by (simp add: reconcile_def reconcile_one_def api_containers_def api_stop_def api_rename_def
          lower_running Let_def d1_def)
qed

lemma alice_example_2020:
  "reconcile (\<lambda>t. ''2020-01-01 12:00:00'') ''alice_dev''
         [\<lparr>c_Id = ''1a'', c_Name = ''alice_dev'', c_State = ''running'',
           c_Created = 1577880000\<rparr>,
          \<lparr>c_Id = ''2b'', c_Name = ''alice_dev_2020-01-01_12_00_00'',
           c_State = ''exited'', c_Created = 1577880000\<rparr>]
     = ([\<lparr>c_Id = ''1a'', c_Name = ''alice_dev_2020-01-01_12_00_00_1'',
          c_State = ''exited'', c_Created = 1577880000\<rparr>,
         \<lparr>c_Id = ''2b'', c_Name = ''alice_dev_2020-01-01_12_00_00'',
          c_State = ''exited'', c_Created = 1577880000\<rparr>],
        [ApiContainers True ''alice_dev'', ApiStop ''1a'',
         ApiContainers True ''alice_dev_2020-01-01_12_00_00'',
         ApiContainers True ''alice_dev_2020-01-01_12_00_00_1'',
         ApiRename ''1a'' ''alice_dev_2020-01-01_12_00_00_1''])"
  using alice_example [of "\<lambda>t. ''2020-01-01 12:00:00''" 1577880000 1577880000]
  by (simp add: replace_def)

lemma alice_one_2020:
  "reconcile_one (\<lambda>t. ''2020-01-01 12:00:00'') ''alice_dev''
     \<lparr>c_Id = ''1a'', c_Name = ''alice_dev'', c_State = ''running'', c_Created = 1577880000\<rparr>
     [\<lparr>c_Id = ''1a'', c_Name = ''alice_dev'', c_State = ''running'',
       c_Created = 1577880000\<rparr>,
      \<lparr>c_Id = ''2b'', c_Name = ''alice_dev_2020-01-01_12_00_00'',
       c_State = ''exited'', c_Created = 1577880000\<rparr>]
   = ([\<lparr>c_Id = ''1a'', c_Name = ''alice_dev_2020-01-01_12_00_00_1'',
        c_State = ''exited'', c_Created = 1577880000\<rparr>,
       \<lparr>c_Id = ''2b'', c_Name = ''alice_dev_2020-01-01_12_00_00'',
        c_State = ''exited'', c_Created = 1577880000\<rparr>],
      [ApiStop ''1a'',
       ApiContainers True ''alice_dev_2020-01-01_12_00_00'',
       ApiContainers True ''alice_dev_2020-01-01_12_00_00_1'',
       ApiRename ''1a'' ''alice_dev_2020-01-01_12_00_00_1''])"
  by (simp add: reconcile_one_def rename_loop.simps api_containers_def api_stop_def
        api_rename_def candidate_def candidate_n_def replace_def str_nat_1 lower_running Let_def)

text \<open>
  A look-alike counts as well. With \<^verbatim>\<open>a.b_dev\<close> and \<^verbatim>\<open>axb_dev_<T>\<close> present, the
  first candidate \<^verbatim>\<open>a.b_dev_<T>\<close> is free, but the daemon lists \<^verbatim>\<open>axb_dev_<T>\<close>
  for it, and the loop goes on to \<^verbatim>\<open>a.b_dev_<T>_1\<close>.
\<close>

lemma look_alike_candidate:
  "reconcile (\<lambda>t. ''2020-01-01 12:00:00'') ''a.b_dev''
     [\<lparr>c_Id = ''1a'', c_Name = ''a.b_dev'', c_State = ''running'', c_Created = 1577880000\<rparr>,
      \<lparr>c_Id = ''2b'', c_Name = ''axb_dev_2020-01-01_12_00_00'',
       c_State = ''exited'', c_Created = 1577880000\<rparr>]
   = ([\<lparr>c_Id = ''1a'', c_Name = ''a.b_dev_2020-01-01_12_00_00_1'',
        c_State = ''exited'', c_Created = 1577880000\<rparr>,
       \<lparr>c_Id = ''2b'', c_Name = ''axb_dev_2020-01-01_12_00_00'',
        c_State = ''exited'', c_Created = 1577880000\<rparr>],
      [ApiContainers True ''a.b_dev'', ApiStop ''1a'',
       ApiContainers True ''a.b_dev_2020-01-01_12_00_00'',
       ApiContainers True ''a.b_dev_2020-01-01_12_00_00_1'',
       ApiRename ''1a'' ''a.b_dev_2020-01-01_12_00_00_1''])"
  by (simp add: reconcile_def reconcile_one_def rename_loop.simps api_containers_def api_stop_def
        api_rename_def candidate_def candidate_n_def replace_def str_nat_1 lower_running Let_def)

lemma replace_keeps_out:
  "x \<noteq> new \<Longrightarrow> x \<notin> set s \<Longrightarrow> x \<notin> set (replace old new s)"
  by (auto simp: replace_def)

lemma candidate_no_dot:
  assumes "CHR ''.'' \<notin> set name" and "CHR ''.'' \<notin> set (fts created)"
  shows "CHR ''.'' \<notin> set (candidate fts name created)"
    and "CHR ''.'' \<notin> set (candidate_n fts name created k)"
proof -
  have "CHR ''.'' \<notin> set (name @ ''_'' @ fts created)" using assms by simp
  then show "CHR ''.'' \<notin> set (candidate fts name created)"
    unfolding candidate_def by (intro replace_keeps_out) simp_all
  have "CHR ''.'' \<notin> set (name @ ''_'' @ fts created @ ''_'' @ str_nat k)"
    using assms str_nat_no_dot [of k] by simp
  then show "CHR ''.'' \<notin> set (candidate_n fts name created k)"
    unfolding candidate_n_def by (intro replace_keeps_out) simp_all
qed

lemma reconcile_one_target_free:
  assumes "ApiRename i n \<in> set (snd (reconcile_one fts name c d))"
  shows "n \<notin> c_Name ` set d"
proof -
  let ?d1 = "if lower (c_State c) = ''running'' then api_stop (c_Id c) d else d"
  let ?n = "fst (rename_loop ?d1 fts name (c_Created c) (candidate fts name (c_Created c)) 1)"
  obtain ns where "snd (rename_loop ?d1 fts name (c_Created c)
      (candidate fts name (c_Created c)) 1) = map (ApiContainers True) ns"
    using rename_loop_trace by blast
  with assms have "n = ?n" by (auto simp: reconcile_one_eq split: if_splits)
  moreover have "api_containers True ?n ?d1 = []" by (rule rename_loop_is_free)
  then have "api_containers True ?n d = []"
    by (simp add: listed_api_stop split: if_splits)
  then have "?n \<notin> c_Name ` set d" by (rule empty_listing_free)
  ultimately show ?thesis by simp
qed

lemma least_candidate_suffix:
  "1 \<le> (LEAST n. 1 \<le> n \<and> api_containers True (candidate_n fts name created n) d = [])"
proof -
  from some_candidate_free [of 1 fts name created d]
  have "\<exists>n. 1 \<le> n \<and> api_containers True (candidate_n fts name created n) d = []" by blast
  then have "1 \<le> (LEAST n. 1 \<le> n \<and> api_containers True (candidate_n fts name created n) d = [])
      \<and> api_containers True (candidate_n fts name created
            (LEAST n. 1 \<le> n \<and> api_containers True (candidate_n fts name created n) d = [])) d = []"
    by (rule LeastI_ex)
  then show ?thesis by blast
qed

text \<open>
  Claim C4. Let the canonical name and the first candidate be made of the characters of
  container names, which is where the daemon's matching is as \<^verbatim>\<open>matches\<close> has it
  (the candidate is when the timestamp is written in digits, \<^verbatim>\<open>-\<close>, \<^verbatim>\<open>.\<close>,
  spaces and colons). The name holds neither space nor colon then, so the replacement
  leaves it as it is: the first candidate is \<^verbatim>\<open><name>_<timestamp>\<close> and the later
  ones are
  \<^verbatim>\<open><name>_<timestamp>_<n>\<close>, the spaces and colons of the formatted timestamp being
  replaced by underscores. The loop body sends one rename request for its container. The
  new name is the first candidate when the daemon lists nothing for it, and otherwise the
  candidate with the least suffix \<^verbatim>\<open>n >= 1\<close> for which the daemon lists nothing. So
  when the first candidate is taken the new name carries a suffix, and the new name is
  never one that a container has. When neither the name nor the timestamp holds a dot, a
  listing is empty exactly when no container has the name: the new name is then the first
  candidate if it is free, and otherwise the candidate with the least suffix that is free.
  With \<^verbatim>\<open>alice_dev\<close> (running, created at \<^verbatim>\<open>t1\<close>) and \<^verbatim>\<open>alice_dev_<T1>\<close> both
  present, whatever the time zone, reconciliation stops \<^verbatim>\<open>alice_dev\<close> and renames it
  to \<^verbatim>\<open>alice_dev_<T1>_1\<close>.
\<close>

theorem rename_candidate:
  "name_chars name \<Longrightarrow> name_chars (candidate fts name (c_Created c)) \<Longrightarrow>
   candidate fts name created =
     name @ ''_'' @ replace CHR '':'' CHR ''_'' (replace CHR '' '' CHR ''_'' (fts created))
   \<and> candidate_n fts name created k =
     name @ ''_'' @ replace CHR '':'' CHR ''_'' (replace CHR '' '' CHR ''_'' (fts created))
       @ ''_'' @ str_nat k
   \<and> [(i, n). ApiRename i n \<leftarrow> snd (reconcile_one fts name c d)] =
       [(c_Id c,
         if api_containers True (candidate fts name (c_Created c)) d = []
         then candidate fts name (c_Created c)
         else candidate_n fts name (c_Created c)
                (LEAST n. 1 \<le> n
                   \<and> api_containers True (candidate_n fts name (c_Created c) n) d = []))]
   \<and> (candidate fts name (c_Created c) \<in> c_Name ` set d \<longrightarrow>
        (\<exists>k\<ge>1. [(i, n). ApiRename i n \<leftarrow> snd (reconcile_one fts name c d)] =
                  [(c_Id c, candidate_n fts name (c_Created c) k)]))
   \<and> (ApiRename i' n' \<in> set (snd (reconcile_one fts name c d)) \<longrightarrow> n' \<notin> c_Name ` set d)
   \<and> (CHR ''.'' \<notin> set name \<and> CHR ''.'' \<notin> set (fts (c_Created c)) \<longrightarrow>
        [(i, n). ApiRename i n \<leftarrow> snd (reconcile_one fts name c d)] =
          [(c_Id c,
            if candidate fts name (c_Created c) \<notin> c_Name ` set d
            then candidate fts name (c_Created c)
            else candidate_n fts name (c_Created c)
                   (LEAST n. 1 \<le> n \<and> candidate_n fts name (c_Created c) n \<notin> c_Name ` set d))])
   \<and> (name_chars (candidate fts ''alice_dev'' t1) \<longrightarrow>
       reconcile fts ''alice_dev''
         [\<lparr>c_Id = ''1a'', c_Name = ''alice_dev'', c_State = ''running'', c_Created = t1\<rparr>,
          \<lparr>c_Id = ''2b'',
           c_Name = ''alice_dev_'' @ replace CHR '':'' CHR ''_'' (replace CHR '' '' CHR ''_'' (fts t1)),
           c_State = ''exited'', c_Created = t2\<rparr>]
     = ([\<lparr>c_Id = ''1a'',
          c_Name = ''alice_dev_'' @ replace CHR '':'' CHR ''_'' (replace CHR '' '' CHR ''_'' (fts t1))
                     @ ''_1'',
          c_State = ''exited'', c_Created = t1\<rparr>,
         \<lparr>c_Id = ''2b'',
          c_Name = ''alice_dev_'' @ replace CHR '':'' CHR ''_'' (replace CHR '' '' CHR ''_'' (fts t1)),
          c_State = ''exited'', c_Created = t2\<rparr>],
        [ApiContainers True ''alice_dev'', ApiStop ''1a'',
         ApiContainers True
           (''alice_dev_'' @ replace CHR '':'' CHR ''_'' (replace CHR '' '' CHR ''_'' (fts t1))),
         ApiContainers True
           (''alice_dev_'' @ replace CHR '':'' CHR ''_'' (replace CHR '' '' CHR ''_'' (fts t1))
              @ ''_1''),
         ApiRename ''1a''
           (''alice_dev_'' @ replace CHR '':'' CHR ''_'' (replace CHR '' '' CHR ''_'' (fts t1))
              @ ''_1'')]))"
proof -
  assume "name_chars name"
  then have nsc: "CHR '' '' \<notin> set name \<and> CHR '':'' \<notin> set name"
    unfolding name_chars_def by auto
  have fmt: "candidate fts name created =
        name @ ''_'' @ replace CHR '':'' CHR ''_'' (replace CHR '' '' CHR ''_'' (fts created))
      \<and> candidate_n fts name created k =
        name @ ''_'' @ replace CHR '':'' CHR ''_'' (replace CHR '' '' CHR ''_'' (fts created))
          @ ''_'' @ str_nat k"
    if a: "CHR '' '' \<notin> set name \<and> CHR '':'' \<notin> set name"
  proof -
    from a have n: "replace CHR '':'' CHR ''_'' (replace CHR '' '' CHR ''_'' (name)) = name"
      by (simp add: replace_id)
    have u: "replace CHR '':'' CHR ''_'' (replace CHR '' '' CHR ''_'' (''_'')) = ''_''"
      by (simp add: replace_def)
    have c1: "candidate fts name created =
        name @ ''_'' @ replace CHR '':'' CHR ''_'' (replace CHR '' '' CHR ''_'' (fts created))"
      unfolding candidate_def by (simp only: replace_append n u)
    have "replace CHR '':'' CHR ''_'' (replace CHR '' '' CHR ''_'' (str_nat k)) = str_nat k"
      using str_nat_no_sep [of k] by (simp add: replace_id)
    then have "candidate_n fts name created k =
        name @ ''_'' @ replace CHR '':'' CHR ''_'' (replace CHR '' '' CHR ''_'' (fts created))
          @ ''_'' @ str_nat k"
      unfolding candidate_n_def by (simp only: replace_append n u)
    with c1 show ?thesis by blast
  qed
  from reconcile_one_shape [of fts name c d] obtain ns where
    "snd (reconcile_one fts name c d) =
      (if lower (c_State c) = ''running'' then [ApiStop (c_Id c)] else [])
        @ map (ApiContainers True) ns
        @ [ApiRename (c_Id c)
            (if api_containers True (candidate fts name (c_Created c)) d = []
         then candidate fts name (c_Created c)
         else candidate_n fts name (c_Created c)
                (LEAST n. 1 \<le> n
                   \<and> api_containers True (candidate_n fts name (c_Created c) n) d = []))]"
    by force
  then have pick: "[(i, n). ApiRename i n \<leftarrow> snd (reconcile_one fts name c d)] =
       [(c_Id c,
         if api_containers True (candidate fts name (c_Created c)) d = []
         then candidate fts name (c_Created c)
         else candidate_n fts name (c_Created c)
                (LEAST n. 1 \<le> n
                   \<and> api_containers True (candidate_n fts name (c_Created c) n) d = []))]"
    by simp
  have taken: "\<exists>k\<ge>1. [(i, n). ApiRename i n \<leftarrow> snd (reconcile_one fts name c d)] =
                  [(c_Id c, candidate_n fts name (c_Created c) k)]"
    if t: "candidate fts name (c_Created c) \<in> c_Name ` set d"
  proof -
    from t have "api_containers True (candidate fts name (c_Created c)) d \<noteq> []"
      using empty_listing_free by blast
    with pick have "[(i, n). ApiRename i n \<leftarrow> snd (reconcile_one fts name c d)] =
       [(c_Id c, candidate_n fts name (c_Created c)
                (LEAST n. 1 \<le> n
                   \<and> api_containers True (candidate_n fts name (c_Created c) n) d = []))]"
      by (simp only: if_False)
    with least_candidate_suffix [of fts name "c_Created c" d] show ?thesis by blast
  qed
  have free: "n' \<notin> c_Name ` set d"
    if "ApiRename i' n' \<in> set (snd (reconcile_one fts name c d))"
    using that by (rule reconcile_one_target_free)
  have exact: "[(i, n). ApiRename i n \<leftarrow> snd (reconcile_one fts name c d)] =
          [(c_Id c,
            if candidate fts name (c_Created c) \<notin> c_Name ` set d
            then candidate fts name (c_Created c)
            else candidate_n fts name (c_Created c)
                   (LEAST n. 1 \<le> n \<and> candidate_n fts name (c_Created c) n \<notin> c_Name ` set d))]"
    if a: "CHR ''.'' \<notin> set name \<and> CHR ''.'' \<notin> set (fts (c_Created c))"
  proof -
    from a have n: "CHR ''.'' \<notin> set name" and t: "CHR ''.'' \<notin> set (fts (c_Created c))"
      by simp_all
    have l0: "(api_containers True (candidate fts name (c_Created c)) d = [])
        = (candidate fts name (c_Created c) \<notin> c_Name ` set d)"
      using candidate_no_dot(1) [of name fts "c_Created c", OF n t] by (rule plain_listing)
    have ln: "(api_containers True (candidate_n fts name (c_Created c) k) d = [])
        = (candidate_n fts name (c_Created c) k \<notin> c_Name ` set d)" for k
      using candidate_no_dot(2) [of name fts "c_Created c" k, OF n t] by (rule plain_listing)
    from pick show ?thesis by (simp only: l0 ln)
  qed
  have ex: "reconcile fts ''alice_dev''
         [\<lparr>c_Id = ''1a'', c_Name = ''alice_dev'', c_State = ''running'', c_Created = t1\<rparr>,
          \<lparr>c_Id = ''2b'',
           c_Name = ''alice_dev_'' @ replace CHR '':'' CHR ''_'' (replace CHR '' '' CHR ''_'' (fts t1)),
           c_State = ''exited'', c_Created = t2\<rparr>]
     = ([\<lparr>c_Id = ''1a'',
          c_Name = ''alice_dev_'' @ replace CHR '':'' CHR ''_'' (replace CHR '' '' CHR ''_'' (fts t1))
                     @ ''_1'',
          c_State = ''exited'', c_Created = t1\<rparr>,
         \<lparr>c_Id = ''2b'',
          c_Name = ''alice_dev_'' @ replace CHR '':'' CHR ''_'' (replace CHR '' '' CHR ''_'' (fts t1)),
          c_State = ''exited'', c_Created = t2\<rparr>],
        [ApiContainers True ''alice_dev'', ApiStop ''1a'',
         ApiContainers True
           (''alice_dev_'' @ replace CHR '':'' CHR ''_'' (replace CHR '' '' CHR ''_'' (fts t1))),
         ApiContainers True
           (''alice_dev_'' @ replace CHR '':'' CHR ''_'' (replace CHR '' '' CHR ''_'' (fts t1))
              @ ''_1''),
         ApiRename ''1a''
           (''alice_dev_'' @ replace CHR '':'' CHR ''_'' (replace CHR '' '' CHR ''_'' (fts t1))
              @ ''_1'')])"
    by (rule alice_example)
  from fmt [OF nsc] pick taken free exact ex show ?thesis by blast
qed

theorem rename_candidate_witness:
  "name_chars ''alice_dev''
   \<and> name_chars (candidate (\<lambda>t. ''2020-01-01 12:00:00'') ''alice_dev'' 1577880000)
   \<and> CHR '' '' \<notin> set ''alice_dev'' \<and> CHR '':'' \<notin> set ''alice_dev''
   \<and> candidate (\<lambda>t. ''2020-01-01 12:00:00'') ''alice_dev'' 1577880000
       = ''alice_dev_2020-01-01_12_00_00''
   \<and> candidate_n (\<lambda>t. ''2020-01-01 12:00:00'') ''alice_dev'' 1577880000 2
       = ''alice_dev_2020-01-01_12_00_00_2''
   \<and> candidate (\<lambda>t. ''2020-01-01 12:00:00'') ''alice_dev'' 1577880000 \<in> c_Name ` set
      [\<lparr>c_Id = ''1a'', c_Name = ''alice_dev'', c_State = ''running'',
        c_Created = 1577880000\<rparr>,
       \<lparr>c_Id = ''2b'', c_Name = ''alice_dev_2020-01-01_12_00_00'',
        c_State = ''exited'', c_Created = 1577880000\<rparr>]
   \<and> (\<exists>k\<ge>1. [(i, n). ApiRename i n \<leftarrow> snd (reconcile_one (\<lambda>t. ''2020-01-01 12:00:00'') ''alice_dev''
       \<lparr>c_Id = ''1a'', c_Name = ''alice_dev'', c_State = ''running'',
        c_Created = 1577880000\<rparr>
      [\<lparr>c_Id = ''1a'', c_Name = ''alice_dev'', c_State = ''running'',
        c_Created = 1577880000\<rparr>,
       \<lparr>c_Id = ''2b'', c_Name = ''alice_dev_2020-01-01_12_00_00'',
        c_State = ''exited'', c_Created = 1577880000\<rparr>])]
        = [(''1a'', candidate_n (\<lambda>t. ''2020-01-01 12:00:00'') ''alice_dev'' 1577880000 k)])
   \<and> ApiRename ''1a'' ''alice_dev_2020-01-01_12_00_00_1'' \<in> set (snd (reconcile_one (\<lambda>t. ''2020-01-01 12:00:00'') ''alice_dev''
       \<lparr>c_Id = ''1a'', c_Name = ''alice_dev'', c_State = ''running'',
        c_Created = 1577880000\<rparr>
      [\<lparr>c_Id = ''1a'', c_Name = ''alice_dev'', c_State = ''running'',
        c_Created = 1577880000\<rparr>,
       \<lparr>c_Id = ''2b'', c_Name = ''alice_dev_2020-01-01_12_00_00'',
        c_State = ''exited'', c_Created = 1577880000\<rparr>]))
   \<and> ''alice_dev_2020-01-01_12_00_00_1'' \<notin> c_Name ` set
      [\<lparr>c_Id = ''1a'', c_Name = ''alice_dev'', c_State = ''running'',
        c_Created = 1577880000\<rparr>,
       \<lparr>c_Id = ''2b'', c_Name = ''alice_dev_2020-01-01_12_00_00'',
        c_State = ''exited'', c_Created = 1577880000\<rparr>]
   \<and> CHR ''.'' \<notin> set ''alice_dev'' \<and> CHR ''.'' \<notin> set ((\<lambda>t. ''2020-01-01 12:00:00'') (1577880000::int))
   \<and> [(i, n). ApiRename i n \<leftarrow> snd (reconcile_one (\<lambda>t. ''2020-01-01 12:00:00'') ''alice_dev''
       \<lparr>c_Id = ''1a'', c_Name = ''alice_dev'', c_State = ''running'',
        c_Created = 1577880000\<rparr>
      [\<lparr>c_Id = ''1a'', c_Name = ''alice_dev'', c_State = ''running'',
        c_Created = 1577880000\<rparr>,
       \<lparr>c_Id = ''2b'', c_Name = ''alice_dev_2020-01-01_12_00_00'',
        c_State = ''exited'', c_Created = 1577880000\<rparr>])]
       = [(''1a'', candidate_n (\<lambda>t. ''2020-01-01 12:00:00'') ''alice_dev'' 1577880000
             (LEAST n. 1 \<le> n \<and> candidate_n (\<lambda>t. ''2020-01-01 12:00:00'') ''alice_dev'' 1577880000 n
                \<notin> c_Name ` set
      [\<lparr>c_Id = ''1a'', c_Name = ''alice_dev'', c_State = ''running'',
        c_Created = 1577880000\<rparr>,
       \<lparr>c_Id = ''2b'', c_Name = ''alice_dev_2020-01-01_12_00_00'',
        c_State = ''exited'', c_Created = 1577880000\<rparr>]))]
   \<and> reconcile (\<lambda>t. ''2020-01-01 12:00:00'') ''alice_dev''
      [\<lparr>c_Id = ''1a'', c_Name = ''alice_dev'', c_State = ''running'',
        c_Created = 1577880000\<rparr>,
       \<lparr>c_Id = ''2b'', c_Name = ''alice_dev_2020-01-01_12_00_00'',
        c_State = ''exited'', c_Created = 1577880000\<rparr>]
     = ([\<lparr>c_Id = ''1a'', c_Name = ''alice_dev_2020-01-01_12_00_00_1'',
          c_State = ''exited'', c_Created = 1577880000\<rparr>,
         \<lparr>c_Id = ''2b'', c_Name = ''alice_dev_2020-01-01_12_00_00'',
        c_State = ''exited'', c_Created = 1577880000\<rparr>],
        [ApiContainers True ''alice_dev'', ApiStop ''1a'',
         ApiContainers True ''alice_dev_2020-01-01_12_00_00'',
         ApiContainers True ''alice_dev_2020-01-01_12_00_00_1'',
         ApiRename ''1a'' ''alice_dev_2020-01-01_12_00_00_1''])"
proof -
  have two: "str_nat 2 = ''2''"
    by (simp add: str_nat.simps digit_char_values)
  have c0: "candidate (\<lambda>t. ''2020-01-01 12:00:00'') ''alice_dev'' 1577880000 = ''alice_dev_2020-01-01_12_00_00''"
    by (simp add: candidate_def replace_def)
  have n1: "name_chars ''alice_dev''"
    by (simp add: name_chars_def)
  have n2: "name_chars (candidate (\<lambda>t. ''2020-01-01 12:00:00'') ''alice_dev'' 1577880000)"
    by (simp add: c0 name_chars_def)
  have h1: "CHR '' '' \<notin> set ''alice_dev'' \<and> CHR '':'' \<notin> set ''alice_dev''" by simp
  have h3: "candidate (\<lambda>t. ''2020-01-01 12:00:00'') ''alice_dev'' 1577880000 \<in> c_Name ` set
      [\<lparr>c_Id = ''1a'', c_Name = ''alice_dev'', c_State = ''running'',
        c_Created = 1577880000\<rparr>,
       \<lparr>c_Id = ''2b'', c_Name = ''alice_dev_2020-01-01_12_00_00'',
        c_State = ''exited'', c_Created = 1577880000\<rparr>]"
    by (simp add: c0)
  have h4: "ApiRename ''1a'' ''alice_dev_2020-01-01_12_00_00_1'' \<in> set (snd (reconcile_one (\<lambda>t. ''2020-01-01 12:00:00'') ''alice_dev''
       \<lparr>c_Id = ''1a'', c_Name = ''alice_dev'', c_State = ''running'',
        c_Created = 1577880000\<rparr>
      [\<lparr>c_Id = ''1a'', c_Name = ''alice_dev'', c_State = ''running'',
        c_Created = 1577880000\<rparr>,
       \<lparr>c_Id = ''2b'', c_Name = ''alice_dev_2020-01-01_12_00_00'',
        c_State = ''exited'', c_Created = 1577880000\<rparr>]))"
    by (simp add: alice_one_2020)
  have h5: "CHR ''.'' \<notin> set ''alice_dev'' \<and> CHR ''.'' \<notin> set ((\<lambda>t. ''2020-01-01 12:00:00'') (1577880000::int))"
    by simp
  have sel: "c_Created \<lparr>c_Id = ''1a'', c_Name = ''alice_dev'', c_State = ''running'',
        c_Created = 1577880000\<rparr> = 1577880000"
    "c_Id \<lparr>c_Id = ''1a'', c_Name = ''alice_dev'', c_State = ''running'',
        c_Created = 1577880000\<rparr> = ''1a''"
    by simp_all
  note T = rename_candidate [where name = "''alice_dev''" and fts = "(\<lambda>t. ''2020-01-01 12:00:00'')"
      and created = 1577880000 and k = 2
      and c = "\<lparr>c_Id = ''1a'', c_Name = ''alice_dev'', c_State = ''running'',
        c_Created = 1577880000\<rparr>"
      and d = "[\<lparr>c_Id = ''1a'', c_Name = ''alice_dev'', c_State = ''running'',
        c_Created = 1577880000\<rparr>,
       \<lparr>c_Id = ''2b'', c_Name = ''alice_dev_2020-01-01_12_00_00'',
        c_State = ''exited'', c_Created = 1577880000\<rparr>]"
      and i' = "''1a''" and n' = "''alice_dev_2020-01-01_12_00_00_1''"
      and ?t1.0 = 1577880000 and ?t2.0 = 1577880000, unfolded sel, OF n1 n2]
  from T [THEN conjunct1] T [THEN conjunct2, THEN conjunct1] have fmt: "candidate (\<lambda>t. ''2020-01-01 12:00:00'') ''alice_dev'' 1577880000
       = ''alice_dev_2020-01-01_12_00_00''
     \<and> candidate_n (\<lambda>t. ''2020-01-01 12:00:00'') ''alice_dev'' 1577880000 2
       = ''alice_dev_2020-01-01_12_00_00_2''"
    by (simp add: replace_def two)
  from T [THEN conjunct2, THEN conjunct2, THEN conjunct2, THEN conjunct1] h3
  have tk: "\<exists>k\<ge>1. [(i, n). ApiRename i n \<leftarrow> snd (reconcile_one (\<lambda>t. ''2020-01-01 12:00:00'') ''alice_dev''
       \<lparr>c_Id = ''1a'', c_Name = ''alice_dev'', c_State = ''running'',
        c_Created = 1577880000\<rparr>
      [\<lparr>c_Id = ''1a'', c_Name = ''alice_dev'', c_State = ''running'',
        c_Created = 1577880000\<rparr>,
       \<lparr>c_Id = ''2b'', c_Name = ''alice_dev_2020-01-01_12_00_00'',
        c_State = ''exited'', c_Created = 1577880000\<rparr>])]
        = [(''1a'', candidate_n (\<lambda>t. ''2020-01-01 12:00:00'') ''alice_dev'' 1577880000 k)]"
    by (rule mp)
  from T [THEN conjunct2, THEN conjunct2, THEN conjunct2, THEN conjunct2, THEN conjunct1] h4
  have fr: "''alice_dev_2020-01-01_12_00_00_1'' \<notin> c_Name ` set
      [\<lparr>c_Id = ''1a'', c_Name = ''alice_dev'', c_State = ''running'',
        c_Created = 1577880000\<rparr>,
       \<lparr>c_Id = ''2b'', c_Name = ''alice_dev_2020-01-01_12_00_00'',
        c_State = ''exited'', c_Created = 1577880000\<rparr>]"
    by (rule mp)
  from T [THEN conjunct2, THEN conjunct2, THEN conjunct2, THEN conjunct2, THEN conjunct2, THEN conjunct1] h5
  have "[(i, n). ApiRename i n \<leftarrow> snd (reconcile_one (\<lambda>t. ''2020-01-01 12:00:00'') ''alice_dev''
       \<lparr>c_Id = ''1a'', c_Name = ''alice_dev'', c_State = ''running'',
        c_Created = 1577880000\<rparr>
      [\<lparr>c_Id = ''1a'', c_Name = ''alice_dev'', c_State = ''running'',
        c_Created = 1577880000\<rparr>,
       \<lparr>c_Id = ''2b'', c_Name = ''alice_dev_2020-01-01_12_00_00'',
        c_State = ''exited'', c_Created = 1577880000\<rparr>])]
       = [(''1a'',
           if candidate (\<lambda>t. ''2020-01-01 12:00:00'') ''alice_dev'' 1577880000 \<notin> c_Name ` set
      [\<lparr>c_Id = ''1a'', c_Name = ''alice_dev'', c_State = ''running'',
        c_Created = 1577880000\<rparr>,
       \<lparr>c_Id = ''2b'', c_Name = ''alice_dev_2020-01-01_12_00_00'',
        c_State = ''exited'', c_Created = 1577880000\<rparr>]
           then candidate (\<lambda>t. ''2020-01-01 12:00:00'') ''alice_dev'' 1577880000
           else candidate_n (\<lambda>t. ''2020-01-01 12:00:00'') ''alice_dev'' 1577880000
             (LEAST n. 1 \<le> n \<and> candidate_n (\<lambda>t. ''2020-01-01 12:00:00'') ''alice_dev'' 1577880000 n
                \<notin> c_Name ` set
      [\<lparr>c_Id = ''1a'', c_Name = ''alice_dev'', c_State = ''running'',
        c_Created = 1577880000\<rparr>,
       \<lparr>c_Id = ''2b'', c_Name = ''alice_dev_2020-01-01_12_00_00'',
        c_State = ''exited'', c_Created = 1577880000\<rparr>]))]"
    by (rule mp)
  with h3 have ex: "[(i, n). ApiRename i n \<leftarrow> snd (reconcile_one (\<lambda>t. ''2020-01-01 12:00:00'') ''alice_dev''
       \<lparr>c_Id = ''1a'', c_Name = ''alice_dev'', c_State = ''running'',
        c_Created = 1577880000\<rparr>
      [\<lparr>c_Id = ''1a'', c_Name = ''alice_dev'', c_State = ''running'',
        c_Created = 1577880000\<rparr>,
       \<lparr>c_Id = ''2b'', c_Name = ''alice_dev_2020-01-01_12_00_00'',
        c_State = ''exited'', c_Created = 1577880000\<rparr>])]
       = [(''1a'', candidate_n (\<lambda>t. ''2020-01-01 12:00:00'') ''alice_dev'' 1577880000
             (LEAST n. 1 \<le> n \<and> candidate_n (\<lambda>t. ''2020-01-01 12:00:00'') ''alice_dev'' 1577880000 n
                \<notin> c_Name ` set
      [\<lparr>c_Id = ''1a'', c_Name = ''alice_dev'', c_State = ''running'',
        c_Created = 1577880000\<rparr>,
       \<lparr>c_Id = ''2b'', c_Name = ''alice_dev_2020-01-01_12_00_00'',
        c_State = ''exited'', c_Created = 1577880000\<rparr>]))]"
    by (simp only: not_True_eq_False if_False)
  from T [THEN conjunct2, THEN conjunct2, THEN conjunct2, THEN conjunct2, THEN conjunct2, THEN conjunct2] n2
  have "reconcile (\<lambda>t. ''2020-01-01 12:00:00'') ''alice_dev''
         [\<lparr>c_Id = ''1a'', c_Name = ''alice_dev'', c_State = ''running'', c_Created = 1577880000\<rparr>,
          \<lparr>c_Id = ''2b'',
           c_Name = ''alice_dev_'' @ replace CHR '':'' CHR ''_'' (replace CHR '' '' CHR ''_'' ((\<lambda>t. ''2020-01-01 12:00:00'') (1577880000::int))),
           c_State = ''exited'', c_Created = 1577880000\<rparr>]
     = ([\<lparr>c_Id = ''1a'',
          c_Name = ''alice_dev_'' @ replace CHR '':'' CHR ''_'' (replace CHR '' '' CHR ''_'' ((\<lambda>t. ''2020-01-01 12:00:00'') (1577880000::int)))
                     @ ''_1'',
          c_State = ''exited'', c_Created = 1577880000\<rparr>,
         \<lparr>c_Id = ''2b'',
          c_Name = ''alice_dev_'' @ replace CHR '':'' CHR ''_'' (replace CHR '' '' CHR ''_'' ((\<lambda>t. ''2020-01-01 12:00:00'') (1577880000::int))),
          c_State = ''exited'', c_Created = 1577880000\<rparr>],
        [ApiContainers True ''alice_dev'', ApiStop ''1a'',
         ApiContainers True
           (''alice_dev_'' @ replace CHR '':'' CHR ''_'' (replace CHR '' '' CHR ''_'' ((\<lambda>t. ''2020-01-01 12:00:00'') (1577880000::int)))),
         ApiContainers True
           (''alice_dev_'' @ replace CHR '':'' CHR ''_'' (replace CHR '' '' CHR ''_'' ((\<lambda>t. ''2020-01-01 12:00:00'') (1577880000::int)))
              @ ''_1''),
         ApiRename ''1a''
           (''alice_dev_'' @ replace CHR '':'' CHR ''_'' (replace CHR '' '' CHR ''_'' ((\<lambda>t. ''2020-01-01 12:00:00'') (1577880000::int)))
              @ ''_1'')])"
    by (rule mp)
  then have al: "reconcile (\<lambda>t. ''2020-01-01 12:00:00'') ''alice_dev''
      [\<lparr>c_Id = ''1a'', c_Name = ''alice_dev'', c_State = ''running'',
        c_Created = 1577880000\<rparr>,
       \<lparr>c_Id = ''2b'', c_Name = ''alice_dev_2020-01-01_12_00_00'',
        c_State = ''exited'', c_Created = 1577880000\<rparr>]
     = ([\<lparr>c_Id = ''1a'', c_Name = ''alice_dev_2020-01-01_12_00_00_1'',
          c_State = ''exited'', c_Created = 1577880000\<rparr>,
         \<lparr>c_Id = ''2b'', c_Name = ''alice_dev_2020-01-01_12_00_00'',
        c_State = ''exited'', c_Created = 1577880000\<rparr>],
        [ApiContainers True ''alice_dev'', ApiStop ''1a'',
         ApiContainers True ''alice_dev_2020-01-01_12_00_00'',
         ApiContainers True ''alice_dev_2020-01-01_12_00_00_1'',
         ApiRename ''1a'' ''alice_dev_2020-01-01_12_00_00_1''])"
    by (simp add: replace_def)
  from n1 n2 h1 fmt h3 tk h4 fr h5 ex al show ?thesis by blast
qed

section \<open>The canonical name is free after reconciliation\<close>

lemma reconcile_one_after:
  "fst (reconcile_one fts name c d) = after (snd (reconcile_one fts name c d)) d"
proof -
  obtain ns where "snd (rename_loop (if lower (c_State c) = ''running'' then api_stop (c_Id c) d else d)
      fts name (c_Created c) (candidate fts name (c_Created c)) 1) = map (ApiContainers True) ns"
    using rename_loop_trace by blast
  then show ?thesis
    by (simp add: reconcile_one_eq after_append after_queries) (simp add: after_def)
qed

lemma reconcile_loop_after:
  "fst (reconcile_loop fts name cs d) = after (snd (reconcile_loop fts name cs d)) d"
proof (induction cs arbitrary: d)
  case Nil
  show ?case by (simp add: after_def)
next
  case (Cons c cs)
  show ?case
    by (simp only: reconcile_loop_Cons fst_conv snd_conv after_append
          reconcile_one_after [symmetric] Cons.IH [symmetric])
qed

lemma reconcile_after: "fst (reconcile fts name d) = after (snd (reconcile fts name d)) d"
  using reconcile_loop_after [of fts name "api_containers True name d" d]
  by (simp add: reconcile_eq after_def)

lemma reconcile_one_new_name:
  "\<exists>n. \<not> matches name n \<and>
       fst (reconcile_one fts name c d) =
         api_rename (c_Id c) n (if lower (c_State c) = ''running'' then api_stop (c_Id c) d else d)"
proof -
  let ?d1 = "if lower (c_State c) = ''running'' then api_stop (c_Id c) d else d"
  let ?n = "fst (rename_loop ?d1 fts name (c_Created c) (candidate fts name (c_Created c)) 1)"
  have "length name < length ?n"
    using length_candidate by (rule rename_loop_longer)
  then have "\<not> matches name ?n" using matches_length [of name ?n] by auto
  moreover have "fst (reconcile_one fts name c d) = api_rename (c_Id c) ?n ?d1"
    by (simp only: reconcile_one_eq fst_conv)
  ultimately show ?thesis by blast
qed

lemma reconcile_one_clears:
  assumes "x \<in> set (fst (reconcile_one fts name c d))" and "matches name (c_Name x)"
  shows "c_Id x \<noteq> c_Id c \<and> (\<exists>y \<in> set d. c_Id y = c_Id x \<and> matches name (c_Name y))"
proof -
  let ?d1 = "if lower (c_State c) = ''running'' then api_stop (c_Id c) d else d"
  from reconcile_one_new_name [of name fts c d] obtain n where
    n: "\<not> matches name n" and e: "fst (reconcile_one fts name c d) = api_rename (c_Id c) n ?d1"
    by blast
  from assms(1) e obtain z where z: "z \<in> set ?d1"
    and x: "x = (if c_Id z = c_Id c then z\<lparr>c_Name := n\<rparr> else z)"
    by (auto simp: api_rename_def)
  from x assms(2) n have ne: "c_Id z \<noteq> c_Id c" and xz: "x = z"
    by (auto split: if_splits)
  from z obtain y where y: "y \<in> set d" and "c_Id y = c_Id z" and "c_Name y = c_Name z"
    by (auto simp: api_stop_def split: if_splits)
  with ne xz assms(2) show ?thesis by auto
qed

lemma reconcile_loop_clears:
  "(\<forall>x \<in> set d. matches name (c_Name x) \<longrightarrow> c_Id x \<in> c_Id ` set cs) \<Longrightarrow>
     \<forall>x \<in> set (fst (reconcile_loop fts name cs d)). \<not> matches name (c_Name x)"
proof (induction cs arbitrary: d)
  case Nil
  then show ?case by auto
next
  case (Cons c cs)
  have "\<forall>x \<in> set (fst (reconcile_one fts name c d)).
          matches name (c_Name x) \<longrightarrow> c_Id x \<in> c_Id ` set cs"
  proof (intro ballI impI)
    fix x assume "x \<in> set (fst (reconcile_one fts name c d))" and "matches name (c_Name x)"
    then have a: "c_Id x \<noteq> c_Id c"
      and "\<exists>y \<in> set d. c_Id y = c_Id x \<and> matches name (c_Name y)"
      using reconcile_one_clears by blast+
    then obtain y where "y \<in> set d" and i: "c_Id y = c_Id x" and "matches name (c_Name y)"
      by blast
    with Cons.prems have "c_Id y \<in> c_Id ` set (c # cs)" by blast
    with a i show "c_Id x \<in> c_Id ` set cs" by auto
  qed
  then have "\<forall>x \<in> set (fst (reconcile_loop fts name cs (fst (reconcile_one fts name c d)))).
      \<not> matches name (c_Name x)"
    by (rule Cons.IH)
  then show ?case by (simp only: reconcile_loop_Cons fst_conv)
qed

lemma reconcile_clears: "api_containers True name (fst (reconcile fts name d)) = []"
proof -
  have "\<forall>x \<in> set d. matches name (c_Name x)
          \<longrightarrow> c_Id x \<in> c_Id ` set (api_containers True name d)"
    by (auto simp: api_containers_def)
  then have "\<forall>x \<in> set (fst (reconcile_loop fts name (api_containers True name d) d)).
      \<not> matches name (c_Name x)"
    by (rule reconcile_loop_clears)
  moreover have "fst (reconcile fts name d)
      = fst (reconcile_loop fts name (api_containers True name d) d)"
    by (simp only: reconcile_eq fst_conv)
  ultimately have "\<forall>x \<in> set (map c_Name (fst (reconcile fts name d))). \<not> matches name x"
    by auto
  then show ?thesis using listing_empty by blast
qed

lemma reconcile_nothing_to_do:
  "api_containers True name d = [] \<Longrightarrow> reconcile fts name d = (d, [ApiContainers True name])"
  by (simp add: reconcile_def)

section \<open>Every rename asks for a name nobody has\<close>

lemma ids_after: "map c_Id (after tr d) = map c_Id d"
proof (induction tr arbitrary: d)
  case Nil
  show ?case by (simp add: after_def)
next
  case (Cons e tr)
  have "map c_Id (serve e d) = map c_Id d"
    by (cases e) (simp_all add: ids_api_stop ids_api_rename)
  with Cons.IH [of "serve e d"] show ?case by (simp add: after_def)
qed

lemma only_rename_last:
  assumes "\<forall>i n. ApiRename i n \<notin> set xs"
    and "xs @ [ApiRename a b] = pre @ ApiRename i n # post"
  shows "pre = xs \<and> post = [] \<and> i = a \<and> n = b"
proof -
  from assms(2) obtain us where
    "xs = pre @ us \<and> us @ [ApiRename a b] = ApiRename i n # post
     \<or> xs @ us = pre \<and> [ApiRename a b] = us @ ApiRename i n # post"
    by (auto simp: append_eq_append_conv2)
  then show ?thesis
  proof
    assume a: "xs = pre @ us \<and> us @ [ApiRename a b] = ApiRename i n # post"
    show ?thesis
    proof (cases us)
      case Nil
      with a show ?thesis by simp
    next
      case (Cons u us')
      with a have "ApiRename i n \<in> set xs" by simp
      with assms(1) show ?thesis by blast
    qed
  next
    assume b: "xs @ us = pre \<and> [ApiRename a b] = us @ ApiRename i n # post"
    then have "us = [] \<and> post = [] \<and> ApiRename a b = ApiRename i n"
      by (cases us) simp_all
    with b show ?thesis by simp
  qed
qed

lemma reconcile_one_split:
  assumes "snd (reconcile_one fts name c d) = pre @ ApiRename i n # post"
  shows "post = [] \<and> i = c_Id c \<and> api_containers True n (after pre d) = []"
proof -
  let ?d1 = "if lower (c_State c) = ''running'' then api_stop (c_Id c) d else d"
  let ?stops = "if lower (c_State c) = ''running'' then [ApiStop (c_Id c)] else []"
  let ?n = "fst (rename_loop ?d1 fts name (c_Created c) (candidate fts name (c_Created c)) 1)"
  obtain ns where ns: "snd (rename_loop ?d1 fts name (c_Created c)
      (candidate fts name (c_Created c)) 1) = map (ApiContainers True) ns"
    using rename_loop_trace by blast
  have t: "snd (reconcile_one fts name c d)
      = (?stops @ map (ApiContainers True) ns) @ [ApiRename (c_Id c) ?n]"
    using ns by (simp add: reconcile_one_eq)
  have no: "\<forall>i n. ApiRename i n \<notin> set (?stops @ map (ApiContainers True) ns)"
    by auto
  from assms t have "(?stops @ map (ApiContainers True) ns) @ [ApiRename (c_Id c) ?n]
      = pre @ ApiRename i n # post" by simp
  with no have p: "pre = ?stops @ map (ApiContainers True) ns \<and> post = [] \<and> i = c_Id c \<and> n = ?n"
    by (rule only_rename_last)
  have "after ?stops d = ?d1" by (simp add: after_def)
  with p have "after pre d = ?d1" by (simp add: after_append after_queries)
  moreover have "api_containers True ?n ?d1 = []" by (rule rename_loop_is_free)
  ultimately show ?thesis using p by simp
qed

lemma reconcile_loop_split:
  "snd (reconcile_loop fts name cs d) = pre @ ApiRename i n # post \<Longrightarrow>
     api_containers True n (after pre d) = [] \<and> i \<in> c_Id ` set cs"
proof (induction cs arbitrary: d pre)
  case Nil
  then show ?case by simp
next
  case (Cons c cs)
  let ?t1 = "snd (reconcile_one fts name c d)"
  let ?d2 = "fst (reconcile_one fts name c d)"
  let ?t3 = "snd (reconcile_loop fts name cs ?d2)"
  have d2: "?d2 = after ?t1 d" by (rule reconcile_one_after)
  from Cons.prems have "?t1 @ ?t3 = pre @ ApiRename i n # post"
    by (simp only: reconcile_loop_Cons snd_conv)
  then obtain us where
    "?t1 = pre @ us \<and> us @ ?t3 = ApiRename i n # post
     \<or> ?t1 @ us = pre \<and> ?t3 = us @ ApiRename i n # post"
    by (auto simp: append_eq_append_conv2)
  then consider
      (later) us' where "?t1 @ us' = pre" and "?t3 = us' @ ApiRename i n # post"
    | (here) us' where "?t1 = pre @ ApiRename i n # us'"
  proof (elim disjE)
    assume a: "?t1 = pre @ us \<and> us @ ?t3 = ApiRename i n # post"
    show ?thesis
    proof (cases us)
      case Nil
      with a have "?t1 @ [] = pre" and "?t3 = [] @ ApiRename i n # post" by simp_all
      then show ?thesis by (rule that(1))
    next
      case (Cons u us')
      with a have "?t1 = pre @ ApiRename i n # us'" by simp
      then show ?thesis by (rule that(2))
    qed
  next
    assume "?t1 @ us = pre \<and> ?t3 = us @ ApiRename i n # post"
    then show ?thesis using that(1) by blast
  qed
  then show ?case
  proof cases
    case later
    from Cons.IH [OF later(2)] have "api_containers True n (after us' ?d2) = []"
      and "i \<in> c_Id ` set cs" by simp_all
    moreover have "after pre d = after us' ?d2"
      using later(1) d2 by (metis after_append)
    ultimately show ?thesis by simp
  next
    case here
    from reconcile_one_split [OF here] show ?thesis by simp
  qed
qed

lemma one_after_rename:
  assumes "distinct (map c_Id d)" and "i \<in> c_Id ` set d" and "api_containers True n d = []"
  shows "length (api_containers True n (api_rename i n d)) = 1"
proof -
  have nn: "\<forall>c \<in> set d. \<not> matches n (c_Name c)"
    using assms(3) by (auto simp: api_containers_def filter_empty_conv)
  have "api_containers True n (api_rename i n d)
      = map (\<lambda>c. if c_Id c = i then c\<lparr>c_Name := n\<rparr> else c) (filter (\<lambda>c. c_Id c = i) d)"
    unfolding api_containers_def api_rename_def filter_map
    using nn
    by (auto intro!: arg_cong [where f = "map _"] filter_cong simp: comp_def matches_refl)
  then have "length (api_containers True n (api_rename i n d)) = length (filter (\<lambda>c. c_Id c = i) d)"
    by simp
  also have "\<dots> = length (filter (\<lambda>j. j = i) (map c_Id d))"
    by (simp add: filter_map comp_def)
  also have "\<dots> = card ({j. j = i} \<inter> set (map c_Id d))"
    using assms(1) by (rule distinct_length_filter)
  also have "{j. j = i} \<inter> set (map c_Id d) = {i}"
    using assms(2) by auto
  finally show ?thesis by simp
qed

text \<open>
  Claim C3. After reconciliation the daemon lists no container for the canonical name:
  none has it, so no two share it. At every rename request of the reconciliation, the
  daemon's table of that moment has no container listed for the new name, hence none of
  that name: the loop at lines 91-93 ends only on a name whose listing is empty. When the
  container ids are pairwise different, right after the rename exactly one container is
  listed for the new name.
\<close>

theorem reconcile_names_unique:
  "api_containers True name (fst (reconcile fts name d)) = []
   \<and> (snd (reconcile fts name d) = pre @ ApiRename i n # post \<longrightarrow>
        api_containers True n (after pre d) = []
        \<and> (distinct (map c_Id d) \<longrightarrow>
             length (api_containers True n (after (pre @ [ApiRename i n]) d)) = 1))"
proof (intro conjI impI)
  show "api_containers True name (fst (reconcile fts name d)) = []"
    by (rule reconcile_clears)
next
  assume a: "snd (reconcile fts name d) = pre @ ApiRename i n # post"
  then obtain pre' where pre: "pre = ApiContainers True name # pre'"
    and l: "snd (reconcile_loop fts name (api_containers True name d) d)
              = pre' @ ApiRename i n # post"
    by (cases pre) (simp_all add: reconcile_eq)
  from reconcile_loop_split [OF l]
  have f: "api_containers True n (after pre' d) = []"
    and i: "i \<in> c_Id ` set (api_containers True name d)" by simp_all
  have p: "after pre d = after pre' d" using pre by (simp add: after_def)
  from f p show free: "api_containers True n (after pre d) = []" by simp
  assume dist: "distinct (map c_Id d)"
  have "distinct (map c_Id (after pre d))" using dist by (simp only: ids_after)
  moreover have "i \<in> c_Id ` set (after pre d)"
  proof -
    from i have "i \<in> set (map c_Id d)" by (auto simp: api_containers_def)
    then have "i \<in> set (map c_Id (after pre d))" by (simp only: ids_after)
    then show ?thesis by simp
  qed
  ultimately have "length (api_containers True n (api_rename i n (after pre d))) = 1"
    using free by (rule one_after_rename)
  moreover have "after (pre @ [ApiRename i n]) d = api_rename i n (after pre d)"
    by (simp add: after_append) (simp add: after_def)
  ultimately show "length (api_containers True n (after (pre @ [ApiRename i n]) d)) = 1"
    by simp
qed

theorem reconcile_names_unique_witness:
  "snd (reconcile (\<lambda>t. ''2020-01-01 12:00:00'') ''alice_dev''
         [\<lparr>c_Id = ''1a'', c_Name = ''alice_dev'', c_State = ''running'',
           c_Created = 1577880000\<rparr>,
          \<lparr>c_Id = ''2b'', c_Name = ''alice_dev_2020-01-01_12_00_00'',
           c_State = ''exited'', c_Created = 1577880000\<rparr>])
     = [ApiContainers True ''alice_dev'', ApiStop ''1a'',
        ApiContainers True ''alice_dev_2020-01-01_12_00_00'',
        ApiContainers True ''alice_dev_2020-01-01_12_00_00_1'']
       @ ApiRename ''1a'' ''alice_dev_2020-01-01_12_00_00_1'' # []
   \<and> distinct (map c_Id
         [\<lparr>c_Id = ''1a'', c_Name = ''alice_dev'', c_State = ''running'',
           c_Created = 1577880000\<rparr>,
          \<lparr>c_Id = ''2b'', c_Name = ''alice_dev_2020-01-01_12_00_00'',
           c_State = ''exited'', c_Created = 1577880000\<rparr>])
   \<and> api_containers True ''alice_dev_2020-01-01_12_00_00_1''
         (after [ApiContainers True ''alice_dev'', ApiStop ''1a'',
                 ApiContainers True ''alice_dev_2020-01-01_12_00_00'',
                 ApiContainers True ''alice_dev_2020-01-01_12_00_00_1'']
            [\<lparr>c_Id = ''1a'', c_Name = ''alice_dev'', c_State = ''running'',
              c_Created = 1577880000\<rparr>,
             \<lparr>c_Id = ''2b'', c_Name = ''alice_dev_2020-01-01_12_00_00'',
              c_State = ''exited'', c_Created = 1577880000\<rparr>]) = []
   \<and> length (api_containers True ''alice_dev_2020-01-01_12_00_00_1''
         (after ([ApiContainers True ''alice_dev'', ApiStop ''1a'',
                  ApiContainers True ''alice_dev_2020-01-01_12_00_00'',
                  ApiContainers True ''alice_dev_2020-01-01_12_00_00_1'']
                 @ [ApiRename ''1a'' ''alice_dev_2020-01-01_12_00_00_1''])
            [\<lparr>c_Id = ''1a'', c_Name = ''alice_dev'', c_State = ''running'',
              c_Created = 1577880000\<rparr>,
             \<lparr>c_Id = ''2b'', c_Name = ''alice_dev_2020-01-01_12_00_00'',
              c_State = ''exited'', c_Created = 1577880000\<rparr>])) = 1
   \<and> api_containers True ''alice_dev''
         (fst (reconcile (\<lambda>t. ''2020-01-01 12:00:00'') ''alice_dev''
            [\<lparr>c_Id = ''1a'', c_Name = ''alice_dev'', c_State = ''running'',
              c_Created = 1577880000\<rparr>,
             \<lparr>c_Id = ''2b'', c_Name = ''alice_dev_2020-01-01_12_00_00'',
              c_State = ''exited'', c_Created = 1577880000\<rparr>])) = []"
proof -
  have t: "snd (reconcile (\<lambda>t. ''2020-01-01 12:00:00'') ''alice_dev''
         [\<lparr>c_Id = ''1a'', c_Name = ''alice_dev'', c_State = ''running'',
           c_Created = 1577880000\<rparr>,
          \<lparr>c_Id = ''2b'', c_Name = ''alice_dev_2020-01-01_12_00_00'',
           c_State = ''exited'', c_Created = 1577880000\<rparr>])
     = [ApiContainers True ''alice_dev'', ApiStop ''1a'',
        ApiContainers True ''alice_dev_2020-01-01_12_00_00'',
        ApiContainers True ''alice_dev_2020-01-01_12_00_00_1'']
       @ ApiRename ''1a'' ''alice_dev_2020-01-01_12_00_00_1'' # []"
    by (simp add: alice_example_2020)
  have dist: "distinct (map c_Id
         [\<lparr>c_Id = ''1a'', c_Name = ''alice_dev'', c_State = ''running'',
           c_Created = 1577880000\<rparr>,
          \<lparr>c_Id = ''2b'', c_Name = ''alice_dev_2020-01-01_12_00_00'',
           c_State = ''exited'', c_Created = 1577880000\<rparr>])"
    by simp
  from reconcile_names_unique [of "''alice_dev''" "\<lambda>t. ''2020-01-01 12:00:00''"
      "[\<lparr>c_Id = ''1a'', c_Name = ''alice_dev'', c_State = ''running'',
           c_Created = 1577880000\<rparr>,
          \<lparr>c_Id = ''2b'', c_Name = ''alice_dev_2020-01-01_12_00_00'',
           c_State = ''exited'', c_Created = 1577880000\<rparr>]"
      "[ApiContainers True ''alice_dev'', ApiStop ''1a'',
        ApiContainers True ''alice_dev_2020-01-01_12_00_00'',
        ApiContainers True ''alice_dev_2020-01-01_12_00_00_1'']"
      "''1a''" "''alice_dev_2020-01-01_12_00_00_1''" "[]"] t dist
  show ?thesis by blast
qed

text \<open>
  Claim C8. Reconciliation run again on the table it has left finds no container listed
  for the canonical name: its only request is the listing, it stops and renames nothing,
  and the table stays as it is.
\<close>

theorem reconcile_twice:
  "api_containers True name (fst (reconcile fts name d)) = []
   \<and> reconcile fts name (fst (reconcile fts name d))
       = (fst (reconcile fts name d), [ApiContainers True name])"
  using reconcile_clears [of name fts d] reconcile_nothing_to_do by blast

theorem reconcile_twice_witness:
  "reconcile (\<lambda>t. ''2020-01-01 12:00:00'') ''alice_dev''
     [\<lparr>c_Id = ''1a'', c_Name = ''alice_dev_2020-01-01_12_00_00_1'',
       c_State = ''exited'', c_Created = 1577880000\<rparr>,
      \<lparr>c_Id = ''2b'', c_Name = ''alice_dev_2020-01-01_12_00_00'',
       c_State = ''exited'', c_Created = 1577880000\<rparr>]
   = ([\<lparr>c_Id = ''1a'', c_Name = ''alice_dev_2020-01-01_12_00_00_1'',
        c_State = ''exited'', c_Created = 1577880000\<rparr>,
       \<lparr>c_Id = ''2b'', c_Name = ''alice_dev_2020-01-01_12_00_00'',
        c_State = ''exited'', c_Created = 1577880000\<rparr>],
      [ApiContainers True ''alice_dev''])"
  using reconcile_twice [of "''alice_dev''" "\<lambda>t. ''2020-01-01 12:00:00''"
      "[\<lparr>c_Id = ''1a'', c_Name = ''alice_dev'', c_State = ''running'',
           c_Created = 1577880000\<rparr>,
          \<lparr>c_Id = ''2b'', c_Name = ''alice_dev_2020-01-01_12_00_00'',
           c_State = ''exited'', c_Created = 1577880000\<rparr>]"]
  by (simp add: alice_example_2020)

section \<open>What reconciliation does to each container\<close>

lemma created_after: "map c_Created (after tr d) = map c_Created d"
proof (induction tr arbitrary: d)
  case Nil
  show ?case by (simp add: after_def)
next
  case (Cons e tr)
  have "map c_Created (serve e d) = map c_Created d"
    by (cases e) (simp_all add: created_api_stop created_api_rename)
  with Cons.IH [of "serve e d"] show ?case by (simp add: after_def)
qed

lemma reconcile_one_stops:
  "[i. ApiStop i \<leftarrow> snd (reconcile_one fts name c d)] =
     (if lower (c_State c) = ''running'' then [c_Id c] else [])"
proof -
  obtain ns where "snd (rename_loop (if lower (c_State c) = ''running'' then api_stop (c_Id c) d else d)
      fts name (c_Created c) (candidate fts name (c_Created c)) 1) = map (ApiContainers True) ns"
    using rename_loop_trace by blast
  then show ?thesis by (simp add: reconcile_one_eq)
qed

lemma reconcile_one_renames:
  "map fst [(i, n). ApiRename i n \<leftarrow> snd (reconcile_one fts name c d)] = [c_Id c]"
proof -
  obtain ns where "snd (rename_loop (if lower (c_State c) = ''running'' then api_stop (c_Id c) d else d)
      fts name (c_Created c) (candidate fts name (c_Created c)) 1) = map (ApiContainers True) ns"
    using rename_loop_trace by blast
  then show ?thesis by (simp add: reconcile_one_eq)
qed

lemma reconcile_loop_stops:
  "[i. ApiStop i \<leftarrow> snd (reconcile_loop fts name cs d)] =
     [c_Id c. c \<leftarrow> cs, lower (c_State c) = ''running'']"
proof (induction cs arbitrary: d)
  case Nil
  show ?case by simp
next
  case (Cons c cs)
  show ?case
    using Cons.IH [of "fst (reconcile_one fts name c d)"] reconcile_one_stops [of fts name c d]
    by (simp add: reconcile_loop_Cons del: reconcile_loop.simps)
qed

lemma reconcile_loop_renames:
  "map fst [(i, n). ApiRename i n \<leftarrow> snd (reconcile_loop fts name cs d)] = map c_Id cs"
proof (induction cs arbitrary: d)
  case Nil
  show ?case by simp
next
  case (Cons c cs)
  show ?case
    using Cons.IH [of "fst (reconcile_one fts name c d)"] reconcile_one_renames [of fts name c d]
    by (simp add: reconcile_loop_Cons del: reconcile_loop.simps)
qed

lemma api_stop_nth:
  "p < length d \<Longrightarrow>
     api_stop i d ! p = (if c_Id (d ! p) = i then (d ! p)\<lparr>c_State := ''exited''\<rparr> else d ! p)"
  by (simp add: api_stop_def)

lemma api_rename_nth:
  "p < length d \<Longrightarrow>
     api_rename i nm d ! p = (if c_Id (d ! p) = i then (d ! p)\<lparr>c_Name := nm\<rparr> else d ! p)"
  by (simp add: api_rename_def)

lemma reconcile_one_nth:
  "\<exists>n. \<not> matches name n \<and> n \<notin> c_Name ` set d
       \<and> length (fst (reconcile_one fts name c d)) = length d
       \<and> (\<forall>p<length d.
             c_Id (fst (reconcile_one fts name c d) ! p) = c_Id (d ! p)
             \<and> (c_Id (d ! p) = c_Id c \<longrightarrow> c_Name (fst (reconcile_one fts name c d) ! p) = n)
             \<and> (c_Id (d ! p) \<noteq> c_Id c \<longrightarrow> fst (reconcile_one fts name c d) ! p = d ! p))"
proof -
  let ?d1 = "if lower (c_State c) = ''running'' then api_stop (c_Id c) d else d"
  let ?n = "fst (rename_loop ?d1 fts name (c_Created c) (candidate fts name (c_Created c)) 1)"
  have e: "fst (reconcile_one fts name c d) = api_rename (c_Id c) ?n ?d1"
    by (simp only: reconcile_one_eq fst_conv)
  have "length name < length ?n"
    using length_candidate by (rule rename_loop_longer)
  then have n1: "\<not> matches name ?n" using matches_length [of name ?n] by auto
  have "api_containers True ?n ?d1 = []" by (rule rename_loop_is_free)
  then have "api_containers True ?n d = []"
    by (simp add: listed_api_stop split: if_splits)
  then have n2: "?n \<notin> c_Name ` set d"
    by (rule empty_listing_free)
  have len1: "length ?d1 = length d" by (simp add: api_stop_def)
  have len: "length (fst (reconcile_one fts name c d)) = length d"
    using len1 by (simp add: e api_rename_def)
  have nth: "c_Id (fst (reconcile_one fts name c d) ! p) = c_Id (d ! p)
             \<and> (c_Id (d ! p) = c_Id c \<longrightarrow> c_Name (fst (reconcile_one fts name c d) ! p) = ?n)
             \<and> (c_Id (d ! p) \<noteq> c_Id c \<longrightarrow> fst (reconcile_one fts name c d) ! p = d ! p)"
    if p: "p < length d" for p
  proof -
    have a: "?d1 ! p = (if lower (c_State c) = ''running'' \<and> c_Id (d ! p) = c_Id c
                        then (d ! p)\<lparr>c_State := ''exited''\<rparr> else d ! p)"
      using p by (simp add: api_stop_nth)
    have b: "fst (reconcile_one fts name c d) ! p
        = (if c_Id (?d1 ! p) = c_Id c then (?d1 ! p)\<lparr>c_Name := ?n\<rparr> else ?d1 ! p)"
      using p len1 by (simp only: e api_rename_nth)
    show ?thesis by (simp only: b a) simp
  qed
  from n1 n2 len nth show ?thesis by blast
qed

lemma distinct_ids_nth:
  "distinct (map c_Id d) \<Longrightarrow> p < length d \<Longrightarrow> q < length d \<Longrightarrow>
     c_Id (d ! p) = c_Id (d ! q) \<Longrightarrow> p = q"
  using nth_eq_iff_index_eq [of "map c_Id d" p q] by simp

lemma reconcile_loop_nth:
  assumes "distinct (map c_Id d)"
  shows "length (fst (reconcile_loop fts name cs d)) = length d
    \<and> (\<forall>p<length d.
          c_Id (fst (reconcile_loop fts name cs d) ! p) = c_Id (d ! p)
          \<and> (c_Id (d ! p) \<notin> c_Id ` set cs \<longrightarrow> fst (reconcile_loop fts name cs d) ! p = d ! p)
          \<and> (c_Id (d ! p) \<in> c_Id ` set cs \<longrightarrow>
               \<not> matches name (c_Name (fst (reconcile_loop fts name cs d) ! p))
               \<and> (\<forall>q<length d. q \<noteq> p \<longrightarrow>
                    c_Name (fst (reconcile_loop fts name cs d) ! q)
                      \<noteq> c_Name (fst (reconcile_loop fts name cs d) ! p))))"
  using assms
proof (induction cs arbitrary: d)
  case Nil
  show ?case by simp
next
  case (Cons c cs)
  let ?d2 = "fst (reconcile_one fts name c d)"
  let ?d' = "fst (reconcile_loop fts name cs ?d2)"
  have res: "fst (reconcile_loop fts name (c # cs) d) = ?d'"
    by (simp only: reconcile_loop_Cons fst_conv)
  from reconcile_one_nth [of name d fts c] obtain n where
    n1: "\<not> matches name n" and n2: "n \<notin> c_Name ` set d" and len2: "length ?d2 = length d"
    and one: "\<And>p. p < length d \<Longrightarrow>
       c_Id (?d2 ! p) = c_Id (d ! p)
       \<and> (c_Id (d ! p) = c_Id c \<longrightarrow> c_Name (?d2 ! p) = n)
       \<and> (c_Id (d ! p) \<noteq> c_Id c \<longrightarrow> ?d2 ! p = d ! p)"
    by blast
  have "map c_Id ?d2 = map c_Id d"
    by (simp only: reconcile_one_after ids_after)
  with Cons.prems have dist2: "distinct (map c_Id ?d2)" by simp
  note ih = Cons.IH [OF dist2]
  from ih have len': "length ?d' = length d" using len2 by simp
  have id': "c_Id (?d' ! p) = c_Id (d ! p)" if "p < length d" for p
    using ih that len2 one by simp
  have keep': "?d' ! p = ?d2 ! p" if "p < length d" and "c_Id (d ! p) \<notin> c_Id ` set cs" for p
    using ih that len2 one by simp
  have fresh': "\<not> matches name (c_Name (?d' ! p))
       \<and> (\<forall>q<length d. q \<noteq> p \<longrightarrow> c_Name (?d' ! q) \<noteq> c_Name (?d' ! p))"
    if "p < length d" and "c_Id (d ! p) \<in> c_Id ` set cs" for p
    using ih that len2 one by simp
  have main: "c_Id (?d' ! p) = c_Id (d ! p)
          \<and> (c_Id (d ! p) \<notin> c_Id ` set (c # cs) \<longrightarrow> ?d' ! p = d ! p)
          \<and> (c_Id (d ! p) \<in> c_Id ` set (c # cs) \<longrightarrow>
               \<not> matches name (c_Name (?d' ! p))
               \<and> (\<forall>q<length d. q \<noteq> p \<longrightarrow> c_Name (?d' ! q) \<noteq> c_Name (?d' ! p)))"
    if p: "p < length d" for p
  proof (intro conjI impI)
    show "c_Id (?d' ! p) = c_Id (d ! p)" using p by (rule id')
  next
    assume a: "c_Id (d ! p) \<notin> c_Id ` set (c # cs)"
    then have "c_Id (d ! p) \<notin> c_Id ` set cs" and "c_Id (d ! p) \<noteq> c_Id c" by auto
    then show "?d' ! p = d ! p" using keep' [OF p] one [OF p] by simp
  next
    assume a: "c_Id (d ! p) \<in> c_Id ` set (c # cs)"
    show "\<not> matches name (c_Name (?d' ! p))"
    proof (cases "c_Id (d ! p) \<in> c_Id ` set cs")
      case True
      then show ?thesis using fresh' [OF p] by simp
    next
      case False
      with a have "c_Id (d ! p) = c_Id c" by auto
      with False show ?thesis using keep' [OF p] one [OF p] n1 by simp
    qed
  next
    assume a: "c_Id (d ! p) \<in> c_Id ` set (c # cs)"
    show "\<forall>q<length d. q \<noteq> p \<longrightarrow> c_Name (?d' ! q) \<noteq> c_Name (?d' ! p)"
    proof (cases "c_Id (d ! p) \<in> c_Id ` set cs")
      case True
      then show ?thesis using fresh' [OF p] by simp
    next
      case False
      with a have pc: "c_Id (d ! p) = c_Id c" by auto
      with False have np: "c_Name (?d' ! p) = n" using keep' [OF p] one [OF p] by simp
      show ?thesis
      proof (intro allI impI)
        fix q assume q: "q < length d" and qp: "q \<noteq> p"
        show "c_Name (?d' ! q) \<noteq> c_Name (?d' ! p)"
        proof (cases "c_Id (d ! q) \<in> c_Id ` set cs")
          case True
          from fresh' [OF q True] p qp show ?thesis by auto
        next
          case False
          have "c_Id (d ! q) \<noteq> c_Id c"
            using distinct_ids_nth [OF Cons.prems q p] qp pc by auto
          with False have "?d' ! q = d ! q" using keep' [OF q] one [OF q] by simp
          moreover have "c_Name (d ! q) \<in> c_Name ` set d" using q by simp
          ultimately show ?thesis using np n2 by auto
        qed
      qed
    qed
  qed
  show ?case
    using len' main by (simp only: res) blast
qed

lemma matched_ids:
  assumes "distinct (map c_Id d)" and "p < length d"
  shows "c_Id (d ! p) \<in> c_Id ` set (api_containers True name d)
           \<longleftrightarrow> matches name (c_Name (d ! p))"
proof
  assume "c_Id (d ! p) \<in> c_Id ` set (api_containers True name d)"
  then obtain x where x: "x \<in> set d" and nm: "matches name (c_Name x)"
    and i: "c_Id x = c_Id (d ! p)"
    by (auto simp: api_containers_def)
  from x obtain q where q: "q < length d" and xq: "x = d ! q"
    by (auto simp: in_set_conv_nth)
  from i xq have "c_Id (d ! q) = c_Id (d ! p)" by simp
  with assms q have "q = p" using distinct_ids_nth by blast
  with xq nm show "matches name (c_Name (d ! p))" by simp
next
  assume "matches name (c_Name (d ! p))"
  with assms(2) have "d ! p \<in> set (api_containers True name d)"
    by (simp add: api_containers_def)
  then show "c_Id (d ! p) \<in> c_Id ` set (api_containers True name d)" by blast
qed

lemma plain_listing_eq:
  "CHR ''.'' \<notin> set name \<Longrightarrow>
     api_containers True name d = filter (\<lambda>c. c_Name c = name) d"
  by (auto simp: api_containers_def matches_plain intro: filter_cong)

lemma same_name_listed:
  "c \<in> set d \<Longrightarrow> c_Name c = name \<Longrightarrow> c \<in> set (api_containers True name d)"
  by (auto simp: api_containers_def matches_refl)

lemma run_step_after_reconcile:
  "dict_of port [] = Inr ports \<Longrightarrow> dict_of volume [] = Inr volumes \<Longrightarrow>
     \<exists>rest. fst (run_step fts d run_result world user name tag port volume detach wait verbose)
       = snd (reconcile fts name d) @ ApiRun tag name user ports volumes detach # rest"
  by (cases run_result) (simp_all add: run_step_def Let_def case_prod_beta)

text \<open>
  A look-alike is reconciled as well: for \<^verbatim>\<open>a.b_dev\<close> the daemon also lists a
  running \<^verbatim>\<open>axb_dev\<close>, which is stopped and renamed.
\<close>

lemma look_alike_reconciled:
  "reconcile (\<lambda>t. ''2020-01-01 12:00:00'') ''a.b_dev''
     [\<lparr>c_Id = ''1a'', c_Name = ''a.b_dev'', c_State = ''exited'', c_Created = 1577880000\<rparr>,
      \<lparr>c_Id = ''2b'', c_Name = ''axb_dev'', c_State = ''running'', c_Created = 1577880000\<rparr>]
   = ([\<lparr>c_Id = ''1a'', c_Name = ''a.b_dev_2020-01-01_12_00_00'',
        c_State = ''exited'', c_Created = 1577880000\<rparr>,
       \<lparr>c_Id = ''2b'', c_Name = ''a.b_dev_2020-01-01_12_00_00_1'',
        c_State = ''exited'', c_Created = 1577880000\<rparr>],
      [ApiContainers True ''a.b_dev'',
       ApiContainers True ''a.b_dev_2020-01-01_12_00_00'',
       ApiRename ''1a'' ''a.b_dev_2020-01-01_12_00_00'',
       ApiStop ''2b'',
       ApiContainers True ''a.b_dev_2020-01-01_12_00_00'',
       ApiContainers True ''a.b_dev_2020-01-01_12_00_00_1'',
       ApiRename ''2b'' ''a.b_dev_2020-01-01_12_00_00_1''])"
  by (simp add: reconcile_def reconcile_one_def rename_loop.simps api_containers_def api_stop_def
        api_rename_def candidate_def candidate_n_def replace_def str_nat_1 lower_running Let_def
        lower_def lower_char_def)

text \<open>
  Claim C7. Let the canonical name and the rename candidates of the containers be made of
  the characters of container names, which is where the daemon's matching is as
  \<^verbatim>\<open>matches\<close> has it. The containers that reconciliation works on are those the daemon
  lists for the canonical name; every container that has the canonical name is among
  them, and when the name holds no dot they are exactly the containers of that name.
  Reconciliation sends a
  stop request for exactly the listed containers whose state, in lower case, is
  \<^verbatim>\<open>running\<close>, and a rename request for every listed container, whatever its state,
  in the order of the listing. It removes nothing: the daemon's table holds the same ids
  with the same creation times afterwards. When the ids are pairwise different, a
  container that was not listed is left exactly as it was, and a listed container ends
  with a name that the daemon no longer lists for the canonical name and that no other
  container has. In the run step all of this comes before the request that creates the new
  container.
\<close>

theorem reconcile_frame:
  "name_chars name \<Longrightarrow> (\<forall>x \<in> set d. name_chars (candidate fts name (c_Created x))) \<Longrightarrow>
   [i. ApiStop i \<leftarrow> snd (reconcile fts name d)] =
     [c_Id c. c \<leftarrow> api_containers True name d, lower (c_State c) = ''running'']
   \<and> map fst [(i, n). ApiRename i n \<leftarrow> snd (reconcile fts name d)] =
       map c_Id (api_containers True name d)
   \<and> (c \<in> set d \<and> c_Name c = name \<longrightarrow> c \<in> set (api_containers True name d))
   \<and> (CHR ''.'' \<notin> set name \<longrightarrow>
        api_containers True name d = filter (\<lambda>c. c_Name c = name) d)
   \<and> map c_Id (fst (reconcile fts name d)) = map c_Id d
   \<and> map c_Created (fst (reconcile fts name d)) = map c_Created d
   \<and> (distinct (map c_Id d) \<and> p < length d \<and> q < length d \<longrightarrow>
        (\<not> matches name (c_Name (d ! p)) \<longrightarrow> fst (reconcile fts name d) ! p = d ! p)
        \<and> (matches name (c_Name (d ! p)) \<and> q \<noteq> p \<longrightarrow>
             \<not> matches name (c_Name (fst (reconcile fts name d) ! p))
             \<and> c_Name (fst (reconcile fts name d) ! q)
                 \<noteq> c_Name (fst (reconcile fts name d) ! p)))
   \<and> (dict_of port [] = Inr ports \<and> dict_of volume [] = Inr volumes \<longrightarrow>
        (\<exists>rest. fst (run_step fts d run_result world user name tag port volume detach wait verbose)
           = snd (reconcile fts name d) @ ApiRun tag name user ports volumes detach # rest))"
proof -
  let ?cs = "api_containers True name d"
  have f: "fst (reconcile fts name d) = fst (reconcile_loop fts name ?cs d)"
    and s: "snd (reconcile fts name d) = ApiContainers True name # snd (reconcile_loop fts name ?cs d)"
    by (simp_all only: reconcile_eq fst_conv snd_conv)
  have stops: "[i. ApiStop i \<leftarrow> snd (reconcile fts name d)] =
     [c_Id c. c \<leftarrow> api_containers True name d, lower (c_State c) = ''running'']"
    using reconcile_loop_stops [of fts name ?cs d] by (simp add: s)
  have renames: "map fst [(i, n). ApiRename i n \<leftarrow> snd (reconcile fts name d)] =
       map c_Id (api_containers True name d)"
    using reconcile_loop_renames [of fts name ?cs d] by (simp add: s)
  have same: "c \<in> set d \<and> c_Name c = name \<longrightarrow> c \<in> set (api_containers True name d)"
    using same_name_listed by blast
  have plain: "CHR ''.'' \<notin> set name \<longrightarrow>
        api_containers True name d = filter (\<lambda>c. c_Name c = name) d"
    using plain_listing_eq by blast
  have ids: "map c_Id (fst (reconcile fts name d)) = map c_Id d"
    by (simp only: reconcile_after ids_after)
  have created: "map c_Created (fst (reconcile fts name d)) = map c_Created d"
    by (simp only: reconcile_after created_after)
  have frame: "(\<not> matches name (c_Name (d ! p)) \<longrightarrow> fst (reconcile fts name d) ! p = d ! p)
        \<and> (matches name (c_Name (d ! p)) \<and> q \<noteq> p \<longrightarrow>
             \<not> matches name (c_Name (fst (reconcile fts name d) ! p))
             \<and> c_Name (fst (reconcile fts name d) ! q)
                 \<noteq> c_Name (fst (reconcile fts name d) ! p))"
    if a: "distinct (map c_Id d) \<and> p < length d \<and> q < length d"
  proof -
    from a have dist: "distinct (map c_Id d)" and p: "p < length d" and q: "q < length d"
      by simp_all
    note m = matched_ids [OF dist p, of name]
    from reconcile_loop_nth [OF dist, of fts name ?cs] p
    have keep: "c_Id (d ! p) \<notin> c_Id ` set ?cs \<longrightarrow> fst (reconcile_loop fts name ?cs d) ! p = d ! p"
      and fresh: "c_Id (d ! p) \<in> c_Id ` set ?cs \<longrightarrow>
               \<not> matches name (c_Name (fst (reconcile_loop fts name ?cs d) ! p))
               \<and> (\<forall>q<length d. q \<noteq> p \<longrightarrow>
                    c_Name (fst (reconcile_loop fts name ?cs d) ! q)
                      \<noteq> c_Name (fst (reconcile_loop fts name ?cs d) ! p))"
      by blast+
    from keep fresh q show ?thesis
      by (simp only: f m) blast
  qed
  have run: "\<exists>rest. fst (run_step fts d run_result world user name tag port volume detach wait verbose)
           = snd (reconcile fts name d) @ ApiRun tag name user ports volumes detach # rest"
    if "dict_of port [] = Inr ports \<and> dict_of volume [] = Inr volumes"
    using that run_step_after_reconcile by blast
  from stops renames same plain ids created frame run show ?thesis by blast
qed

theorem reconcile_frame_witness:
  "name_chars ''alice_dev''
   \<and> name_chars (candidate (\<lambda>t. ''2020-01-01 12:00:00'') ''alice_dev'' 1577880000)
   \<and> \<lparr>c_Id = ''1a'', c_Name = ''alice_dev'', c_State = ''running'',
        c_Created = 1577880000\<rparr> \<in> set
      [\<lparr>c_Id = ''1a'', c_Name = ''alice_dev'', c_State = ''running'',
        c_Created = 1577880000\<rparr>,
       \<lparr>c_Id = ''2b'', c_Name = ''alice_dev_2020-01-01_12_00_00'',
        c_State = ''exited'', c_Created = 1577880000\<rparr>]
   \<and> c_Name \<lparr>c_Id = ''1a'', c_Name = ''alice_dev'', c_State = ''running'',
        c_Created = 1577880000\<rparr> = ''alice_dev''
   \<and> \<lparr>c_Id = ''1a'', c_Name = ''alice_dev'', c_State = ''running'',
        c_Created = 1577880000\<rparr> \<in> set (api_containers True ''alice_dev''
      [\<lparr>c_Id = ''1a'', c_Name = ''alice_dev'', c_State = ''running'',
        c_Created = 1577880000\<rparr>,
       \<lparr>c_Id = ''2b'', c_Name = ''alice_dev_2020-01-01_12_00_00'',
        c_State = ''exited'', c_Created = 1577880000\<rparr>])
   \<and> CHR ''.'' \<notin> set ''alice_dev''
   \<and> api_containers True ''alice_dev''
      [\<lparr>c_Id = ''1a'', c_Name = ''alice_dev'', c_State = ''running'',
        c_Created = 1577880000\<rparr>,
       \<lparr>c_Id = ''2b'', c_Name = ''alice_dev_2020-01-01_12_00_00'',
        c_State = ''exited'', c_Created = 1577880000\<rparr>]
       = filter (\<lambda>c. c_Name c = ''alice_dev'')
      [\<lparr>c_Id = ''1a'', c_Name = ''alice_dev'', c_State = ''running'',
        c_Created = 1577880000\<rparr>,
       \<lparr>c_Id = ''2b'', c_Name = ''alice_dev_2020-01-01_12_00_00'',
        c_State = ''exited'', c_Created = 1577880000\<rparr>]
   \<and> [i. ApiStop i \<leftarrow> snd (reconcile (\<lambda>t. ''2020-01-01 12:00:00'') ''alice_dev''
      [\<lparr>c_Id = ''1a'', c_Name = ''alice_dev'', c_State = ''running'',
        c_Created = 1577880000\<rparr>,
       \<lparr>c_Id = ''2b'', c_Name = ''alice_dev_2020-01-01_12_00_00'',
        c_State = ''exited'', c_Created = 1577880000\<rparr>])] = [''1a'']
   \<and> distinct (map c_Id
      [\<lparr>c_Id = ''1a'', c_Name = ''alice_dev'', c_State = ''running'',
        c_Created = 1577880000\<rparr>,
       \<lparr>c_Id = ''2b'', c_Name = ''alice_dev_2020-01-01_12_00_00'',
        c_State = ''exited'', c_Created = 1577880000\<rparr>])
   \<and> \<not> matches ''alice_dev'' (c_Name (
      [\<lparr>c_Id = ''1a'', c_Name = ''alice_dev'', c_State = ''running'',
        c_Created = 1577880000\<rparr>,
       \<lparr>c_Id = ''2b'', c_Name = ''alice_dev_2020-01-01_12_00_00'',
        c_State = ''exited'', c_Created = 1577880000\<rparr>] ! 1))
   \<and> fst (reconcile (\<lambda>t. ''2020-01-01 12:00:00'') ''alice_dev''
      [\<lparr>c_Id = ''1a'', c_Name = ''alice_dev'', c_State = ''running'',
        c_Created = 1577880000\<rparr>,
       \<lparr>c_Id = ''2b'', c_Name = ''alice_dev_2020-01-01_12_00_00'',
        c_State = ''exited'', c_Created = 1577880000\<rparr>]) ! 1
       = \<lparr>c_Id = ''2b'', c_Name = ''alice_dev_2020-01-01_12_00_00'',
        c_State = ''exited'', c_Created = 1577880000\<rparr>
   \<and> matches ''alice_dev'' (c_Name (
      [\<lparr>c_Id = ''1a'', c_Name = ''alice_dev'', c_State = ''running'',
        c_Created = 1577880000\<rparr>,
       \<lparr>c_Id = ''2b'', c_Name = ''alice_dev_2020-01-01_12_00_00'',
        c_State = ''exited'', c_Created = 1577880000\<rparr>] ! 0))
   \<and> \<not> matches ''alice_dev'' (c_Name (fst (reconcile (\<lambda>t. ''2020-01-01 12:00:00'') ''alice_dev''
      [\<lparr>c_Id = ''1a'', c_Name = ''alice_dev'', c_State = ''running'',
        c_Created = 1577880000\<rparr>,
       \<lparr>c_Id = ''2b'', c_Name = ''alice_dev_2020-01-01_12_00_00'',
        c_State = ''exited'', c_Created = 1577880000\<rparr>]) ! 0))
   \<and> c_Name (fst (reconcile (\<lambda>t. ''2020-01-01 12:00:00'') ''alice_dev''
      [\<lparr>c_Id = ''1a'', c_Name = ''alice_dev'', c_State = ''running'',
        c_Created = 1577880000\<rparr>,
       \<lparr>c_Id = ''2b'', c_Name = ''alice_dev_2020-01-01_12_00_00'',
        c_State = ''exited'', c_Created = 1577880000\<rparr>]) ! 1)
       \<noteq> c_Name (fst (reconcile (\<lambda>t. ''2020-01-01 12:00:00'') ''alice_dev''
      [\<lparr>c_Id = ''1a'', c_Name = ''alice_dev'', c_State = ''running'',
        c_Created = 1577880000\<rparr>,
       \<lparr>c_Id = ''2b'', c_Name = ''alice_dev_2020-01-01_12_00_00'',
        c_State = ''exited'', c_Created = 1577880000\<rparr>]) ! 0)
   \<and> dict_of [''80/tcp:8080''] [] = Inr [(''80/tcp'', ''8080'')]
   \<and> dict_of [''/srv/data:/data''] [] = Inr [(''/srv/data'', ''/data'')]
   \<and> (\<exists>rest. fst (run_step (\<lambda>t. ''2020-01-01 12:00:00'')
      [\<lparr>c_Id = ''1a'', c_Name = ''alice_dev'', c_State = ''running'',
        c_Created = 1577880000\<rparr>,
       \<lparr>c_Id = ''2b'', c_Name = ''alice_dev_2020-01-01_12_00_00'',
        c_State = ''exited'', c_Created = 1577880000\<rparr>]
      (Inr ''c0ffee'') (\<lambda>k. []) ''alice'' ''alice_dev'' ''alice:dev''
      [''80/tcp:8080''] [''/srv/data:/data''] True 5 0)
       = snd (reconcile (\<lambda>t. ''2020-01-01 12:00:00'') ''alice_dev''
      [\<lparr>c_Id = ''1a'', c_Name = ''alice_dev'', c_State = ''running'',
        c_Created = 1577880000\<rparr>,
       \<lparr>c_Id = ''2b'', c_Name = ''alice_dev_2020-01-01_12_00_00'',
        c_State = ''exited'', c_Created = 1577880000\<rparr>])
         @ ApiRun ''alice:dev'' ''alice_dev'' ''alice'' [(''80/tcp'', ''8080'')]
            [(''/srv/data'', ''/data'')] True # rest)"
proof -
  let ?d = "[\<lparr>c_Id = ''1a'', c_Name = ''alice_dev'', c_State = ''running'',
        c_Created = 1577880000\<rparr>,
       \<lparr>c_Id = ''2b'', c_Name = ''alice_dev_2020-01-01_12_00_00'',
        c_State = ''exited'', c_Created = 1577880000\<rparr>]"
  have n1: "name_chars ''alice_dev''"
    by (simp add: name_chars_def)
  have n2: "name_chars (candidate (\<lambda>t. ''2020-01-01 12:00:00'') ''alice_dev'' 1577880000)"
    by (simp add: candidate_def replace_def name_chars_def)
  then have n3: "\<forall>x \<in> set ?d.
      name_chars (candidate (\<lambda>t. ''2020-01-01 12:00:00'') ''alice_dev'' (c_Created x))"
    by simp
  have ports: "dict_of [''80/tcp:8080''] [] = Inr [(''80/tcp'', ''8080'')]"
    by (simp add: key_value_def)
  have volumes: "dict_of [''/srv/data:/data''] [] = Inr [(''/srv/data'', ''/data'')]"
    by (simp add: key_value_def)
  have listed: "api_containers True ''alice_dev'' ?d
      = [\<lparr>c_Id = ''1a'', c_Name = ''alice_dev'', c_State = ''running'',
        c_Created = 1577880000\<rparr>]"
    by (simp add: api_containers_def)
  have h3: "\<lparr>c_Id = ''1a'', c_Name = ''alice_dev'', c_State = ''running'',
        c_Created = 1577880000\<rparr> \<in> set ?d
      \<and> c_Name \<lparr>c_Id = ''1a'', c_Name = ''alice_dev'', c_State = ''running'',
        c_Created = 1577880000\<rparr> = ''alice_dev''"
    by simp
  have h4: "CHR ''.'' \<notin> set ''alice_dev''" by simp
  have h7a: "distinct (map c_Id ?d) \<and> (1::nat) < length ?d \<and> (0::nat) < length ?d" by simp
  have h7b: "distinct (map c_Id ?d) \<and> (0::nat) < length ?d \<and> (1::nat) < length ?d" by simp
  have m1: "\<not> matches ''alice_dev'' (c_Name (?d ! 1))" by simp
  have m0: "matches ''alice_dev'' (c_Name (?d ! 0)) \<and> (1::nat) \<noteq> 0" by simp
  have h8: "dict_of [''80/tcp:8080''] [] = Inr [(''80/tcp'', ''8080'')]
      \<and> dict_of [''/srv/data:/data''] [] = Inr [(''/srv/data'', ''/data'')]"
    using ports volumes by simp
  note A = reconcile_frame [where fts = "(\<lambda>t. ''2020-01-01 12:00:00'')" and name = "''alice_dev''" and d = ?d
      and c = "\<lparr>c_Id = ''1a'', c_Name = ''alice_dev'', c_State = ''running'',
        c_Created = 1577880000\<rparr>"
      and p = 1 and q = 0
      and port = "[''80/tcp:8080'']" and ports = "[(''80/tcp'', ''8080'')]"
      and volume = "[''/srv/data:/data'']" and volumes = "[(''/srv/data'', ''/data'')]"
      and run_result = "Inr ''c0ffee''" and world = "\<lambda>k. []" and user = "''alice''"
      and tag = "''alice:dev''" and detach = True and wait = 5 and verbose = 0, OF n1 n3]
  note B = reconcile_frame [where fts = "(\<lambda>t. ''2020-01-01 12:00:00'')" and name = "''alice_dev''" and d = ?d
      and p = 0 and q = 1, OF n1 n3]
  from A have stops: "[i. ApiStop i \<leftarrow> snd (reconcile (\<lambda>t. ''2020-01-01 12:00:00'') ''alice_dev'' ?d)] = [''1a'']"
    by (simp add: listed lower_running)
  from A [THEN conjunct2, THEN conjunct2, THEN conjunct1] h3
  have same: "\<lparr>c_Id = ''1a'', c_Name = ''alice_dev'', c_State = ''running'',
        c_Created = 1577880000\<rparr>
      \<in> set (api_containers True ''alice_dev'' ?d)"
    by (rule mp)
  from A [THEN conjunct2, THEN conjunct2, THEN conjunct2, THEN conjunct1] h4
  have plain: "api_containers True ''alice_dev'' ?d = filter (\<lambda>c. c_Name c = ''alice_dev'') ?d"
    by (rule mp)
  from A [THEN conjunct2, THEN conjunct2, THEN conjunct2, THEN conjunct2, THEN conjunct2,
      THEN conjunct2, THEN conjunct1] h7a
  have "(\<not> matches ''alice_dev'' (c_Name (?d ! 1))
          \<longrightarrow> fst (reconcile (\<lambda>t. ''2020-01-01 12:00:00'') ''alice_dev'' ?d) ! 1 = ?d ! 1)
        \<and> (matches ''alice_dev'' (c_Name (?d ! 1)) \<and> (0::nat) \<noteq> 1 \<longrightarrow>
             \<not> matches ''alice_dev'' (c_Name (fst (reconcile (\<lambda>t. ''2020-01-01 12:00:00'') ''alice_dev'' ?d) ! 1))
             \<and> c_Name (fst (reconcile (\<lambda>t. ''2020-01-01 12:00:00'') ''alice_dev'' ?d) ! 0)
                 \<noteq> c_Name (fst (reconcile (\<lambda>t. ''2020-01-01 12:00:00'') ''alice_dev'' ?d) ! 1))"
    by (rule mp)
  with m1 have keep: "fst (reconcile (\<lambda>t. ''2020-01-01 12:00:00'') ''alice_dev'' ?d) ! 1 = ?d ! 1" by blast
  from B [THEN conjunct2, THEN conjunct2, THEN conjunct2, THEN conjunct2, THEN conjunct2,
      THEN conjunct2, THEN conjunct1] h7b
  have "(\<not> matches ''alice_dev'' (c_Name (?d ! 0))
          \<longrightarrow> fst (reconcile (\<lambda>t. ''2020-01-01 12:00:00'') ''alice_dev'' ?d) ! 0 = ?d ! 0)
        \<and> (matches ''alice_dev'' (c_Name (?d ! 0)) \<and> (1::nat) \<noteq> 0 \<longrightarrow>
             \<not> matches ''alice_dev'' (c_Name (fst (reconcile (\<lambda>t. ''2020-01-01 12:00:00'') ''alice_dev'' ?d) ! 0))
             \<and> c_Name (fst (reconcile (\<lambda>t. ''2020-01-01 12:00:00'') ''alice_dev'' ?d) ! 1)
                 \<noteq> c_Name (fst (reconcile (\<lambda>t. ''2020-01-01 12:00:00'') ''alice_dev'' ?d) ! 0))"
    by (rule mp)
  with m0 have fresh: "\<not> matches ''alice_dev'' (c_Name (fst (reconcile (\<lambda>t. ''2020-01-01 12:00:00'') ''alice_dev'' ?d) ! 0))
      \<and> c_Name (fst (reconcile (\<lambda>t. ''2020-01-01 12:00:00'') ''alice_dev'' ?d) ! 1)
           \<noteq> c_Name (fst (reconcile (\<lambda>t. ''2020-01-01 12:00:00'') ''alice_dev'' ?d) ! 0)"
    by blast
  from A [THEN conjunct2, THEN conjunct2, THEN conjunct2, THEN conjunct2, THEN conjunct2,
      THEN conjunct2, THEN conjunct2] h8
  have run: "\<exists>rest. fst (run_step (\<lambda>t. ''2020-01-01 12:00:00'') ?d
      (Inr ''c0ffee'') (\<lambda>k. []) ''alice'' ''alice_dev'' ''alice:dev''
      [''80/tcp:8080''] [''/srv/data:/data''] True 5 0)
       = snd (reconcile (\<lambda>t. ''2020-01-01 12:00:00'') ''alice_dev'' ?d)
         @ ApiRun ''alice:dev'' ''alice_dev'' ''alice'' [(''80/tcp'', ''8080'')]
            [(''/srv/data'', ''/data'')] True # rest"
    by (rule mp)
  have k2: "?d ! 1 = \<lparr>c_Id = ''2b'', c_Name = ''alice_dev_2020-01-01_12_00_00'',
        c_State = ''exited'', c_Created = 1577880000\<rparr>"
    by simp
  from n1 n2 h3 same h4 plain stops h7a m1 keep k2 m0 fresh ports volumes run
  show ?thesis by (simp only:) blast
qed

end
